theory Spec2Isabelle
  imports Complex_Main "HOL-Library.Multiset"
begin

chapter \<open>Blender2UrhoPBR: the asset-translation pipeline\<close>

text \<open>
  A shallow embedding of the exporter's core: the object-name suffix parser, the material
  technique mapper, the mesh decomposer (vertex deduplication, winding, skin weights, morph
  state), the tangent generator, the vertex-cache optimiser, and the binary writers.

  Conventions of the embedding.
  \<^item> A Python \<^verbatim>\<open>float\<close> is modelled as a \<^typ>\<open>real\<close>: arithmetic is exact, rounding,
    infinities and NaN are outside the model. Comparisons against the source's thresholds
    (\<^verbatim>\<open>1e-8\<close>, \<^verbatim>\<open>0.0001\<close>) are comparisons of reals.
  \<^item> A Python \<^verbatim>\<open>str\<close> is a \<^typ>\<open>string\<close>; \<^verbatim>\<open>None\<close> is \<^term>\<open>None\<close>; a dataclass is a record.
  \<^item> An exception is a value: a function that can raise returns \<open>exn + 'a\<close>.
  \<^item> Mutation of an object of the host application is explicit state passing.
\<close>

section \<open>Exceptions as values\<close>

text \<open>
  The exception classes the modelled code can raise, each with its message, the
  sequencing of two computations that can raise, and Python's list indexing \<open>py_get\<close>: a
  negative index counts from the end, an index out of range raises \<^verbatim>\<open>IndexError\<close>.
  \<open>py_position n i\<close> is the position that the index \<open>i\<close> names in a list of length \<open>n\<close>.
\<close>

datatype exn =
    AttributeError string
  | TypeError string
  | IndexError string
  | StructError string
  | OverflowError string
  | RuntimeError string

definition bind_exn :: "exn + 'a \<Rightarrow> ('a \<Rightarrow> exn + 'b) \<Rightarrow> exn + 'b" where
  "bind_exn m f = (case m of Inl e \<Rightarrow> Inl e | Inr x \<Rightarrow> f x)"

definition py_get :: "'a list \<Rightarrow> int \<Rightarrow> exn + 'a" where
  "py_get xs i =
     (if 0 \<le> i \<and> i < int (length xs) then Inr (xs ! nat i)
      else if i < 0 \<and> - int (length xs) \<le> i then Inr (xs ! nat (int (length xs) + i))
      else Inl (IndexError ''list index out of range''))"

definition py_position :: "nat \<Rightarrow> int \<Rightarrow> nat" where
  "py_position n i = nat (if i < 0 then int n + i else i)"

text \<open>
  Message texts are those of CPython. \<open>quoted s\<close> is \<open>s\<close> between single quotes, as the
  messages and the f-strings of the source have it. \<open>none_not_subscriptable\<close> is raised by
  \<^verbatim>\<open>x[i]\<close> and \<open>none_has_no_attribute a\<close> by \<^verbatim>\<open>x.a\<close> when \<^verbatim>\<open>x\<close> is \<^verbatim>\<open>None\<close>. The message of
  \<open>py_get\<close> is the one of a list; a tuple and a collection of the host word it differently.
\<close>

definition quoted :: "string \<Rightarrow> string" where
  "quoted s = [CHR 0x27] @ s @ [CHR 0x27]"

definition none_not_subscriptable :: exn where
  "none_not_subscriptable = TypeError (quoted ''NoneType'' @ '' object is not subscriptable'')"

definition none_has_no_attribute :: "string \<Rightarrow> exn" where
  "none_has_no_attribute a =
     AttributeError (quoted ''NoneType'' @ '' object has no attribute '' @ quoted a)"

section \<open>The export logger (core/logging.py)\<close>

text \<open>
  \<^verbatim>\<open>ExportLogger\<close> keeps at most \<^verbatim>\<open>max_messages\<close> pairs of level and message; the copy it sends to
  Python's \<^verbatim>\<open>logging\<close> module is not modelled. \<open>show_nat\<close> is the decimal text an f-string puts
  for a number that is not negative.
\<close>

record ExportLogger =
  max_messages :: nat
  messages :: "(string \<times> string) list"

definition log_message :: "string \<Rightarrow> string \<Rightarrow> ExportLogger \<Rightarrow> ExportLogger" where
  "log_message level msg logger =
     (if length (messages logger) < max_messages logger
      then logger\<lparr> messages := messages logger @ [(level, msg)] \<rparr> else logger)"

definition log_info :: "string \<Rightarrow> ExportLogger \<Rightarrow> ExportLogger" where
  "log_info msg logger = log_message ''INFO'' msg logger"

definition log_warning :: "string \<Rightarrow> ExportLogger \<Rightarrow> ExportLogger" where
  "log_warning msg logger = log_message ''WARNING'' msg logger"

definition log_error :: "string \<Rightarrow> ExportLogger \<Rightarrow> ExportLogger" where
  "log_error msg logger = log_message ''ERROR'' msg logger"

definition digit_char :: "nat \<Rightarrow> char" where
  "digit_char d = char_of (48 + d)"

fun show_nat :: "nat \<Rightarrow> string" where
  "show_nat n = (if n < 10 then [digit_char n] else show_nat (n div 10) @ [digit_char (n mod 10)])"

declare show_nat.simps [simp del]

definition exn_message :: "exn \<Rightarrow> string" where
  "exn_message e =
     (case e of AttributeError m \<Rightarrow> m | TypeError m \<Rightarrow> m | IndexError m \<Rightarrow> m
      | StructError m \<Rightarrow> m | OverflowError m \<Rightarrow> m | RuntimeError m \<Rightarrow> m)"

section \<open>Object-name suffixes (core/name\_parser.py)\<close>

text \<open>
  \<^verbatim>\<open>KNOWN_SUFFIXES\<close>, \<^verbatim>\<open>ParsedName\<close> and \<^verbatim>\<open>parse_object_name\<close>. \<open>split_on\<close> is
  \<^verbatim>\<open>str.split(sep)\<close> for a one-character separator (it never returns the empty list),
  \<open>join_with\<close> is \<^verbatim>\<open>sep.join(parts)\<close>, and \<open>lower\<close> is \<^verbatim>\<open>str.lower()\<close> on ASCII letters.
  The recognised suffixes are ASCII and contain no letter that a non-ASCII character
  lowers to, so on membership in \<open>KNOWN_SUFFIXES\<close> the ASCII lowering agrees with Python's.
  \<open>scan_suffixes parts i\<close> is the loop \<^verbatim>\<open>for i in range(len(parts) - 1, 0, -1)\<close> from index
  \<open>i\<close> downwards: it stops before index 0 and at the first segment that is not recognised.
\<close>

definition KNOWN_SUFFIXES :: "string set" where
  "KNOWN_SUFFIXES = {''nocol'', ''2side'', ''noshadow'', ''alpha'',
     ''occluder'', ''lod1'', ''lod2'', ''navmesh'', ''trigger'', ''billboard''}"

record ParsedName =
  clean_name :: string
  original_name :: string
  nocol :: bool
  two_side :: bool
  noshadow :: bool
  alpha :: bool
  occluder :: bool
  lod_level :: int
  navmesh :: bool
  trigger :: bool
  billboard :: bool

fun split_on :: "char \<Rightarrow> string \<Rightarrow> string list" where
  "split_on sep [] = [[]]"
| "split_on sep (c # cs) =
     (if c = sep then [] # split_on sep cs
      else (case split_on sep cs of
              [] \<Rightarrow> [[c]]
            | p # ps \<Rightarrow> (c # p) # ps))"

fun join_with :: "char \<Rightarrow> string list \<Rightarrow> string" where
  "join_with sep [] = []"
| "join_with sep [p] = p"
| "join_with sep (p # q # ps) = p @ sep # join_with sep (q # ps)"

definition lower_char :: "char \<Rightarrow> char" where
  "lower_char c =
     (let n = (of_char c :: nat) in if 65 \<le> n \<and> n \<le> 90 then char_of (n + 32) else c)"

definition lower :: "string \<Rightarrow> string" where
  "lower s = map lower_char s"

fun scan_suffixes :: "string list \<Rightarrow> nat \<Rightarrow> string set \<times> nat \<Rightarrow> string set \<times> nat" where
  "scan_suffixes parts 0 (found, suffix_count) = (found, suffix_count)"
| "scan_suffixes parts (Suc i) (found, suffix_count) =
     (if lower (parts ! Suc i) \<in> KNOWN_SUFFIXES
      then scan_suffixes parts i (insert (lower (parts ! Suc i)) found, suffix_count + 1)
      else (found, suffix_count))"

definition parse_object_name :: "string \<Rightarrow> ParsedName" where
  "parse_object_name name =
     (let parts = split_on (CHR ''_'') name;
          (found, suffix_count) = scan_suffixes parts (length parts - 1) ({}, 0);
          clean = (if suffix_count \<noteq> 0
                   then join_with (CHR ''_'') (take (length parts - suffix_count) parts)
                   else name);
          lod = (if ''lod1'' \<in> found then 1 else if ''lod2'' \<in> found then 2 else 0)
      in \<lparr> clean_name = clean, original_name = name,
           nocol = (''nocol'' \<in> found), two_side = (''2side'' \<in> found),
           noshadow = (''noshadow'' \<in> found), alpha = (''alpha'' \<in> found),
           occluder = (''occluder'' \<in> found), lod_level = lod,
           navmesh = (''navmesh'' \<in> found), trigger = (''trigger'' \<in> found),
           billboard = (''billboard'' \<in> found) \<rparr>)"


subsection \<open>Properties of the parser\<close>

lemma split_on_nonempty: "split_on sep s \<noteq> []"
  by (induction s) (auto split: list.splits)

lemma length_split_on: "1 \<le> length (split_on sep s)"
  using split_on_nonempty [of sep s] by (cases "split_on sep s") auto

lemma join_with_Cons: "ps \<noteq> [] \<Longrightarrow> join_with sep (p # ps) = p @ sep # join_with sep ps"
  by (cases ps) auto

lemma join_with_Cons_hd:
  "join_with sep ((c # p) # ps) = c # join_with sep (p # ps)"
  by (cases ps) auto

lemma join_split_on: "join_with sep (split_on sep s) = s"
proof (induction s)
  case Nil
  show ?case by simp
next
  case (Cons c cs)
  show ?case
  proof (cases "c = sep")
    case True
    with Cons show ?thesis
      by (simp add: join_with_Cons split_on_nonempty)
  next
    case False
    obtain p ps where sp: "split_on sep cs = p # ps"
      using split_on_nonempty [of sep cs] by (cases "split_on sep cs") auto
    with Cons False show ?thesis
      by (simp add: join_with_Cons_hd)
  qed
qed

lemma scan_suffixes_count:
  "scan_suffixes parts i (found, n) = (found', n') \<Longrightarrow>
     n \<le> n' \<and> n' - n \<le> i \<and>
     (\<forall>j. i - (n' - n) < j \<and> j \<le> i \<longrightarrow> lower (parts ! j) \<in> KNOWN_SUFFIXES) \<and>
     (0 < i - (n' - n) \<longrightarrow> lower (parts ! (i - (n' - n))) \<notin> KNOWN_SUFFIXES)"
proof (induction i arbitrary: found n)
  case 0
  then show ?case by simp
next
  case (Suc i)
  show ?case
  proof (cases "lower (parts ! Suc i) \<in> KNOWN_SUFFIXES")
    case False
    with Suc.prems show ?thesis by auto
  next
    case True
    with Suc.prems
    have rec: "scan_suffixes parts i (insert (lower (parts ! Suc i)) found, n + 1) = (found', n')"
      by simp
    note ih = Suc.IH [OF rec]
    from ih have le: "n + 1 \<le> n'" and bound: "n' - (n + 1) \<le> i" by simp_all
    have eq: "Suc i - (n' - n) = i - (n' - (n + 1))" using le by simp
    have known: "\<forall>j. Suc i - (n' - n) < j \<and> j \<le> Suc i \<longrightarrow> lower (parts ! j) \<in> KNOWN_SUFFIXES"
    proof (intro allI impI)
      fix j assume j: "Suc i - (n' - n) < j \<and> j \<le> Suc i"
      show "lower (parts ! j) \<in> KNOWN_SUFFIXES"
      proof (cases "j = Suc i")
        case True
        with \<open>lower (parts ! Suc i) \<in> KNOWN_SUFFIXES\<close> show ?thesis by simp
      next
        case False
        with j eq have "i - (n' - (n + 1)) < j \<and> j \<le> i" by simp
        with ih show ?thesis by blast
      qed
    qed
    from ih eq have stop: "0 < Suc i - (n' - n) \<longrightarrow> lower (parts ! (Suc i - (n' - n))) \<notin> KNOWN_SUFFIXES"
      by simp
    from le bound known stop show ?thesis by simp
  qed
qed

text \<open>
  Claim C10. \<open>parse_object_name\<close> is total, and its clean name is the \<^verbatim>\<open>'_'\<close>-join of the
  first \<open>k\<close> segments of the input for some \<open>k \<ge> 1\<close>: every dropped segment is a recognised
  suffix, and the scan stopped either at segment 0 or at a segment that is not recognised
  (segment \<open>k - 1\<close> when \<open>k > 1\<close>). Consequently a name made only of recognised suffix tokens
  keeps its first segment as the clean name.
\<close>

theorem parse_object_name_keeps_first_segment:
  "\<exists>k. 1 \<le> k \<and> k \<le> length (split_on (CHR ''_'') name) \<and>
       clean_name (parse_object_name name) = join_with (CHR ''_'') (take k (split_on (CHR ''_'') name)) \<and>
       (\<forall>p \<in> set (drop k (split_on (CHR ''_'') name)). lower p \<in> KNOWN_SUFFIXES) \<and>
       (1 < k \<longrightarrow> lower (split_on (CHR ''_'') name ! (k - 1)) \<notin> KNOWN_SUFFIXES) \<and>
       ((\<forall>p \<in> set (split_on (CHR ''_'') name). lower p \<in> KNOWN_SUFFIXES) \<longrightarrow>
          clean_name (parse_object_name name) = hd (split_on (CHR ''_'') name))"
proof -
  define parts where "parts = split_on (CHR ''_'') name"
  obtain found cnt where sc: "scan_suffixes parts (length parts - 1) ({}, 0) = (found, cnt)"
    by (cases "scan_suffixes parts (length parts - 1) ({}, 0)") auto
  define k where "k = length parts - cnt"
  have len: "1 \<le> length parts" unfolding parts_def by (rule length_split_on)
  from scan_suffixes_count [OF sc]
  have cnt: "cnt \<le> length parts - 1"
    and known: "\<forall>j. length parts - 1 - cnt < j \<and> j \<le> length parts - 1 \<longrightarrow> lower (parts ! j) \<in> KNOWN_SUFFIXES"
    and stop: "0 < length parts - 1 - cnt \<longrightarrow> lower (parts ! (length parts - 1 - cnt)) \<notin> KNOWN_SUFFIXES"
    by simp_all
  have k1: "1 \<le> k" and k2: "k \<le> length parts" using cnt len by (simp_all add: k_def)
  have clean: "clean_name (parse_object_name name) = join_with (CHR ''_'') (take k parts)"
  proof (cases "cnt = 0")
    case True
    then have "take k parts = parts" by (simp add: k_def)
    moreover have "clean_name (parse_object_name name) = name"
      using sc True by (simp add: parse_object_name_def parts_def [symmetric])
    ultimately show ?thesis by (simp add: parts_def join_split_on)
  next
    case False
    then show ?thesis
      using sc by (simp add: parse_object_name_def parts_def [symmetric] k_def)
  qed
  have dropped: "\<forall>p \<in> set (drop k parts). lower p \<in> KNOWN_SUFFIXES"
  proof
    fix p assume "p \<in> set (drop k parts)"
    then obtain j where j: "j < length parts - k" and p: "p = parts ! (k + j)"
      by (auto simp: in_set_conv_nth)
    have "length parts - 1 - cnt < k + j \<and> k + j \<le> length parts - 1"
      using j cnt len unfolding k_def by arith
    with known p show "lower p \<in> KNOWN_SUFFIXES" by blast
  qed
  have unknown: "1 < k \<longrightarrow> lower (parts ! (k - 1)) \<notin> KNOWN_SUFFIXES"
  proof
    assume "1 < k"
    then have "0 < length parts - 1 - cnt" by (simp add: k_def)
    moreover have "length parts - 1 - cnt = k - 1" by (simp add: k_def)
    ultimately show "lower (parts ! (k - 1)) \<notin> KNOWN_SUFFIXES" using stop by simp
  qed
  have allknown: "(\<forall>p \<in> set parts. lower p \<in> KNOWN_SUFFIXES) \<longrightarrow>
          clean_name (parse_object_name name) = hd parts"
  proof
    assume all: "\<forall>p \<in> set parts. lower p \<in> KNOWN_SUFFIXES"
    have "k = 1"
    proof (rule ccontr)
      assume "k \<noteq> 1"
      with k1 have "1 < k" by simp
      with unknown have "lower (parts ! (k - 1)) \<notin> KNOWN_SUFFIXES" by simp
      moreover have "parts ! (k - 1) \<in> set parts" using k2 \<open>1 < k\<close> by simp
      ultimately show False using all by blast
    qed
    moreover obtain p ps where "parts = p # ps" using len by (cases parts) auto
    ultimately show "clean_name (parse_object_name name) = hd parts"
      using clean by simp
  qed
  from k1 k2 clean dropped unknown allknown show ?thesis
    unfolding parts_def by blast
qed

theorem parse_object_name_keeps_first_segment_witness:
  "split_on (CHR ''_'') ''nocol_alpha'' = [''nocol'', ''alpha''] \<and>
   lower ''nocol'' \<in> KNOWN_SUFFIXES \<and> lower ''alpha'' \<in> KNOWN_SUFFIXES \<and>
   clean_name (parse_object_name ''nocol_alpha'') = ''nocol''"
proof -
  have parts: "split_on (CHR ''_'') ''nocol_alpha'' = [''nocol'', ''alpha'']"
    by simp
  have known: "lower ''nocol'' \<in> KNOWN_SUFFIXES" "lower ''alpha'' \<in> KNOWN_SUFFIXES"
    by (simp_all add: lower_def lower_char_def KNOWN_SUFFIXES_def)
  have all: "\<forall>p \<in> set (split_on (CHR ''_'') ''nocol_alpha''). lower p \<in> KNOWN_SUFFIXES"
    unfolding parts using known by simp
  from parse_object_name_keeps_first_segment [of "''nocol_alpha''"] all
  have "clean_name (parse_object_name ''nocol_alpha'') = hd (split_on (CHR ''_'') ''nocol_alpha'')"
    by blast
  with parts known show ?thesis by simp
qed

section \<open>The intermediate data model (data/intermediate.py)\<close>

text \<open>
  The dataclasses the pipeline passes between its stages. A Python tuple of fixed size is a
  product, a tuple of variable size (\<^verbatim>\<open>Tuple[float, ...]\<close>) is a list, and an index into a list
  is an \<^typ>\<open>int\<close>, as in Python. \<open>hash_key\<close> is \<^verbatim>\<open>IntermediateVertex.hash_key\<close>: equality of
  two keys stands for Python's equality of the two key tuples.
\<close>

record IntermediateVertex =
  position :: "real \<times> real \<times> real"
  normal :: "(real \<times> real \<times> real) option"
  uv :: "(real \<times> real) option"
  uv2 :: "(real \<times> real) option"
  tangent :: "(real \<times> real \<times> real \<times> real) option"
  color :: "(int \<times> int \<times> int \<times> int) option"
  bone_weights :: "real list option"
  bone_indices :: "int list option"
  blender_index :: "int option"

type_synonym vertex_key =
  "(real \<times> real \<times> real) \<times> (real \<times> real \<times> real) option \<times> (real \<times> real) option
     \<times> (real \<times> real) option \<times> (int \<times> int \<times> int \<times> int) option"

definition hash_key :: "IntermediateVertex \<Rightarrow> vertex_key" where
  "hash_key self = (position self, normal self, uv self, uv2 self, color self)"

type_synonym triangle = "int \<times> int \<times> int"

record IntermediateLodLevel =
  distance :: real
  triangles :: "triangle list"

record IntermediateGeometry =
  material_name :: string
  material_index :: int
  lod_levels :: "IntermediateLodLevel list"

record IntermediateMorphVertex =
  vertex_index :: int
  position_delta :: "real \<times> real \<times> real"
  normal_delta :: "(real \<times> real \<times> real) option"
  tangent_delta :: "(real \<times> real \<times> real) option"

record IntermediateMorph =
  morph_name :: string
  morph_vertices :: "IntermediateMorphVertex list"

record IntermediateBone =
  bone_name :: string
  index :: int
  parent_index :: int
  bind_position :: "real \<times> real \<times> real"
  bind_rotation :: "real \<times> real \<times> real \<times> real"
  bind_scale :: "real \<times> real \<times> real"
  inverse_bind_matrix :: "real list list option"
  collision_mask :: int
  bounding_sphere_radius :: real
  bounding_box_min :: "(real \<times> real \<times> real) option"
  bounding_box_max :: "(real \<times> real \<times> real) option"

record IntermediateTrackKeyframe =
  time :: real
  kf_position :: "(real \<times> real \<times> real) option"
  kf_rotation :: "(real \<times> real \<times> real \<times> real) option"
  kf_scale :: "(real \<times> real \<times> real) option"

record IntermediateTrack =
  track_name :: string
  keyframes :: "IntermediateTrackKeyframe list"

record IntermediateAnimation =
  anim_name :: string
  duration :: real
  tracks :: "IntermediateTrack list"

record IntermediateModel =
  model_name :: string
  vertices :: "IntermediateVertex list"
  geometries :: "IntermediateGeometry list"
  morphs :: "IntermediateMorph list"
  bones :: "IntermediateBone list"
  animations :: "IntermediateAnimation list"
  bbox_min :: "real \<times> real \<times> real"
  bbox_max :: "real \<times> real \<times> real"

text \<open>
  The field \<^verbatim>\<open>name\<close> of a morph, a bone, a track, an animation and a model is written
  \<open>morph_name\<close>, \<open>bone_name\<close>, \<open>track_name\<close>, \<open>anim_name\<close> and \<open>model_name\<close>; the fields
  \<^verbatim>\<open>vertices\<close> of a morph and \<^verbatim>\<open>position\<close>, \<^verbatim>\<open>rotation\<close>, \<^verbatim>\<open>scale\<close> of a keyframe are
  \<open>morph_vertices\<close>, \<open>kf_position\<close>, \<open>kf_rotation\<close>, \<open>kf_scale\<close>. The material list of a model
  is not read by any function modelled here and is left out.
\<close>

section \<open>Mesh decomposition (mesh/decompose.py)\<close>

subsection \<open>The triangle loop of \<open>decompose_mesh\<close>\<close>

text \<open>
  The loop \<^verbatim>\<open>for tri in mesh.loop_triangles\<close> of \<^verbatim>\<open>decompose_mesh\<close>. A \<open>LoopTriangle\<close> is what
  the loop reads of one triangle of the host mesh: its material index and, for each of its
  three loops in order, the candidate vertex \<^verbatim>\<open>iv\<close> the loop body builds for that corner
  (position, normal, UVs and colour after the axis conversion, the bone weights looked up
  for the corner's mesh vertex, and that vertex's index). The state of the loop is
  \<^verbatim>\<open>model.vertices\<close>, the dictionary \<^verbatim>\<open>vertex_map\<close> and the dictionary \<^verbatim>\<open>geom_triangles\<close>.

  \<open>deduplicate\<close> is the block under the comment \<^verbatim>\<open># Deduplicate\<close>; \<open>tri_indices\<close> is the
  inner loop \<^verbatim>\<open>for i in range(3)\<close>, which returns the three indices in corner order;
  \<open>add_triangle\<close> is one iteration of the outer loop, which stores \<^verbatim>\<open>(a, c, b)\<close>; the
  list \<open>idxs\<close> it unpacks has three entries, and the key \<open>mat_idx\<close> it appends under is present
  (it was set at the top of the iteration).
\<close>

record LoopTriangle =
  tri_material_index :: int
  corners :: "IntermediateVertex \<times> IntermediateVertex \<times> IntermediateVertex"

record decompose_state =
  model_vertices :: "IntermediateVertex list"
  vertex_map :: "vertex_key \<rightharpoonup> nat"
  geom_triangles :: "int \<rightharpoonup> triangle list"

definition initial_state :: decompose_state where
  "initial_state = \<lparr> model_vertices = [], vertex_map = Map.empty, geom_triangles = Map.empty \<rparr>"

definition deduplicate :: "decompose_state \<Rightarrow> IntermediateVertex \<Rightarrow> decompose_state \<times> nat" where
  "deduplicate st iv =
     (let key = hash_key iv in
      case vertex_map st key of
        Some idx \<Rightarrow> (st, idx)
      | None \<Rightarrow>
          (let idx = length (model_vertices st) in
           (st\<lparr> vertex_map := (vertex_map st)(key \<mapsto> idx),
                model_vertices := model_vertices st @ [iv] \<rparr>, idx)))"

definition tri_indices :: "decompose_state \<Rightarrow> LoopTriangle \<Rightarrow> decompose_state \<times> nat list" where
  "tri_indices st tri =
     (case corners tri of (iv0, iv1, iv2) \<Rightarrow>
        (let (st1, i0) = deduplicate st iv0;
             (st2, i1) = deduplicate st1 iv1;
             (st3, i2) = deduplicate st2 iv2
         in (st3, [i0, i1, i2])))"

definition add_triangle :: "decompose_state \<Rightarrow> LoopTriangle \<Rightarrow> decompose_state" where
  "add_triangle st tri =
     (let mat_idx = tri_material_index tri;
          st0 = (if mat_idx \<notin> dom (geom_triangles st)
                 then st\<lparr> geom_triangles := (geom_triangles st)(mat_idx \<mapsto> []) \<rparr> else st);
          (st3, idxs) = tri_indices st0 tri;
          a = idxs ! 0; b = idxs ! 1; c = idxs ! 2;
          ts = (case geom_triangles st3 mat_idx of Some ts \<Rightarrow> ts | None \<Rightarrow> [])
      in st3\<lparr> geom_triangles := (geom_triangles st3)(mat_idx \<mapsto> ts @ [(int a, int c, int b)]) \<rparr>)"

fun decompose_loop :: "decompose_state \<Rightarrow> LoopTriangle list \<Rightarrow> decompose_state" where
  "decompose_loop st [] = st"
| "decompose_loop st (tri # rest) = decompose_loop (add_triangle st tri) rest"

text \<open>
  The geometries built after the loop, one per material index in ascending order, each
  with a single LOD level at distance 0. \<open>mat_slots\<close> gives, per material slot, the name of
  its material if it has one. The source tests only \<^verbatim>\<open>mat_idx < len(mat_slots)\<close> before it
  reads \<^verbatim>\<open>mat_slots[mat_idx]\<close>, so a negative index counts from the end or raises.
\<close>

definition slot_material_name :: "string option list \<Rightarrow> int \<Rightarrow> exn + string" where
  "slot_material_name mat_slots mat_idx =
     (if mat_idx < int (length mat_slots)
      then bind_exn (py_get mat_slots mat_idx) (\<lambda>slot.
             Inr (case slot of Some n \<Rightarrow> n | None \<Rightarrow> ''''))
      else Inr '''')"

fun geometries_loop ::
  "string option list \<Rightarrow> (int \<rightharpoonup> triangle list) \<Rightarrow> int list \<Rightarrow> exn + IntermediateGeometry list" where
  "geometries_loop mat_slots gt [] = Inr []"
| "geometries_loop mat_slots gt (mat_idx # rest) =
     bind_exn (slot_material_name mat_slots mat_idx) (\<lambda>mat_name.
     bind_exn (geometries_loop mat_slots gt rest) (\<lambda>more.
       Inr (\<lparr> material_name = mat_name,
              material_index = mat_idx,
              lod_levels = [\<lparr> distance = 0,
                              triangles = (case gt mat_idx of Some ts \<Rightarrow> ts | None \<Rightarrow> []) \<rparr>] \<rparr>
            # more)))"

definition build_geometries ::
  "string option list \<Rightarrow> (int \<rightharpoonup> triangle list) \<Rightarrow> exn + IntermediateGeometry list" where
  "build_geometries mat_slots gt = geometries_loop mat_slots gt (sorted_list_of_set (dom gt))"

text \<open>
  Notions for stating what the loop does. \<open>corner_list tri\<close> are the three candidate vertices
  of a triangle in corner order, \<open>all_corners\<close> those of a list of triangles in loop order.
  \<open>assigned_index tris n p\<close> is the entry \<open>p\<close> of the list \<^verbatim>\<open>tri_indices\<close> that the loop computes
  for triangle number \<open>n\<close>: the index corner \<open>p\<close> of that triangle is mapped to.
\<close>

definition corner_list :: "LoopTriangle \<Rightarrow> IntermediateVertex list" where
  "corner_list tri = (case corners tri of (iv0, iv1, iv2) \<Rightarrow> [iv0, iv1, iv2])"

definition all_corners :: "LoopTriangle list \<Rightarrow> IntermediateVertex list" where
  "all_corners tris = concat (map corner_list tris)"

definition assigned_index :: "LoopTriangle list \<Rightarrow> nat \<Rightarrow> nat \<Rightarrow> nat" where
  "assigned_index tris n p =
     snd (tri_indices (decompose_loop initial_state (take n tris)) (tris ! n)) ! p"

text \<open>
  A sample input: two triangles with different materials that share an edge. The second
  corner of the second triangle, \<open>sample_v3\<close>, has the key of \<open>sample_v0\<close> but comes from another
  mesh vertex and carries bone weights.
\<close>

definition sample_v0 :: IntermediateVertex where
  "sample_v0 = \<lparr> position = (0, 0, 0), normal = None, uv = None, uv2 = None, tangent = None,
     color = None, bone_weights = None, bone_indices = None, blender_index = Some 0 \<rparr>"

definition sample_v1 :: IntermediateVertex where
  "sample_v1 = sample_v0\<lparr> position := (1, 0, 0), blender_index := Some 1 \<rparr>"

definition sample_v2 :: IntermediateVertex where
  "sample_v2 = sample_v0\<lparr> position := (0, 1, 0), blender_index := Some 2 \<rparr>"

definition sample_v3 :: IntermediateVertex where
  "sample_v3 = sample_v0\<lparr> blender_index := Some 3, bone_weights := Some [1, 0, 0, 0],
     bone_indices := Some [0, 0, 0, 0] \<rparr>"

definition sample_tris :: "LoopTriangle list" where
  "sample_tris = [\<lparr> tri_material_index = 0, corners = (sample_v0, sample_v1, sample_v2) \<rparr>,
                  \<lparr> tri_material_index = 1, corners = (sample_v2, sample_v3, sample_v1) \<rparr>]"

text \<open>
  The invariant of the loop, after the corners \<open>cs\<close> have been processed: the keys of
  \<^verbatim>\<open>model.vertices\<close> are distinct, \<^verbatim>\<open>vertex_map\<close> maps exactly the key of each vertex to its
  index, each vertex is the first corner processed with its key, and every processed
  corner has its key in \<^verbatim>\<open>vertex_map\<close>.
\<close>

definition dedup_inv :: "decompose_state \<Rightarrow> IntermediateVertex list \<Rightarrow> bool" where
  "dedup_inv st cs \<longleftrightarrow>
     distinct (map hash_key (model_vertices st)) \<and>
     (\<forall>k i. vertex_map st k = Some i \<longleftrightarrow>
        i < length (model_vertices st) \<and> hash_key (model_vertices st ! i) = k) \<and>
     (\<forall>i < length (model_vertices st).
        find (\<lambda>c. hash_key c = hash_key (model_vertices st ! i)) cs = Some (model_vertices st ! i)) \<and>
     (\<forall>c \<in> set cs. vertex_map st (hash_key c) \<noteq> None)"

subsection \<open>Properties of the triangle loop\<close>

lemma dedup_inv_initial: "dedup_inv initial_state []"
  by (simp add: dedup_inv_def initial_state_def)

lemma find_append:
  "find P (xs @ ys) = (case find P xs of Some x \<Rightarrow> Some x | None \<Rightarrow> find P ys)"
  by (induction xs) auto

lemma deduplicate_hit:
  assumes "vertex_map st (hash_key iv) = Some i"
  shows "deduplicate st iv = (st, i)"
  using assms by (simp add: deduplicate_def)

lemma deduplicate_miss:
  assumes "vertex_map st (hash_key iv) = None"
  shows "deduplicate st iv =
           (st\<lparr> vertex_map := (vertex_map st)(hash_key iv \<mapsto> length (model_vertices st)),
                model_vertices := model_vertices st @ [iv] \<rparr>, length (model_vertices st))"
  using assms by (simp add: deduplicate_def Let_def)

lemma deduplicate_inv:
  assumes inv: "dedup_inv st cs" and d: "deduplicate st iv = (st', i)"
  shows "dedup_inv st' (cs @ [iv]) \<and> i < length (model_vertices st') \<and>
        hash_key (model_vertices st' ! i) = hash_key iv \<and>
        (\<exists>ext. model_vertices st' = model_vertices st @ ext) \<and>
        geom_triangles st' = geom_triangles st"
proof -
  let ?vs = "model_vertices st"
  from inv have dist: "distinct (map hash_key ?vs)"
    and vm: "\<And>k j. vertex_map st k = Some j \<longleftrightarrow> j < length ?vs \<and> hash_key (?vs ! j) = k"
    and first: "\<And>j. j < length ?vs \<Longrightarrow> find (\<lambda>c. hash_key c = hash_key (?vs ! j)) cs = Some (?vs ! j)"
    and seen: "\<And>c. c \<in> set cs \<Longrightarrow> vertex_map st (hash_key c) \<noteq> None"
    by (auto simp: dedup_inv_def)
  show ?thesis
  proof (cases "vertex_map st (hash_key iv)")
    case (Some j)
    with d have st': "st' = st" and i: "i = j" by (simp_all add: deduplicate_hit)
    from Some vm have j: "j < length ?vs" "hash_key (?vs ! j) = hash_key iv" by auto
    have "dedup_inv st (cs @ [iv])"
      unfolding dedup_inv_def
    proof (intro conjI allI impI ballI)
      show "distinct (map hash_key ?vs)" by (rule dist)
    next
      fix k m show "vertex_map st k = Some m \<longleftrightarrow> m < length ?vs \<and> hash_key (?vs ! m) = k"
        by (rule vm)
    next
      fix m assume "m < length ?vs"
      then show "find (\<lambda>c. hash_key c = hash_key (?vs ! m)) (cs @ [iv]) = Some (?vs ! m)"
        by (simp add: find_append first)
    next
      fix c assume "c \<in> set (cs @ [iv])"
      then show "vertex_map st (hash_key c) \<noteq> None"
        using seen Some by auto
    qed
    with st' i j show ?thesis by simp
  next
    case None
    with d have st': "st' = st\<lparr> vertex_map := (vertex_map st)(hash_key iv \<mapsto> length ?vs),
                model_vertices := ?vs @ [iv] \<rparr>" and i: "i = length ?vs"
      by (auto simp: deduplicate_miss)
    have fresh: "hash_key iv \<notin> set (map hash_key ?vs)"
    proof
      assume "hash_key iv \<in> set (map hash_key ?vs)"
      then obtain m where "m < length ?vs" "hash_key (?vs ! m) = hash_key iv"
        by (auto simp: in_set_conv_nth)
      with vm [of "hash_key iv" m] None show False by simp
    qed
    have unseen: "find (\<lambda>c. hash_key c = hash_key iv) cs = None"
    proof (rule ccontr)
      assume "find (\<lambda>c. hash_key c = hash_key iv) cs \<noteq> None"
      then obtain c where "c \<in> set cs" "hash_key c = hash_key iv"
        by (auto simp: find_None_iff)
      with seen [of c] None show False by simp
    qed
    have "dedup_inv st' (cs @ [iv])"
      unfolding dedup_inv_def
    proof (intro conjI allI impI ballI)
      show "distinct (map hash_key (model_vertices st'))"
        using dist fresh by (simp add: st')
    next
      fix k m
      show "vertex_map st' k = Some m \<longleftrightarrow>
              m < length (model_vertices st') \<and> hash_key (model_vertices st' ! m) = k"
      proof (cases "k = hash_key iv")
        case True
        have "\<And>m. m < length ?vs \<Longrightarrow> hash_key (?vs ! m) \<noteq> hash_key iv"
        proof -
          fix m assume "m < length ?vs"
          then have "hash_key (?vs ! m) \<in> set (map hash_key ?vs)" by simp
          with fresh show "hash_key (?vs ! m) \<noteq> hash_key iv" by metis
        qed
        then show ?thesis
          using True by (auto simp: st' nth_append less_Suc_eq)
      next
        case False
        then show ?thesis
          using vm [of k m] by (auto simp: st' nth_append less_Suc_eq)
      qed
    next
      fix m assume m: "m < length (model_vertices st')"
      show "find (\<lambda>c. hash_key c = hash_key (model_vertices st' ! m)) (cs @ [iv])
              = Some (model_vertices st' ! m)"
      proof (cases "m < length ?vs")
        case True
        then show ?thesis by (simp add: st' nth_append find_append first)
      next
        case False
        with m have "m = length ?vs" by (simp add: st')
        then show ?thesis by (simp add: st' find_append unseen)
      qed
    next
      fix c assume "c \<in> set (cs @ [iv])"
      then show "vertex_map st' (hash_key c) \<noteq> None"
        using seen by (auto simp: st')
    qed
    then show ?thesis by (simp add: st' i)
  qed
qed

lemma deduplicate_extends:
  "\<exists>ext. model_vertices (fst (deduplicate st iv)) = model_vertices st @ ext"
  by (simp add: deduplicate_def Let_def split: option.split)

lemma deduplicate_geom_triangles:
  "geom_triangles (fst (deduplicate st iv)) = geom_triangles st"
  by (simp add: deduplicate_def Let_def split: option.split)

lemma deduplicate_ignores_geom:
  "deduplicate (st\<lparr> geom_triangles := g \<rparr>) iv =
     ((fst (deduplicate st iv))\<lparr> geom_triangles := g \<rparr>, snd (deduplicate st iv))"
  by (simp add: deduplicate_def Let_def split: option.split)

lemma dedup_inv_ignores_geom: "dedup_inv (st\<lparr> geom_triangles := g \<rparr>) cs = dedup_inv st cs"
  by (simp add: dedup_inv_def)

lemma tri_indices_ignores_geom:
  "tri_indices (st\<lparr> geom_triangles := g \<rparr>) tri =
     ((fst (tri_indices st tri))\<lparr> geom_triangles := g \<rparr>, snd (tri_indices st tri))"
  by (simp add: tri_indices_def deduplicate_ignores_geom Let_def split: prod.split)

lemma tri_indices_inv:
  assumes inv: "dedup_inv st cs" and t: "tri_indices st tri = (st', idxs)"
  shows "dedup_inv st' (cs @ corner_list tri) \<and> length idxs = 3 \<and>
         (\<forall>p<3. idxs ! p < length (model_vertices st') \<and>
                 hash_key (model_vertices st' ! (idxs ! p)) = hash_key (corner_list tri ! p)) \<and>
         (\<exists>ext. model_vertices st' = model_vertices st @ ext) \<and>
         geom_triangles st' = geom_triangles st"
proof -
  obtain iv0 iv1 iv2 where c: "corners tri = (iv0, iv1, iv2)" by (cases "corners tri") auto
  obtain st1 i0 where d0: "deduplicate st iv0 = (st1, i0)" by (cases "deduplicate st iv0") auto
  obtain st2 i1 where d1: "deduplicate st1 iv1 = (st2, i1)" by (cases "deduplicate st1 iv1") auto
  obtain st3 i2 where d2: "deduplicate st2 iv2 = (st3, i2)" by (cases "deduplicate st2 iv2") auto
  from t c d0 d1 d2 have st': "st' = st3" and idxs: "idxs = [i0, i1, i2]"
    by (simp_all add: tri_indices_def)
  note r0 = deduplicate_inv [OF inv d0]
  from r0 have inv1: "dedup_inv st1 (cs @ [iv0])" by simp
  note r1 = deduplicate_inv [OF inv1 d1]
  from r1 have inv2: "dedup_inv st2 ((cs @ [iv0]) @ [iv1])" by simp
  note r2 = deduplicate_inv [OF inv2 d2]
  from r0 obtain e1 where e1: "model_vertices st1 = model_vertices st @ e1" by blast
  from r1 obtain e2 where e2: "model_vertices st2 = model_vertices st1 @ e2" by blast
  from r2 obtain e3 where e3: "model_vertices st3 = model_vertices st2 @ e3" by blast
  have k0: "i0 < length (model_vertices st3) \<and> hash_key (model_vertices st3 ! i0) = hash_key iv0"
    using r0 e2 e3 by (simp add: nth_append)
  have k1: "i1 < length (model_vertices st3) \<and> hash_key (model_vertices st3 ! i1) = hash_key iv1"
    using r1 e3 by (simp add: nth_append)
  have k2: "i2 < length (model_vertices st3) \<and> hash_key (model_vertices st3 ! i2) = hash_key iv2"
    using r2 by simp
  have all: "\<forall>p<3. [i0, i1, i2] ! p < length (model_vertices st3) \<and>
                 hash_key (model_vertices st3 ! ([i0, i1, i2] ! p)) = hash_key ([iv0, iv1, iv2] ! p)"
  proof (intro allI impI)
    fix p :: nat assume "p < 3"
    then have "p = 0 \<or> p = 1 \<or> p = 2" by arith
    with k0 k1 k2 show "[i0, i1, i2] ! p < length (model_vertices st3) \<and>
                 hash_key (model_vertices st3 ! ([i0, i1, i2] ! p)) = hash_key ([iv0, iv1, iv2] ! p)"
      by auto
  qed
  have inv3: "dedup_inv st3 (cs @ corner_list tri)"
    using r2 by (simp add: corner_list_def c)
  have ext: "\<exists>ext. model_vertices st3 = model_vertices st @ ext"
    using e1 e2 e3 by simp
  have geom: "geom_triangles st3 = geom_triangles st"
    using r0 r1 r2 by simp
  from inv3 all ext geom show ?thesis
    by (simp add: st' idxs corner_list_def c)
qed

lemma tri_indices_geom_triangles:
  "geom_triangles (fst (tri_indices st tri)) = geom_triangles st"
proof -
  obtain iv0 iv1 iv2 where c: "corners tri = (iv0, iv1, iv2)" by (cases "corners tri") auto
  obtain st1 i0 where d0: "deduplicate st iv0 = (st1, i0)" by (cases "deduplicate st iv0") auto
  obtain st2 i1 where d1: "deduplicate st1 iv1 = (st2, i1)" by (cases "deduplicate st1 iv1") auto
  obtain st3 i2 where d2: "deduplicate st2 iv2 = (st3, i2)" by (cases "deduplicate st2 iv2") auto
  from deduplicate_geom_triangles [of st iv0] d0 have "geom_triangles st1 = geom_triangles st" by simp
  moreover from deduplicate_geom_triangles [of st1 iv1] d1 have "geom_triangles st2 = geom_triangles st1" by simp
  moreover from deduplicate_geom_triangles [of st2 iv2] d2 have "geom_triangles st3 = geom_triangles st2" by simp
  ultimately show ?thesis
    by (simp add: tri_indices_def c d0 d1 d2)
qed

lemma add_triangle_unfold:
  "add_triangle st tri =
     (fst (tri_indices st tri))\<lparr> geom_triangles :=
        (geom_triangles st)(tri_material_index tri \<mapsto>
           (case geom_triangles st (tri_material_index tri) of Some ts \<Rightarrow> ts | None \<Rightarrow> [])
           @ [(int (snd (tri_indices st tri) ! 0), int (snd (tri_indices st tri) ! 2),
               int (snd (tri_indices st tri) ! 1))]) \<rparr>"
proof -
  obtain st' idxs where t: "tri_indices st tri = (st', idxs)" by (cases "tri_indices st tri") auto
  have g: "geom_triangles st' = geom_triangles st"
    using tri_indices_geom_triangles [of st tri] by (simp add: t)
  show ?thesis
  proof (cases "geom_triangles st (tri_material_index tri)")
    case None
    then have "tri_material_index tri \<notin> dom (geom_triangles st)" by (simp add: dom_def)
    then show ?thesis
      by (simp add: add_triangle_def Let_def tri_indices_ignores_geom t g None)
  next
    case (Some ts)
    then have "tri_material_index tri \<in> dom (geom_triangles st)" by (simp add: dom_def)
    then show ?thesis
      by (simp add: add_triangle_def Let_def t g Some)
  qed
qed

lemma add_triangle_inv:
  assumes inv: "dedup_inv st cs"
  shows "dedup_inv (add_triangle st tri) (cs @ corner_list tri)"
proof -
  obtain st' idxs where t: "tri_indices st tri = (st', idxs)" by (cases "tri_indices st tri") auto
  from tri_indices_inv [OF inv t] have "dedup_inv st' (cs @ corner_list tri)" by simp
  then show ?thesis
    by (simp add: add_triangle_unfold t dedup_inv_ignores_geom)
qed

lemma add_triangle_vertices:
  "model_vertices (add_triangle st tri) = model_vertices (fst (tri_indices st tri))"
  by (simp add: add_triangle_unfold)

lemma tri_indices_extends:
  "\<exists>ext. model_vertices (fst (tri_indices st tri)) = model_vertices st @ ext"
proof -
  obtain iv0 iv1 iv2 where c: "corners tri = (iv0, iv1, iv2)" by (cases "corners tri") auto
  obtain st1 i0 where d0: "deduplicate st iv0 = (st1, i0)" by (cases "deduplicate st iv0") auto
  obtain st2 i1 where d1: "deduplicate st1 iv1 = (st2, i1)" by (cases "deduplicate st1 iv1") auto
  obtain st3 i2 where d2: "deduplicate st2 iv2 = (st3, i2)" by (cases "deduplicate st2 iv2") auto
  from deduplicate_extends [of st iv0] d0 obtain e1 where "model_vertices st1 = model_vertices st @ e1" by auto
  moreover from deduplicate_extends [of st1 iv1] d1 obtain e2 where "model_vertices st2 = model_vertices st1 @ e2" by auto
  moreover from deduplicate_extends [of st2 iv2] d2 obtain e3 where "model_vertices st3 = model_vertices st2 @ e3" by auto
  ultimately show ?thesis
    by (simp add: tri_indices_def c d0 d1 d2)
qed

lemma decompose_loop_append:
  "decompose_loop st (xs @ ys) = decompose_loop (decompose_loop st xs) ys"
  by (induction xs arbitrary: st) auto

lemma decompose_loop_extends:
  "\<exists>ext. model_vertices (decompose_loop st tris) = model_vertices st @ ext"
proof (induction tris arbitrary: st)
  case Nil
  show ?case by simp
next
  case (Cons t ts)
  from Cons [of "add_triangle st t"] obtain e where
    "model_vertices (decompose_loop (add_triangle st t) ts) = model_vertices (add_triangle st t) @ e"
    by blast
  moreover from tri_indices_extends [of st t] obtain e' where
    "model_vertices (add_triangle st t) = model_vertices st @ e'"
    by (auto simp: add_triangle_vertices)
  ultimately show ?case by simp
qed

lemma all_corners_snoc: "all_corners (tris @ [t]) = all_corners tris @ corner_list t"
  by (simp add: all_corners_def)

lemma decompose_loop_inv: "dedup_inv (decompose_loop initial_state tris) (all_corners tris)"
proof (induction tris rule: rev_induct)
  case Nil
  show ?case by (simp add: all_corners_def dedup_inv_initial)
next
  case (snoc t tris)
  then show ?case
    by (simp add: decompose_loop_append all_corners_snoc add_triangle_inv)
qed

lemma assigned_index_key:
  assumes n: "n < length tris" and p: "p < 3"
  shows "assigned_index tris n p < length (model_vertices (decompose_loop initial_state tris)) \<and>
         hash_key (model_vertices (decompose_loop initial_state tris) ! assigned_index tris n p)
           = hash_key (corner_list (tris ! n) ! p)"
proof -
  define stn where "stn = decompose_loop initial_state (take n tris)"
  obtain st' idxs where t: "tri_indices stn (tris ! n) = (st', idxs)"
    by (cases "tri_indices stn (tris ! n)") auto
  have inv: "dedup_inv stn (all_corners (take n tris))"
    unfolding stn_def by (rule decompose_loop_inv)
  from tri_indices_inv [OF inv t] p
  have valid: "idxs ! p < length (model_vertices st')"
    and key: "hash_key (model_vertices st' ! (idxs ! p)) = hash_key (corner_list (tris ! n) ! p)"
    by simp_all
  have split: "tris = take n tris @ tris ! n # drop (Suc n) tris"
    using n by (simp add: id_take_nth_drop)
  have "decompose_loop initial_state tris =
          decompose_loop (add_triangle stn (tris ! n)) (drop (Suc n) tris)"
    by (subst split) (simp add: decompose_loop_append stn_def)
  with decompose_loop_extends [of "add_triangle stn (tris ! n)" "drop (Suc n) tris"]
  obtain ext where "model_vertices (decompose_loop initial_state tris) = model_vertices st' @ ext"
    by (auto simp: add_triangle_vertices t)
  with valid key show ?thesis
    by (simp add: assigned_index_def stn_def [symmetric] t nth_append)
qed

lemma assigned_index_snoc_old:
  assumes "n < length tris"
  shows "assigned_index (tris @ [t]) n p = assigned_index tris n p"
  using assms by (simp add: assigned_index_def nth_append)

lemma assigned_index_snoc_new:
  "assigned_index (tris @ [t]) (length tris) p =
     snd (tri_indices (decompose_loop initial_state tris) t) ! p"
  by (simp add: assigned_index_def)

lemma stored_triangles:
  "geom_triangles (decompose_loop initial_state tris) m =
     (if m \<in> tri_material_index ` set tris
      then Some (map (\<lambda>n. (int (assigned_index tris n 0), int (assigned_index tris n 2),
                            int (assigned_index tris n 1)))
                  (filter (\<lambda>n. tri_material_index (tris ! n) = m) [0..<length tris]))
      else None)"
proof (induction tris rule: rev_induct)
  case Nil
  show ?case by (simp add: initial_state_def)
next
  case (snoc t tris)
  let ?prev = "decompose_loop initial_state tris"
  let ?stored = "\<lambda>ts n. (int (assigned_index ts n 0), int (assigned_index ts n 2),
                            int (assigned_index ts n (Suc 0)))"
  have old: "map (?stored (tris @ [t])) (filter (\<lambda>n. tri_material_index ((tris @ [t]) ! n) = k) [0..<length tris])
           = map (?stored tris) (filter (\<lambda>n. tri_material_index (tris ! n) = k) [0..<length tris])" for k
  proof -
    have f: "filter (\<lambda>n. tri_material_index ((tris @ [t]) ! n) = k) [0..<length tris]
           = filter (\<lambda>n. tri_material_index (tris ! n) = k) [0..<length tris]"
      by (rule filter_cong) (simp_all add: nth_append)
    show ?thesis
      unfolding f by (rule map_cong) (simp_all add: assigned_index_snoc_old)
  qed
  have new: "?stored (tris @ [t]) (length tris) =
      (int (snd (tri_indices ?prev t) ! 0), int (snd (tri_indices ?prev t) ! 2),
       int (snd (tri_indices ?prev t) ! Suc 0))"
    by (simp add: assigned_index_snoc_new)
  have step: "geom_triangles (decompose_loop initial_state (tris @ [t])) =
      (geom_triangles ?prev)(tri_material_index t \<mapsto>
           (case geom_triangles ?prev (tri_material_index t) of Some ts \<Rightarrow> ts | None \<Rightarrow> [])
           @ [?stored (tris @ [t]) (length tris)])"
    unfolding new by (simp add: decompose_loop_append add_triangle_unfold)
  show ?case
  proof (cases "m = tri_material_index t")
    case True
    show ?thesis
    proof (cases "m \<in> tri_material_index ` set tris")
      case in_old: True
      with snoc True show ?thesis
        unfolding step by (simp add: old)
    next
      case not_old: False
      have none: "filter (\<lambda>n. tri_material_index (tris ! n) = k) [0..<length tris] = []"
        if "k \<notin> tri_material_index ` set tris" for k
      proof -
        have "tri_material_index (tris ! n) \<noteq> k" if "n < length tris" for n
        proof
          assume "tri_material_index (tris ! n) = k"
          moreover have "tris ! n \<in> set tris" using \<open>n < length tris\<close> by simp
          ultimately have "k \<in> tri_material_index ` set tris" by blast
          with \<open>k \<notin> tri_material_index ` set tris\<close> show False by simp
        qed
        then show ?thesis by (simp add: filter_empty_conv)
      qed
      from not_old snoc True show ?thesis
        unfolding step by (simp add: old none)
    qed
  next
    case False
    with snoc show ?thesis
      unfolding step by (simp add: old)
  qed
qed

text \<open>
  Claim C2. Two triangle corners are mapped to the same vertex index exactly when their
  candidate vertices agree on position, normal, uv, uv2 and colour; the vertex stored at
  that index is the first corner, in loop order, with that key (first occurrence wins);
  and bone weights, bone indices and tangent are not part of the key.
\<close>

theorem vertex_dedup_by_key:
  assumes "n < length tris" and "m < length tris" and "p < 3" and "q < 3"
  shows "(assigned_index tris n p = assigned_index tris m q \<longleftrightarrow>
            position (corner_list (tris ! n) ! p) = position (corner_list (tris ! m) ! q) \<and>
            normal (corner_list (tris ! n) ! p) = normal (corner_list (tris ! m) ! q) \<and>
            uv (corner_list (tris ! n) ! p) = uv (corner_list (tris ! m) ! q) \<and>
            uv2 (corner_list (tris ! n) ! p) = uv2 (corner_list (tris ! m) ! q) \<and>
            color (corner_list (tris ! n) ! p) = color (corner_list (tris ! m) ! q)) \<and>
         assigned_index tris n p < length (model_vertices (decompose_loop initial_state tris)) \<and>
         find (\<lambda>c. hash_key c = hash_key (corner_list (tris ! n) ! p)) (all_corners tris)
           = Some (model_vertices (decompose_loop initial_state tris) ! assigned_index tris n p) \<and>
         hash_key (iv\<lparr> tangent := t, bone_weights := w, bone_indices := b \<rparr>) = hash_key iv"
proof -
  let ?vs = "model_vertices (decompose_loop initial_state tris)"
  let ?i = "assigned_index tris n p" and ?j = "assigned_index tris m q"
  let ?c = "corner_list (tris ! n) ! p" and ?d = "corner_list (tris ! m) ! q"
  from assigned_index_key [OF assms(1) assms(3)]
  have i: "?i < length ?vs" and ki: "hash_key (?vs ! ?i) = hash_key ?c" by simp_all
  from assigned_index_key [OF assms(2) assms(4)]
  have j: "?j < length ?vs" and kj: "hash_key (?vs ! ?j) = hash_key ?d" by simp_all
  have inv: "dedup_inv (decompose_loop initial_state tris) (all_corners tris)"
    by (rule decompose_loop_inv)
  then have dist: "distinct (map hash_key ?vs)" by (simp add: dedup_inv_def)
  have "?i = ?j \<longleftrightarrow> map hash_key ?vs ! ?i = map hash_key ?vs ! ?j"
    using nth_eq_iff_index_eq [OF dist, of ?i ?j] i j by simp
  also have "\<dots> \<longleftrightarrow> hash_key ?c = hash_key ?d"
    using i j ki kj by simp
  finally have same: "?i = ?j \<longleftrightarrow> hash_key ?c = hash_key ?d" .
  from inv i have "find (\<lambda>c. hash_key c = hash_key (?vs ! ?i)) (all_corners tris) = Some (?vs ! ?i)"
    by (simp add: dedup_inv_def)
  then have first: "find (\<lambda>c. hash_key c = hash_key ?c) (all_corners tris) = Some (?vs ! ?i)"
    by (simp add: ki)
  have excluded: "hash_key (iv\<lparr> tangent := t, bone_weights := w, bone_indices := b \<rparr>) = hash_key iv"
    by (simp add: hash_key_def)
  from same i first excluded show ?thesis
    by (simp add: hash_key_def)
qed

text \<open>
  Claim C3. The triangle list stored for material index \<open>m\<close> holds, for each input
  triangle with that material index and in input order, the triple \<open>(a, c, b)\<close> where
  \<open>a\<close>, \<open>b\<close>, \<open>c\<close> are the indices its corners 0, 1, 2 were deduplicated to: the second and
  third index are swapped. Each of these indices points at a vertex with the key of its
  corner.
\<close>

theorem winding_swapped_on_store:
  "geom_triangles (decompose_loop initial_state tris) m =
     (if m \<in> tri_material_index ` set tris
      then Some (map (\<lambda>n. (int (assigned_index tris n 0), int (assigned_index tris n 2),
                            int (assigned_index tris n 1)))
                  (filter (\<lambda>n. tri_material_index (tris ! n) = m) [0..<length tris]))
      else None) \<and>
   (\<forall>n p. n < length tris \<and> p < 3 \<longrightarrow>
      hash_key (model_vertices (decompose_loop initial_state tris) ! assigned_index tris n p)
        = hash_key (corner_list (tris ! n) ! p))"
  using stored_triangles [of tris m] assigned_index_key [of _ tris] by blast

theorem vertex_dedup_by_key_witness:
  "assigned_index sample_tris 0 0 = assigned_index sample_tris 1 1 \<and>
   bone_weights (corner_list (sample_tris ! 0) ! 0) \<noteq> bone_weights (corner_list (sample_tris ! 1) ! 1) \<and>
   assigned_index sample_tris 0 1 \<noteq> assigned_index sample_tris 1 0 \<and>
   model_vertices (decompose_loop initial_state sample_tris) ! assigned_index sample_tris 1 1 = sample_v0"
proof -
  have len: "0 < length sample_tris" "1 < length sample_tris" by (simp_all add: sample_tris_def)
  have c00: "corner_list (sample_tris ! 0) ! 0 = sample_v0"
    and c11: "corner_list (sample_tris ! Suc 0) ! Suc 0 = sample_v3"
    and c01: "corner_list (sample_tris ! 0) ! Suc 0 = sample_v1"
    and c10: "corner_list (sample_tris ! Suc 0) ! 0 = sample_v2"
    by (simp_all add: sample_tris_def corner_list_def)
  have corners: "all_corners sample_tris = [sample_v0, sample_v1, sample_v2, sample_v2, sample_v3, sample_v1]"
    by (simp add: sample_tris_def all_corners_def corner_list_def)
  have same: "assigned_index sample_tris 0 0 = assigned_index sample_tris 1 1"
    using vertex_dedup_by_key [where tris = sample_tris and n = 0 and m = 1 and p = 0 and q = 1]
    using len by (simp add: c00 c11 sample_v0_def sample_v3_def)
  have diff: "assigned_index sample_tris 0 1 \<noteq> assigned_index sample_tris 1 0"
    using vertex_dedup_by_key [where tris = sample_tris and n = 0 and m = 1 and p = 1 and q = 0]
    using len by (simp add: c01 c10 sample_v0_def sample_v1_def sample_v2_def)
  have first: "model_vertices (decompose_loop initial_state sample_tris) ! assigned_index sample_tris 1 1 = sample_v0"
    using vertex_dedup_by_key [where tris = sample_tris and n = 1 and m = 1 and p = 1 and q = 1]
    using len by (simp add: c11 corners hash_key_def sample_v0_def sample_v3_def)
  have w: "bone_weights (corner_list (sample_tris ! 0) ! 0) \<noteq> bone_weights (corner_list (sample_tris ! 1) ! 1)"
    by (simp add: c00 c11 sample_v0_def sample_v3_def)
  from same w diff first show ?thesis by simp
qed

theorem winding_swapped_on_store_witness:
  "geom_triangles (decompose_loop initial_state sample_tris) 1 = Some [(2, 1, 0)] \<and>
   0 < length sample_tris \<and> 1 < length sample_tris"
proof -
  have a0: "assigned_index sample_tris 1 0 = 2"
    and a1: "assigned_index sample_tris 1 1 = 0"
    and a2: "assigned_index sample_tris 1 2 = 1"
    by (simp_all add: assigned_index_def sample_tris_def initial_state_def add_triangle_def
          tri_indices_def deduplicate_def hash_key_def Let_def
          sample_v0_def sample_v1_def sample_v2_def sample_v3_def)
  have f: "filter (\<lambda>n. tri_material_index (sample_tris ! n) = 1) [0..<length sample_tris] = [1]"
    by (simp add: sample_tris_def upt_rec)
  have "1 \<in> tri_material_index ` set sample_tris" by (simp add: sample_tris_def)
  with winding_swapped_on_store [of sample_tris 1] f a0 a1 a2
  show ?thesis by (simp add: sample_tris_def)
qed

subsection \<open>Skin weights: \<open>_build_bone_weights\<close>\<close>

text \<open>
  What \<^verbatim>\<open>_build_bone_weights\<close> reads of the host objects: the names of the bones of the
  armature the object is bound to (\<^verbatim>\<open>None\<close> when \<^verbatim>\<open>find_armature()\<close> finds none), the
  object's vertex groups (\<^verbatim>\<open>name\<close>, \<^verbatim>\<open>index\<close>), and for each mesh vertex its \<^verbatim>\<open>index\<close> and its
  group elements (\<^verbatim>\<open>group\<close>, \<^verbatim>\<open>weight\<close>).

  \<open>bone_index_map\<close> is the dictionary built by the loop over \<^verbatim>\<open>enumerate(bones)\<close>,
  \<open>group_to_bone\<close> the one built by the loop over the vertex groups. \<open>collect_weights\<close> is the
  inner loop over \<^verbatim>\<open>vert.groups\<close>. The stable descending sort
  \<^verbatim>\<open>weights.sort(key=lambda x: x[0], reverse=True)\<close> is \<open>sort_key\<close> on the negated weight, which is
  stable as well. \<open>pad_to\<close> is the loop \<^verbatim>\<open>while len(weights) < MAX_BONES\<close>.
\<close>

record VertexGroupElement =
  group :: int
  weight :: real

record MeshVertex =
  vert_index :: int
  groups :: "VertexGroupElement list"

record VertexGroup =
  vg_name :: string
  vg_index :: int

record SkinnedObject =
  armature_bones :: "string list option"
  vertex_groups :: "VertexGroup list"

definition MAX_BONES :: nat where
  "MAX_BONES = 4"

definition bone_index_map :: "string list \<Rightarrow> (string \<rightharpoonup> int)" where
  "bone_index_map bone_names =
     foldl (\<lambda>m (i, n). m(n \<mapsto> int i)) Map.empty (zip [0..<length bone_names] bone_names)"

definition group_to_bone :: "string list \<Rightarrow> VertexGroup list \<Rightarrow> (int \<rightharpoonup> int)" where
  "group_to_bone bone_names vgs =
     foldl (\<lambda>m vg. if vg_name vg \<in> set bone_names
                     then (case bone_index_map bone_names (vg_name vg) of
                             Some b \<Rightarrow> m(vg_index vg \<mapsto> b)
                           | None \<Rightarrow> m)
                     else m) Map.empty vgs"

fun collect_weights :: "(int \<rightharpoonup> int) \<Rightarrow> VertexGroupElement list \<Rightarrow> (real \<times> int) list" where
  "collect_weights g2b [] = []"
| "collect_weights g2b (g # gs) =
     (case g2b (group g) of
        Some b \<Rightarrow> (if weight g > 0.0001 then (weight g, b) # collect_weights g2b gs
                   else collect_weights g2b gs)
      | None \<Rightarrow> collect_weights g2b gs)"

function pad_to :: "nat \<Rightarrow> (real \<times> int) list \<Rightarrow> (real \<times> int) list" where
  "pad_to n weights = (if length weights < n then pad_to n (weights @ [(0, 0)]) else weights)"
  by pat_completeness auto
termination
  by (relation "measure (\<lambda>(n, weights). n - length weights)") auto

declare pad_to.simps [simp del]

definition vertex_weights :: "(int \<rightharpoonup> int) \<Rightarrow> MeshVertex \<Rightarrow> (real list \<times> int list) option" where
  "vertex_weights g2b vert =
     (let weights = collect_weights g2b (groups vert) in
      if weights = [] then None
      else
        (let weights1 = sort_key (\<lambda>x. - fst x) weights;
             weights2 = take MAX_BONES weights1;
             total = sum_list (map fst weights2);
             weights3 = (if total > 0 then map (\<lambda>(w, idx). (w / total, idx)) weights2
                         else weights2);
             weights4 = pad_to MAX_BONES weights3
         in Some (map fst weights4, map snd weights4)))"

definition build_bone_weights ::
  "SkinnedObject \<Rightarrow> MeshVertex list \<Rightarrow> (int \<rightharpoonup> real list \<times> int list)" where
  "build_bone_weights obj mesh_vertices =
     (case armature_bones obj of
        None \<Rightarrow> Map.empty
      | Some bone_names \<Rightarrow>
          foldl (\<lambda>result vert.
                   case vertex_weights (group_to_bone bone_names (vertex_groups obj)) vert of
                     None \<Rightarrow> result
                   | Some wi \<Rightarrow> result(vert_index vert \<mapsto> wi))
                Map.empty mesh_vertices)"

text \<open>
  A sample: an armature with six bones, an object whose vertex groups 0..5 are bound to
  them in order and whose group 6 is no bone, and one vertex with seven influences.
\<close>

definition sample_object :: SkinnedObject where
  "sample_object = \<lparr> armature_bones = Some [''b0'', ''b1'', ''b2'', ''b3'', ''b4'', ''b5''],
     vertex_groups = [\<lparr> vg_name = ''b0'', vg_index = 0 \<rparr>, \<lparr> vg_name = ''b1'', vg_index = 1 \<rparr>,
                      \<lparr> vg_name = ''b2'', vg_index = 2 \<rparr>, \<lparr> vg_name = ''b3'', vg_index = 3 \<rparr>,
                      \<lparr> vg_name = ''b4'', vg_index = 4 \<rparr>, \<lparr> vg_name = ''b5'', vg_index = 5 \<rparr>,
                      \<lparr> vg_name = ''pin'', vg_index = 6 \<rparr>] \<rparr>"

definition sample_mesh_vertex :: MeshVertex where
  "sample_mesh_vertex = \<lparr> vert_index = 7,
     groups = [\<lparr> group = 0, weight = 1 / 10 \<rparr>, \<lparr> group = 1, weight = 3 / 10 \<rparr>,
               \<lparr> group = 6, weight = 9 / 10 \<rparr>, \<lparr> group = 2, weight = 1 / 5 \<rparr>,
               \<lparr> group = 3, weight = 1 / 100000 \<rparr>, \<lparr> group = 4, weight = 4 / 5 \<rparr>,
               \<lparr> group = 5, weight = 1 / 20 \<rparr>] \<rparr>"

subsection \<open>Properties of the skin weights\<close>

lemma pad_to_replicate: "pad_to n weights = weights @ replicate (n - length weights) (0, 0)"
proof (induction n weights rule: pad_to.induct)
  case (1 n weights)
  show ?case
  proof (cases "length weights < n")
    case True
    then have "n - length weights = Suc (n - Suc (length weights))" by simp
    with True "1" show ?thesis
      by (subst pad_to.simps) (simp add: replicate_app_Cons_same)
  next
    case False
    then show ?thesis by (subst pad_to.simps) simp
  qed
qed

lemma collect_weights_positive: "p \<in> set (collect_weights g2b gs) \<Longrightarrow> 0 < fst p"
  by (induction gs) (auto split: option.splits if_splits)

lemma sum_list_pos_nonempty:
  fixes xs :: "real list"
  assumes "xs \<noteq> []" and "\<And>x. x \<in> set xs \<Longrightarrow> 0 < x"
  shows "0 < sum_list xs"
  using assms by (induction xs) (auto intro: add_pos_nonneg sum_list_nonneg less_imp_le)

lemma sum_list_scaled:
  fixes total :: real
  shows "sum_list (map fst (map (\<lambda>(w, idx). (w / total, idx)) ps)) = sum_list (map fst ps) / total"
  by (induction ps) (auto simp: add_divide_distrib)

lemma sorted_descending:
  "sorted_wrt (\<lambda>a b. b \<le> a) (map fst (sort_key (\<lambda>x. - fst x) (ps :: (real \<times> int) list)))"
proof -
  have "sorted (map (\<lambda>x. - fst x) (sort_key (\<lambda>x. - fst x) ps))" by (rule sorted_sort_key)
  then show ?thesis
    by (simp add: sorted_wrt_map)
qed

lemma vertex_weights_result:
  assumes "vertex_weights g2b vert = Some (ws, bis)"
  shows "(let pairs = collect_weights g2b (groups vert);
              sorted_pairs = sort_key (\<lambda>x. - fst x) pairs;
              top = take 4 sorted_pairs;
              total = sum_list (map fst top)
          in pairs \<noteq> [] \<and> length ws = 4 \<and> length bis = 4 \<and>
             mset sorted_pairs = mset pairs \<and>
             sorted_wrt (\<lambda>a b. b \<le> a) (map fst sorted_pairs) \<and>
             zip ws bis = map (\<lambda>(w, b). (w / total, b)) top @ replicate (4 - length top) (0, 0) \<and>
             sum_list ws = 1 \<and> list_all (\<lambda>w. 0 \<le> w) ws)"
proof -
  define pairs where "pairs = collect_weights g2b (groups vert)"
  define sorted_pairs where "sorted_pairs = sort_key (\<lambda>x. - fst x) pairs"
  define top where "top = take 4 sorted_pairs"
  define total where "total = sum_list (map fst top)"
  define scaled where "scaled = map (\<lambda>(w, b). (w / total, b)) top"
  from assms have ne: "pairs \<noteq> []"
    by (auto simp: vertex_weights_def pairs_def Let_def split: if_splits)
  have perm: "mset sorted_pairs = mset pairs" by (simp add: sorted_pairs_def)
  then have "set sorted_pairs = set pairs" by (rule mset_eq_setD)
  then have pos: "\<And>p. p \<in> set top \<Longrightarrow> 0 < fst p"
    using collect_weights_positive [of _ g2b "groups vert"]
    by (auto simp: top_def pairs_def dest: in_set_takeD)
  have "length sorted_pairs = length pairs" by (simp add: sorted_pairs_def)
  with ne have top_ne: "top \<noteq> []" by (cases sorted_pairs) (auto simp: top_def)
  have total_pos: "0 < total"
    unfolding total_def using top_ne pos by (intro sum_list_pos_nonempty) auto
  have len_top: "length top \<le> 4" by (simp add: top_def)
  have "vertex_weights g2b vert = Some (map fst (pad_to 4 scaled), map snd (pad_to 4 scaled))"
    using ne [unfolded pairs_def] total_pos [unfolded total_def top_def sorted_pairs_def pairs_def]
    by (simp add: vertex_weights_def Let_def MAX_BONES_def scaled_def total_def top_def
          sorted_pairs_def pairs_def)
  with assms have ws: "ws = map fst (scaled @ replicate (4 - length top) (0, 0))"
    and bis: "bis = map snd (scaled @ replicate (4 - length top) (0, 0))"
    by (simp_all add: pad_to_replicate scaled_def)
  have len_scaled: "length scaled = length top" by (simp add: scaled_def)
  have lens: "length ws = 4" "length bis = 4"
    using len_top by (simp_all add: ws bis len_scaled)
  have zipped: "zip ws bis = scaled @ replicate (4 - length top) (0, 0)"
    by (simp add: ws bis zip_map_fst_snd)
  have "sum_list ws = sum_list (map fst scaled)"
    by (simp add: ws sum_list_replicate)
  also have "\<dots> = total / total"
    unfolding scaled_def total_def by (rule sum_list_scaled)
  also have "\<dots> = 1" using total_pos by simp
  finally have one: "sum_list ws = 1" .
  have nonneg: "list_all (\<lambda>w. 0 \<le> w) ws"
  proof -
    have "0 \<le> fst q" if "q \<in> set scaled" for q
    proof -
      from that obtain p where "p \<in> set top" "q = (fst p / total, snd p)"
        by (auto simp: scaled_def)
      with pos [of p] total_pos show ?thesis by simp
    qed
    then show ?thesis by (auto simp: ws list_all_iff)
  qed
  from ne lens perm zipped one nonneg sorted_descending [of pairs]
  show ?thesis
    unfolding Let_def pairs_def [symmetric] sorted_pairs_def [symmetric] top_def [symmetric]
      total_def [symmetric] scaled_def [symmetric]
    by simp
qed

lemma bone_weights_fold_source:
  assumes "foldl (\<lambda>result vert. case vertex_weights g2b vert of
                     None \<Rightarrow> result
                   | Some wi \<Rightarrow> result(vert_index vert \<mapsto> wi)) start vs i = Some r"
  shows "start i = Some r \<or> (\<exists>v \<in> set vs. vert_index v = i \<and> vertex_weights g2b v = Some r)"
  using assms
proof (induction vs arbitrary: start)
  case Nil
  then show ?case by simp
next
  case (Cons v vs)
  let ?next = "case vertex_weights g2b v of None \<Rightarrow> start | Some wi \<Rightarrow> start(vert_index v \<mapsto> wi)"
  from Cons.prems have "foldl (\<lambda>result vert. case vertex_weights g2b vert of
                     None \<Rightarrow> result
                   | Some wi \<Rightarrow> result(vert_index vert \<mapsto> wi)) ?next vs i = Some r"
    by simp
  from Cons.IH [OF this]
  show ?case
    by (auto split: option.splits if_splits)
qed

lemma bone_weights_fold_included:
  assumes "v \<in> set vs" and "vertex_weights g2b v \<noteq> None"
  shows "foldl (\<lambda>result vert. case vertex_weights g2b vert of
                     None \<Rightarrow> result
                   | Some wi \<Rightarrow> result(vert_index vert \<mapsto> wi)) start vs (vert_index v) \<noteq> None"
  using assms
proof (induction vs arbitrary: start rule: rev_induct)
  case Nil
  then show ?case by simp
next
  case (snoc x xs)
  show ?case
  proof (cases "vertex_weights g2b x")
    case None
    with snoc show ?thesis by auto
  next
    case (Some wi)
    with snoc show ?thesis by (cases "vert_index x = vert_index v") auto
  qed
qed

text \<open>
  Claim C4. Every entry of the result of \<open>build_bone_weights\<close> belongs to a mesh vertex with
  at least one weight above the threshold on a recognised bone, and consists of exactly four
  weights and four bone indices: the vertex's (weight, bone index) pairs sorted by
  descending weight, cut to the four highest, each weight divided by the sum of the kept
  weights, and padded with \<open>(0, 0)\<close>. The four weights are not negative and sum to 1. Every
  vertex with such a weight has an entry. (Weights are reals here: the sum is exactly 1.)
\<close>

theorem build_bone_weights_top4:
  "(build_bone_weights obj mesh_vertices i = Some (ws, bis) \<longrightarrow>
      (\<exists>vert bone_names. vert \<in> set mesh_vertices \<and> vert_index vert = i \<and>
         armature_bones obj = Some bone_names \<and>
         (let pairs = collect_weights (group_to_bone bone_names (vertex_groups obj)) (groups vert);
              sorted_pairs = sort_key (\<lambda>x. - fst x) pairs;
              top = take 4 sorted_pairs;
              total = sum_list (map fst top)
          in pairs \<noteq> [] \<and> length ws = 4 \<and> length bis = 4 \<and>
             mset sorted_pairs = mset pairs \<and>
             sorted_wrt (\<lambda>a b. b \<le> a) (map fst sorted_pairs) \<and>
             zip ws bis = map (\<lambda>(w, b). (w / total, b)) top @ replicate (4 - length top) (0, 0) \<and>
             sum_list ws = 1 \<and> list_all (\<lambda>w. 0 \<le> w) ws))) \<and>
   (\<forall>vert bone_names. vert \<in> set mesh_vertices \<and> armature_bones obj = Some bone_names \<and>
       collect_weights (group_to_bone bone_names (vertex_groups obj)) (groups vert) \<noteq> []
       \<longrightarrow> build_bone_weights obj mesh_vertices (vert_index vert) \<noteq> None)"
proof (intro conjI impI allI)
  assume res: "build_bone_weights obj mesh_vertices i = Some (ws, bis)"
  then obtain bone_names where arm: "armature_bones obj = Some bone_names"
    by (cases "armature_bones obj") (auto simp: build_bone_weights_def)
  define g2b where "g2b = group_to_bone bone_names (vertex_groups obj)"
  from res arm have "foldl (\<lambda>result vert. case vertex_weights g2b vert of
                     None \<Rightarrow> result
                   | Some wi \<Rightarrow> result(vert_index vert \<mapsto> wi)) Map.empty mesh_vertices i = Some (ws, bis)"
    by (simp add: build_bone_weights_def g2b_def)
  from bone_weights_fold_source [OF this]
  obtain vert where v: "vert \<in> set mesh_vertices" "vert_index vert = i"
    and vw: "vertex_weights g2b vert = Some (ws, bis)"
    by auto
  from vertex_weights_result [OF vw] v arm
  show "\<exists>vert bone_names. vert \<in> set mesh_vertices \<and> vert_index vert = i \<and>
         armature_bones obj = Some bone_names \<and>
         (let pairs = collect_weights (group_to_bone bone_names (vertex_groups obj)) (groups vert);
              sorted_pairs = sort_key (\<lambda>x. - fst x) pairs;
              top = take 4 sorted_pairs;
              total = sum_list (map fst top)
          in pairs \<noteq> [] \<and> length ws = 4 \<and> length bis = 4 \<and>
             mset sorted_pairs = mset pairs \<and>
             sorted_wrt (\<lambda>a b. b \<le> a) (map fst sorted_pairs) \<and>
             zip ws bis = map (\<lambda>(w, b). (w / total, b)) top @ replicate (4 - length top) (0, 0) \<and>
             sum_list ws = 1 \<and> list_all (\<lambda>w. 0 \<le> w) ws)"
    unfolding g2b_def by blast
next
  fix vert bone_names
  assume a: "vert \<in> set mesh_vertices \<and> armature_bones obj = Some bone_names \<and>
       collect_weights (group_to_bone bone_names (vertex_groups obj)) (groups vert) \<noteq> []"
  then have "vertex_weights (group_to_bone bone_names (vertex_groups obj)) vert \<noteq> None"
    by (simp add: vertex_weights_def Let_def)
  with a bone_weights_fold_included [of vert mesh_vertices "group_to_bone bone_names (vertex_groups obj)" Map.empty]
  show "build_bone_weights obj mesh_vertices (vert_index vert) \<noteq> None"
    by (simp add: build_bone_weights_def)
qed

theorem build_bone_weights_top4_witness:
  "build_bone_weights sample_object [sample_mesh_vertex] 7
     = Some ([4 / 7, 3 / 14, 1 / 7, 1 / 14], [4, 1, 2, 0]) \<and>
   length [4 / 7, 3 / 14, 1 / 7, 1 / 14 :: real] = 4 \<and>
   sum_list [4 / 7, 3 / 14, 1 / 7, 1 / 14 :: real] = 1"
proof -
  have res: "build_bone_weights sample_object [sample_mesh_vertex] 7
     = Some ([4 / 7, 3 / 14, 1 / 7, 1 / 14], [4, 1, 2, 0])"
    by (simp add: build_bone_weights_def sample_object_def sample_mesh_vertex_def vertex_weights_def
          group_to_bone_def bone_index_map_def MAX_BONES_def upt_rec pad_to_replicate Let_def)
  from build_bone_weights_top4 [of sample_object "[sample_mesh_vertex]" 7
      "[4 / 7, 3 / 14, 1 / 7, 1 / 14]" "[4, 1, 2, 0]"] res
  have "length [4 / 7, 3 / 14, 1 / 7, 1 / 14 :: real] = 4 \<and>
        sum_list [4 / 7, 3 / 14, 1 / 7, 1 / 14 :: real] = 1"
    unfolding Let_def by blast
  with res show ?thesis by blast
qed

subsection \<open>Morph targets: \<open>_decompose_morphs\<close>\<close>

text \<open>
  The shape keys of the object are the mutable state: \<^verbatim>\<open>obj.data.shape_keys\<close> is \<^verbatim>\<open>None\<close> or has
  a list of key blocks, each with a name, a \<^verbatim>\<open>value\<close> (\<open>kb_value\<close>) and a \<^verbatim>\<open>mute\<close> flag (\<open>kb_mute\<close>).
  \<open>evaluate\<close> stands for the host: \<^verbatim>\<open>evaluated_mesh(obj, depsgraph, False)\<close> under the current
  shape-key values either yields the evaluated mesh (its vertices, and whether it has corner
  normals) or raises. Everything else is the source's: \<open>morph_deltas\<close> is the loop over
  \<^verbatim>\<open>enumerate(base_model.vertices)\<close>, \<open>morph_loop\<close> the loop over the keys inside \<^verbatim>\<open>try\<close>,
  \<open>restore_values\<close> the loop of the \<^verbatim>\<open>finally\<close> block. The function returns the final key blocks
  together with the morph list or the exception that leaves it. The dictionaries
  \<^verbatim>\<open>base_positions\<close> and \<^verbatim>\<open>base_normals\<close> are built and never read, and the calls to the logger
  do not touch the shape keys; both are left out.
\<close>

record ExportSettings =
  scale :: real
  export_morph_normals :: bool

record KeyBlock =
  kb_name :: string
  kb_value :: real
  kb_mute :: bool

record MeshVertexData =
  co :: "real \<times> real \<times> real"
  vertex_normal :: "real \<times> real \<times> real"

record EvaluatedMesh =
  mesh_vertices :: "MeshVertexData list"
  has_corner_normals :: bool

definition EPSILON :: real where
  "EPSILON = 1 / 1000000"

definition blender_to_urho_pos :: "real \<times> real \<times> real \<Rightarrow> real \<Rightarrow> real \<times> real \<times> real" where
  "blender_to_urho_pos c s = (case c of (x, y, z) \<Rightarrow> (x * s, z * s, y * s))"

definition blender_to_urho_normal :: "real \<times> real \<times> real \<Rightarrow> real \<times> real \<times> real" where
  "blender_to_urho_normal n = (case n of (x, y, z) \<Rightarrow> (x, z, y))"

fun morph_deltas ::
  "ExportSettings \<Rightarrow> EvaluatedMesh \<Rightarrow> nat \<Rightarrow> IntermediateVertex list
     \<Rightarrow> exn + IntermediateMorphVertex list" where
  "morph_deltas settings morph_mesh vi [] = Inr []"
| "morph_deltas settings morph_mesh vi (base_v # rest) =
     (case blender_index base_v of
        None \<Rightarrow> morph_deltas settings morph_mesh (Suc vi) rest
      | Some bl_idx \<Rightarrow>
          if bl_idx \<ge> int (length (mesh_vertices morph_mesh))
          then morph_deltas settings morph_mesh (Suc vi) rest
          else
            bind_exn (py_get (mesh_vertices morph_mesh) bl_idx) (\<lambda>morph_vert.
            case (blender_to_urho_pos (co morph_vert) (scale settings), position base_v) of
              ((mx, my, mz), (bx, by, bz)) \<Rightarrow>
                (let dx = mx - bx; dy = my - by; dz = mz - bz in
                 if \<bar>dx\<bar> < EPSILON \<and> \<bar>dy\<bar> < EPSILON \<and> \<bar>dz\<bar> < EPSILON
                 then morph_deltas settings morph_mesh (Suc vi) rest
                 else
                   (let normal_delta =
                          (case normal base_v of
                             Some (nx, ny, nz) \<Rightarrow>
                               if export_morph_normals settings \<and> has_corner_normals morph_mesh
                               then (case blender_to_urho_normal (vertex_normal morph_vert) of
                                       (m0, m1, m2) \<Rightarrow> Some (m0 - nx, m1 - ny, m2 - nz))
                               else None
                           | None \<Rightarrow> None)
                    in bind_exn (morph_deltas settings morph_mesh (Suc vi) rest) (\<lambda>more.
                         Inr (\<lparr> vertex_index = int vi, position_delta = (dx, dy, dz),
                                normal_delta = normal_delta, tangent_delta = None \<rparr> # more))))))"

definition set_value :: "nat \<Rightarrow> real \<Rightarrow> KeyBlock list \<Rightarrow> KeyBlock list" where
  "set_value ki v key_blocks = key_blocks[ki := (key_blocks ! ki)\<lparr> kb_value := v \<rparr>]"

fun morph_loop ::
  "ExportSettings \<Rightarrow> IntermediateVertex list \<Rightarrow> (KeyBlock list \<Rightarrow> exn + EvaluatedMesh)
     \<Rightarrow> nat list \<Rightarrow> KeyBlock list \<Rightarrow> IntermediateMorph list
     \<Rightarrow> KeyBlock list \<times> (exn + IntermediateMorph list)" where
  "morph_loop settings base_vertices evaluate [] key_blocks morph_list = (key_blocks, Inr morph_list)"
| "morph_loop settings base_vertices evaluate (ki # kis) key_blocks morph_list =
     (let kbs1 = set_value ki 1 key_blocks in
      case evaluate kbs1 of
        Inl e \<Rightarrow> (kbs1, Inl e)
      | Inr morph_mesh \<Rightarrow>
          (case morph_deltas settings morph_mesh 0 base_vertices of
             Inl e \<Rightarrow> (kbs1, Inl e)
           | Inr mvs \<Rightarrow>
               morph_loop settings base_vertices evaluate kis (set_value ki 0 kbs1)
                 (if mvs \<noteq> []
                  then morph_list @ [\<lparr> morph_name = kb_name (key_blocks ! ki), morph_vertices = mvs \<rparr>]
                  else morph_list)))"

fun restore_values :: "nat \<Rightarrow> (real \<times> bool) list \<Rightarrow> KeyBlock list \<Rightarrow> KeyBlock list" where
  "restore_values i [] key_blocks = key_blocks"
| "restore_values i ((val, mute) # saved) key_blocks =
     restore_values (Suc i) saved
       (key_blocks[i := (key_blocks ! i)\<lparr> kb_value := val, kb_mute := mute \<rparr>])"

definition decompose_morphs ::
  "ExportSettings \<Rightarrow> IntermediateModel \<Rightarrow> (KeyBlock list \<Rightarrow> exn + EvaluatedMesh)
     \<Rightarrow> KeyBlock list option \<Rightarrow> KeyBlock list option \<times> (exn + IntermediateMorph list)" where
  "decompose_morphs settings base_model evaluate shape_keys =
     (case shape_keys of
        None \<Rightarrow> (None, Inr [])
      | Some key_blocks \<Rightarrow>
          if length key_blocks < 2 then (Some key_blocks, Inr [])
          else
            (let saved_values = map (\<lambda>kb. (kb_value kb, kb_mute kb)) key_blocks;
                 zeroed = map (\<lambda>kb. kb\<lparr> kb_value := 0, kb_mute := False \<rparr>) key_blocks;
                 (kbs, outcome) = morph_loop settings (vertices base_model) evaluate
                                    [1..<length key_blocks] zeroed []
             in (Some (restore_values 0 saved_values kbs), outcome)))"

subsection \<open>Animation baking: \<open>decompose_actions\<close> (skeleton/animation.py)\<close>

text \<open>
  The state \<^verbatim>\<open>decompose_actions\<close> touches: whether the armature has \<^verbatim>\<open>animation_data\<close>, and
  if so its active \<^verbatim>\<open>action\<close> and its \<^verbatim>\<open>use_nla\<close> flag, and the scene's \<^verbatim>\<open>frame_current\<close>.
  Actions are values of any type \<open>'a\<close>, and \<^verbatim>\<open>None\<close> is an action too: the saved action may be
  \<^verbatim>\<open>None\<close>. Three parts of the host are parameters:
  \<^item> \<open>collect\<close> is \<^verbatim>\<open>_collect_actions\<close>, which reads the state and returns the entries
    \<^verbatim>\<open>(name, frame_start, frame_end, action)\<close> or raises;
  \<^item> \<open>rejected act st\<close> is the host on the assignment \<^verbatim>\<open>animation_data.action = act\<close> in the
    state \<open>st\<close>: \<open>None\<close> when it is accepted, or the exception it raises. The source writes
    this assignment twice. Inside the loop it is guarded: the exception is caught, logged,
    and the entry skipped. In the \<^verbatim>\<open>finally\<close> block it is not guarded: the exception leaves
    the block, the statement after it (\<^verbatim>\<open>scene.frame_current = saved_frame\<close>) is not run, and
    the exception replaces the outcome of the \<^verbatim>\<open>try\<close> block;
  \<^item> \<open>bake\<close> is \<^verbatim>\<open>_bake_action\<close>: it moves the scene to the frames it samples
    (\<^verbatim>\<open>scene.frame_set\<close>), so it returns the frame the scene is left at, with the baked
    animation, \<^verbatim>\<open>None\<close>, or the exception it raises.
  The assignments to \<^verbatim>\<open>use_nla\<close> and to \<^verbatim>\<open>frame_current\<close> are field updates; the source guards
  neither. Calls to the logger are left out.
\<close>

record 'a host_state =
  has_animation_data :: bool
  action :: "'a option"
  use_nla :: bool
  frame_current :: int

type_synonym 'a export_entry = "string \<times> int \<times> int \<times> 'a option"

fun bake_loop ::
  "('a option \<Rightarrow> 'a host_state \<Rightarrow> exn option)
     \<Rightarrow> ('a host_state \<Rightarrow> 'a export_entry \<Rightarrow> int \<times> (exn + IntermediateAnimation option))
     \<Rightarrow> 'a export_entry list \<Rightarrow> 'a host_state \<Rightarrow> IntermediateAnimation list
     \<Rightarrow> 'a host_state \<times> (exn + IntermediateAnimation list)" where
  "bake_loop rejected bake [] st anims = (st, Inr anims)"
| "bake_loop rejected bake (entry # rest) st anims =
     (case entry of (action_name, frame_start, frame_end, act) \<Rightarrow>
        (case (case act of
                 Some a \<Rightarrow> (case rejected (Some a) st of
                              Some e \<Rightarrow> None
                            | None \<Rightarrow> Some (st\<lparr> action := Some a \<rparr>))
               | None \<Rightarrow> Some st) of
           None \<Rightarrow> bake_loop rejected bake rest st anims
         | Some st1 \<Rightarrow>
             (let (frame, outcome) = bake st1 entry;
                  st2 = st1\<lparr> frame_current := frame \<rparr>
              in case outcome of
                   Inl e \<Rightarrow> (st2, Inl e)
                 | Inr anim \<Rightarrow>
                     bake_loop rejected bake rest st2
                       (case anim of
                          Some a \<Rightarrow> if tracks a \<noteq> [] then anims @ [a] else anims
                        | None \<Rightarrow> anims))))"

definition decompose_actions ::
  "('a host_state \<Rightarrow> exn + 'a export_entry list)
     \<Rightarrow> ('a option \<Rightarrow> 'a host_state \<Rightarrow> exn option)
     \<Rightarrow> ('a host_state \<Rightarrow> 'a export_entry \<Rightarrow> int \<times> (exn + IntermediateAnimation option))
     \<Rightarrow> 'a host_state \<Rightarrow> 'a host_state \<times> (exn + IntermediateAnimation list)" where
  "decompose_actions collect rejected bake st =
     (if \<not> has_animation_data st then (st, Inr [])
      else
        (let saved_action = action st;
             saved_frame = frame_current st;
             saved_use_nla = use_nla st
         in case collect st of
              Inl e \<Rightarrow> (st, Inl e)
            | Inr actions_to_export \<Rightarrow>
                if actions_to_export = [] then (st, Inr [])
                else
                  (let (st1, outcome) = bake_loop rejected bake actions_to_export
                                          (st\<lparr> use_nla := False \<rparr>) [];
                       st2 = st1\<lparr> use_nla := saved_use_nla \<rparr>
                   in case rejected saved_action st2 of
                        Some e \<Rightarrow> (st2, Inl e)
                      | None \<Rightarrow>
                          (st2\<lparr> action := saved_action, frame_current := saved_frame \<rparr>,
                           outcome))))"

text \<open>
  Samples. For the morphs: three shape keys and a host whose mesh evaluation raises once the
  third key is active. For the actions: an armature with the active action \<open>Idle\<close> in a scene
  at frame 3; the entry that the source \<^verbatim>\<open>TIMELINE\<close> gives for a scene running from frame 1 to
  frame 19 (its action is \<^verbatim>\<open>None\<close>, so the loop assigns no action); a bake that samples the
  frames 1 to 19, leaves the scene at frame 19 and finds no bone to track; a bake that moves
  to frame 12 and raises; a host that accepts every assignment of the action, and one that
  raises on every assignment.
\<close>

definition sample_keys :: "KeyBlock list" where
  "sample_keys = [\<lparr> kb_name = ''Basis'', kb_value = 0, kb_mute = False \<rparr>,
                  \<lparr> kb_name = ''Smile'', kb_value = 3 / 10, kb_mute = True \<rparr>,
                  \<lparr> kb_name = ''Frown'', kb_value = 7 / 10, kb_mute = False \<rparr>]"

definition failing_evaluate :: "KeyBlock list \<Rightarrow> exn + EvaluatedMesh" where
  "failing_evaluate kbs =
     (if kb_value (kbs ! 2) = 1 then Inl (RuntimeError ''evaluation failed'')
      else Inr \<lparr> mesh_vertices = [], has_corner_normals = False \<rparr>)"

definition empty_model :: IntermediateModel where
  "empty_model = \<lparr> model_name = ''m'', vertices = [], geometries = [], morphs = [], bones = [],
     animations = [], bbox_min = (0, 0, 0), bbox_max = (0, 0, 0) \<rparr>"

definition sample_host :: "string host_state" where
  "sample_host = \<lparr> has_animation_data = True, action = Some ''Idle'', use_nla = True,
     frame_current = 3 \<rparr>"

definition timeline_entries :: "string host_state \<Rightarrow> exn + string export_entry list" where
  "timeline_entries st = Inr [(''Timeline'', 1, 20, None)]"

definition timeline_bake ::
  "string host_state \<Rightarrow> string export_entry \<Rightarrow> int \<times> (exn + IntermediateAnimation option)" where
  "timeline_bake st entry = (19, Inr None)"

definition failing_bake ::
  "string host_state \<Rightarrow> string export_entry \<Rightarrow> int \<times> (exn + IntermediateAnimation option)" where
  "failing_bake st entry = (12, Inl (RuntimeError ''bake failed''))"

definition accepting_host :: "string option \<Rightarrow> string host_state \<Rightarrow> exn option" where
  "accepting_host act st = None"

definition refusing_host :: "string option \<Rightarrow> string host_state \<Rightarrow> exn option" where
  "refusing_host act st = Some (RuntimeError ''cannot change the action'')"

subsection \<open>Restoring the source scene state\<close>

lemma morph_loop_shape:
  "length (fst (morph_loop settings base_vertices evaluate kis key_blocks morph_list))
     = length key_blocks"
proof (induction kis arbitrary: key_blocks morph_list)
  case Nil
  show ?case by simp
next
  case (Cons ki kis)
  show ?case
    by (simp add: Let_def set_value_def Cons split: sum.split)
qed

lemma morph_loop_names:
  "map kb_name (fst (morph_loop settings base_vertices evaluate kis key_blocks morph_list))
     = map kb_name key_blocks"
proof (induction kis arbitrary: key_blocks morph_list)
  case Nil
  show ?case by simp
next
  case (Cons ki kis)
  have upd: "map kb_name (set_value k v kbs) = map kb_name kbs" for k v kbs
  proof (rule nth_equalityI)
    show "length (map kb_name (set_value k v kbs)) = length (map kb_name kbs)"
      by (simp add: set_value_def)
  next
    fix i assume "i < length (map kb_name (set_value k v kbs))"
    then have "i < length kbs" by (simp add: set_value_def)
    then show "map kb_name (set_value k v kbs) ! i = map kb_name kbs ! i"
      by (cases "i = k") (simp_all add: set_value_def)
  qed
  show ?case
    by (simp add: Let_def Cons upd split: sum.split)
qed

lemma restore_values_nth:
  assumes "i + length saved \<le> length kbs"
  shows "restore_values i saved kbs =
           take i kbs @
           map (\<lambda>(kb, val, mute). kb\<lparr> kb_value := val, kb_mute := mute \<rparr>)
             (zip (take (length saved) (drop i kbs)) saved) @
           drop (i + length saved) kbs"
  using assms
proof (induction saved arbitrary: i kbs)
  case Nil
  show ?case by simp
next
  case (Cons sv saved)
  obtain val mute where sv: "sv = (val, mute)" by (cases sv)
  let ?kbs' = "kbs[i := (kbs ! i)\<lparr> kb_value := val, kb_mute := mute \<rparr>]"
  from Cons.prems have i: "i < length kbs" by simp
  from Cons.prems have "Suc i + length saved \<le> length ?kbs'" by simp
  from Cons.IH [OF this]
  have "restore_values (Suc i) saved ?kbs' =
          take (Suc i) ?kbs' @
          map (\<lambda>(kb, val, mute). kb\<lparr> kb_value := val, kb_mute := mute \<rparr>)
            (zip (take (length saved) (drop (Suc i) ?kbs')) saved) @
          drop (Suc i + length saved) ?kbs'" .
  moreover have "take (Suc i) ?kbs' = take i kbs @ [(kbs ! i)\<lparr> kb_value := val, kb_mute := mute \<rparr>]"
    using i by (simp add: take_Suc_conv_app_nth)
  moreover have "drop (Suc i) ?kbs' = drop (Suc i) kbs" by simp
  moreover have "drop (Suc i + length saved) ?kbs' = drop (Suc i + length saved) kbs" by simp
  moreover have "take (Suc (length saved)) (drop i kbs) = kbs ! i # take (length saved) (drop (Suc i) kbs)"
    using i by (simp add: Cons_nth_drop_Suc [symmetric])
  ultimately show ?case
    by (simp add: sv)
qed

lemma restore_values_all:
  assumes "length kbs = length original" and "map kb_name kbs = map kb_name original"
  shows "restore_values 0 (map (\<lambda>kb. (kb_value kb, kb_mute kb)) original) kbs = original"
proof -
  have "restore_values 0 (map (\<lambda>kb. (kb_value kb, kb_mute kb)) original) kbs =
          map (\<lambda>(kb, val, mute). kb\<lparr> kb_value := val, kb_mute := mute \<rparr>)
            (zip kbs (map (\<lambda>kb. (kb_value kb, kb_mute kb)) original))"
    using assms(1) by (simp add: restore_values_nth)
  also have "\<dots> = original"
  proof (rule nth_equalityI)
    show "length (map (\<lambda>(kb, val, mute). kb\<lparr> kb_value := val, kb_mute := mute \<rparr>)
            (zip kbs (map (\<lambda>kb. (kb_value kb, kb_mute kb)) original))) = length original"
      using assms(1) by simp
  next
    fix j assume "j < length (map (\<lambda>(kb, val, mute). kb\<lparr> kb_value := val, kb_mute := mute \<rparr>)
            (zip kbs (map (\<lambda>kb. (kb_value kb, kb_mute kb)) original)))"
    then have j: "j < length original" "j < length kbs" using assms(1) by simp_all
    from assms(2) j have "kb_name (kbs ! j) = kb_name (original ! j)"
      by (metis nth_map)
    then show "map (\<lambda>(kb, val, mute). kb\<lparr> kb_value := val, kb_mute := mute \<rparr>)
            (zip kbs (map (\<lambda>kb. (kb_value kb, kb_mute kb)) original)) ! j = original ! j"
      using j by simp
  qed
  finally show ?thesis .
qed

lemma decompose_morphs_restores:
  "fst (decompose_morphs settings base_model evaluate shape_keys) = shape_keys"
proof (cases shape_keys)
  case None
  then show ?thesis by (simp add: decompose_morphs_def)
next
  case (Some key_blocks)
  show ?thesis
  proof (cases "length key_blocks < 2")
    case True
    with Some show ?thesis by (simp add: decompose_morphs_def)
  next
    case False
    let ?zeroed = "map (\<lambda>kb. kb\<lparr> kb_value := 0, kb_mute := False \<rparr>) key_blocks"
    let ?run = "morph_loop settings (vertices base_model) evaluate [1..<length key_blocks] ?zeroed []"
    have len: "length (fst ?run) = length key_blocks"
      by (simp add: morph_loop_shape)
    have names: "map kb_name (fst ?run) = map kb_name key_blocks"
      by (simp add: morph_loop_names)
    from restore_values_all [OF len names] Some False show ?thesis
      by (simp add: decompose_morphs_def Let_def case_prod_beta)
  qed
qed

lemma decompose_morphs_restores_sample:
  "decompose_morphs \<lparr> scale = 1, export_morph_normals = False \<rparr> empty_model failing_evaluate
      (Some sample_keys)
     = (Some sample_keys, Inl (RuntimeError ''evaluation failed''))"
proof -
  have "snd (decompose_morphs \<lparr> scale = 1, export_morph_normals = False \<rparr> empty_model
            failing_evaluate (Some sample_keys)) = Inl (RuntimeError ''evaluation failed'')"
    by (simp add: decompose_morphs_def sample_keys_def failing_evaluate_def empty_model_def
          set_value_def Let_def upt_rec case_prod_beta)
  with decompose_morphs_restores [of "\<lparr> scale = 1, export_morph_normals = False \<rparr>" empty_model
      failing_evaluate "Some sample_keys"]
  show ?thesis by (simp add: prod_eq_iff)
qed

lemma bake_loop_keeps_presence:
  "has_animation_data (fst (bake_loop rejected bake entries st anims)) = has_animation_data st"
proof (induction entries arbitrary: st anims)
  case Nil
  show ?case by simp
next
  case (Cons entry rest)
  show ?case
    by (simp add: Cons Let_def split: prod.split option.split sum.split)
qed

text \<open>
  What \<open>decompose_actions\<close> does restore. The \<open>use_nla\<close> flag is written back first and is
  restored on every path. The action and the frame are restored on every path on which the
  host accepts the assignment of the saved action in the \<^verbatim>\<open>finally\<close> block, whether the baking
  returned or raised.
\<close>

lemma decompose_actions_restores_use_nla:
  "use_nla (fst (decompose_actions collect rejected bake st)) = use_nla st \<and>
   has_animation_data (fst (decompose_actions collect rejected bake st)) = has_animation_data st"
  by (simp add: decompose_actions_def Let_def case_prod_beta bake_loop_keeps_presence
        split: sum.split option.split)

lemma decompose_actions_restores:
  assumes accepted: "\<And>s. rejected (action st) s = None"
  shows "fst (decompose_actions collect rejected bake st) = st"
proof (cases "has_animation_data st")
  case False
  then show ?thesis by (simp add: decompose_actions_def)
next
  case True
  show ?thesis
  proof (cases "collect st")
    case (Inl e)
    with True show ?thesis by (simp add: decompose_actions_def)
  next
    case (Inr actions_to_export)
    let ?run = "bake_loop rejected bake actions_to_export (st\<lparr> use_nla := False \<rparr>) []"
    have "has_animation_data (fst ?run) = has_animation_data st"
      by (simp add: bake_loop_keeps_presence)
    then have "(fst ?run)\<lparr> use_nla := use_nla st, action := action st,
                 frame_current := frame_current st \<rparr> = st"
      by (cases st; cases "fst ?run") simp
    with True Inr accepted show ?thesis
      by (simp add: decompose_actions_def Let_def case_prod_beta)
  qed
qed

lemma decompose_actions_restores_sample:
  "decompose_actions (\<lambda>st. Inr [(''Walk'', 1, 20, Some ''Walk'')]) accepting_host failing_bake
      sample_host
     = (sample_host, Inl (RuntimeError ''bake failed''))"
proof -
  have "snd (decompose_actions (\<lambda>st. Inr [(''Walk'', 1, 20, Some ''Walk'')]) accepting_host
            failing_bake sample_host) = Inl (RuntimeError ''bake failed'')"
    by (simp add: decompose_actions_def sample_host_def failing_bake_def accepting_host_def
          Let_def)
  with decompose_actions_restores [of accepting_host sample_host
      "\<lambda>st. Inr [(''Walk'', 1, 20, Some ''Walk'')]" failing_bake]
  show ?thesis by (simp add: prod_eq_iff accepting_host_def)
qed

text \<open>
  Claim C8. The claim is that morph decomposition and animation baking leave the scene as
  they found it on every exit path. For the shape keys this holds (\<open>decompose_morphs_restores\<close>
  above). For the animation state it does not: the \<^verbatim>\<open>finally\<close> block of \<^verbatim>\<open>decompose_actions\<close>
  assigns the saved action before it restores the frame, and the source itself treats that
  assignment as one that can raise. At the sample, baking the timeline moves the scene from
  frame 3 to frame 19; the host refuses the assignment of the saved action, so the
  statement that restores the frame is skipped: \<^verbatim>\<open>decompose_actions\<close> raises and leaves the
  scene at frame 19.
\<close>

theorem decompose_actions_frame_not_restored:
  "decompose_actions timeline_entries refusing_host timeline_bake sample_host
     = (sample_host\<lparr> frame_current := 19 \<rparr>, Inl (RuntimeError ''cannot change the action'')) \<and>
   frame_current sample_host = 3 \<and>
   frame_current (fst (decompose_actions timeline_entries refusing_host timeline_bake sample_host))
     = 19"
  by (simp add: decompose_actions_def sample_host_def timeline_entries_def timeline_bake_def
        refusing_host_def Let_def)
section \<open>Tangent generation (mesh/tangents.py)\<close>

text \<open>
  \<^verbatim>\<open>generate_tangents\<close>. Vectors are triples of reals. \<open>py_get\<close> is Python's list indexing (a
  negative index counts from the end, an index out of range raises \<^verbatim>\<open>IndexError\<close>), and
  reading a coordinate of a UV that is \<^verbatim>\<open>None\<close> raises \<^verbatim>\<open>TypeError\<close>, so the function returns
  \<open>exn + IntermediateModel\<close>. \<open>accumulate_triangle\<close> is the body of the loop over the triangles,
  \<open>accumulate_all\<close> that loop over all geometries and LOD levels, \<open>finalize_vertex\<close> the body
  of the loop \<^verbatim>\<open>for i in range(vertex_count)\<close>.
\<close>

type_synonym vec3 = "real \<times> real \<times> real"

definition dot3 :: "vec3 \<Rightarrow> vec3 \<Rightarrow> real" where
  "dot3 a b = (case (a, b) of ((a0, a1, a2), (b0, b1, b2)) \<Rightarrow> a0 * b0 + a1 * b1 + a2 * b2)"

definition cross3 :: "vec3 \<Rightarrow> vec3 \<Rightarrow> vec3" where
  "cross3 a b = (case (a, b) of ((a0, a1, a2), (b0, b1, b2)) \<Rightarrow>
     (a1 * b2 - a2 * b1, a2 * b0 - a0 * b2, a0 * b1 - a1 * b0))"

definition add3 :: "vec3 \<Rightarrow> vec3 \<Rightarrow> vec3" where
  "add3 a b = (case (a, b) of ((a0, a1, a2), (b0, b1, b2)) \<Rightarrow> (a0 + b0, a1 + b1, a2 + b2))"

definition add_at :: "vec3 list \<Rightarrow> int \<Rightarrow> vec3 \<Rightarrow> vec3 list" where
  "add_at acc idx v =
     (let j = nat (if idx < 0 then int (length acc) + idx else idx)
      in acc[j := add3 (acc ! j) v])"

definition all_triangles :: "IntermediateModel \<Rightarrow> triangle list" where
  "all_triangles model =
     concat (map (\<lambda>geom. concat (map triangles (lod_levels geom))) (geometries model))"

definition accumulate_triangle ::
  "IntermediateVertex list \<Rightarrow> vec3 list \<times> vec3 list \<Rightarrow> triangle \<Rightarrow> exn + vec3 list \<times> vec3 list" where
  "accumulate_triangle vs acc tri =
     (case (acc, tri) of ((tan1, tan2), (i0, i1, i2)) \<Rightarrow>
      bind_exn (py_get vs i0) (\<lambda>v0.
      bind_exn (py_get vs i1) (\<lambda>v1.
      bind_exn (py_get vs i2) (\<lambda>v2.
      case (position v0, position v1, position v2) of
        ((p0x, p0y, p0z), (p1x, p1y, p1z), (p2x, p2y, p2z)) \<Rightarrow>
      (case (uv v0, uv v1, uv v2) of
         (Some (u0, w0), Some (u1, w1), Some (u2, w2)) \<Rightarrow>
           (let dx1 = p1x - p0x; dy1 = p1y - p0y; dz1 = p1z - p0z;
                dx2 = p2x - p0x; dy2 = p2y - p0y; dz2 = p2z - p0z;
                du1 = u1 - u0; dv1 = w1 - w0; du2 = u2 - u0; dv2 = w2 - w0;
                det = du1 * dv2 - du2 * dv1
            in if \<bar>det\<bar> < 1 / 100000000 then Inr (tan1, tan2)
               else
                 (let r = 1 / det;
                      s = ((dv2 * dx1 - dv1 * dx2) * r, (dv2 * dy1 - dv1 * dy2) * r,
                           (dv2 * dz1 - dv1 * dz2) * r);
                      t = ((du1 * dx2 - du2 * dx1) * r, (du1 * dy2 - du2 * dy1) * r,
                           (du1 * dz2 - du2 * dz1) * r)
                  in Inr (add_at (add_at (add_at tan1 i0 s) i1 s) i2 s,
                          add_at (add_at (add_at tan2 i0 t) i1 t) i2 t)))
       | _ \<Rightarrow> Inl none_not_subscriptable)))))"

fun accumulate_all ::
  "IntermediateVertex list \<Rightarrow> vec3 list \<times> vec3 list \<Rightarrow> triangle list \<Rightarrow> exn + vec3 list \<times> vec3 list" where
  "accumulate_all vs acc [] = Inr acc"
| "accumulate_all vs acc (tri # rest) =
     bind_exn (accumulate_triangle vs acc tri) (\<lambda>acc'. accumulate_all vs acc' rest)"

definition finalize_vertex :: "IntermediateVertex \<Rightarrow> vec3 \<Rightarrow> vec3 \<Rightarrow> IntermediateVertex" where
  "finalize_vertex v t b =
     (case normal v of
        None \<Rightarrow> v
      | Some n \<Rightarrow>
          (case (n, t) of ((n0, n1, n2), (t0, t1, t2)) \<Rightarrow>
             (let dot_nt = n0 * t0 + n1 * t1 + n2 * t2;
                  tx = t0 - n0 * dot_nt; ty = t1 - n1 * dot_nt; tz = t2 - n2 * dot_nt;
                  len = sqrt (tx * tx + ty * ty + tz * tz)
              in if len < 1 / 100000000 then v\<lparr> tangent := Some (0, 0, 0, 1) \<rparr>
                 else
                   (let inv_len = 1 / len;
                        cx = n1 * t2 - n2 * t1; cy = n2 * t0 - n0 * t2; cz = n0 * t1 - n1 * t0;
                        sign = (case b of (b0, b1, b2) \<Rightarrow>
                                  if cx * b0 + cy * b1 + cz * b2 < 0 then - 1 else 1)
                    in v\<lparr> tangent := Some (tx * inv_len, ty * inv_len, tz * inv_len, sign) \<rparr>))))"

definition generate_tangents :: "IntermediateModel \<Rightarrow> exn + IntermediateModel" where
  "generate_tangents model =
     (let vertex_count = length (vertices model) in
      if vertex_count = 0 then Inr model
      else if normal (vertices model ! 0) = None \<or> uv (vertices model ! 0) = None then Inr model
      else
        bind_exn (accumulate_all (vertices model)
                    (replicate vertex_count (0, 0, 0), replicate vertex_count (0, 0, 0))
                    (all_triangles model)) (\<lambda>(tan1, tan2).
        Inr (model\<lparr> vertices :=
               map (\<lambda>i. finalize_vertex (vertices model ! i) (tan1 ! i) (tan2 ! i))
                 [0..<vertex_count] \<rparr>)))"

text \<open>
  A sample: one triangle with axis-aligned UVs whose three vertices carry the normal
  \<open>(0, 0, 2)\<close>, which is not of unit length (the decomposer rotates the normals of a skinned
  mesh by the mesh-to-armature matrix, scale included, and does not normalise them).
\<close>

definition tangent_vertex :: "vec3 \<Rightarrow> real \<times> real \<Rightarrow> IntermediateVertex" where
  "tangent_vertex p t = \<lparr> position = p, normal = Some (0, 0, 2), uv = Some t, uv2 = None,
     tangent = None, color = None, bone_weights = None, bone_indices = None,
     blender_index = None \<rparr>"

definition tangent_model :: IntermediateModel where
  "tangent_model = \<lparr> model_name = ''tri'',
     vertices = [tangent_vertex (0, 0, 0) (0, 0), tangent_vertex (4, 0, 1) (1, 0),
                 tangent_vertex (0, 1, 0) (0, 1)],
     geometries = [\<lparr> material_name = '''', material_index = 0,
                      lod_levels = [\<lparr> distance = 0, triangles = [(0, 1, 2)] \<rparr>] \<rparr>],
     morphs = [], bones = [], animations = [], bbox_min = (0, 0, 0), bbox_max = (4, 1, 1) \<rparr>"

text \<open>
  A second sample with the unit normal \<open>(0, 0, 1)\<close> on a triangle in the plane \<open>z = 0\<close>.
\<close>

definition flat_vertex :: "vec3 \<Rightarrow> real \<times> real \<Rightarrow> IntermediateVertex" where
  "flat_vertex p t = \<lparr> position = p, normal = Some (0, 0, 1), uv = Some t, uv2 = None,
     tangent = None, color = None, bone_weights = None, bone_indices = None,
     blender_index = None \<rparr>"

definition flat_model :: IntermediateModel where
  "flat_model = tangent_model\<lparr> vertices :=
     [flat_vertex (0, 0, 0) (0, 0), flat_vertex (1, 0, 0) (1, 0), flat_vertex (0, 1, 0) (0, 1)] \<rparr>"

text \<open>
  Notions for stating the result: the Gram-Schmidt step \<open>t - n * dot(n, t)\<close> and the length of
  a vector. \<open>tangent_model_out\<close> is what \<open>generate_tangents\<close> returns on the sample.
\<close>

definition orthogonalize :: "vec3 \<Rightarrow> vec3 \<Rightarrow> vec3" where
  "orthogonalize n t = (case (n, t) of ((n0, n1, n2), (t0, t1, t2)) \<Rightarrow>
     (t0 - n0 * dot3 n t, t1 - n1 * dot3 n t, t2 - n2 * dot3 n t))"

definition norm3 :: "vec3 \<Rightarrow> real" where
  "norm3 v = sqrt (dot3 v v)"

definition tangent_model_out :: IntermediateModel where
  "tangent_model_out = tangent_model\<lparr> vertices :=
     [(tangent_vertex (0, 0, 0) (0, 0))\<lparr> tangent := Some (4 / 5, 0, - (3 / 5), 1) \<rparr>,
      (tangent_vertex (4, 0, 1) (1, 0))\<lparr> tangent := Some (4 / 5, 0, - (3 / 5), 1) \<rparr>,
      (tangent_vertex (0, 1, 0) (0, 1))\<lparr> tangent := Some (4 / 5, 0, - (3 / 5), 1) \<rparr>] \<rparr>"

definition flat_model_out :: IntermediateModel where
  "flat_model_out = flat_model\<lparr> vertices :=
     [(flat_vertex (0, 0, 0) (0, 0))\<lparr> tangent := Some (1, 0, 0, 1) \<rparr>,
      (flat_vertex (1, 0, 0) (1, 0))\<lparr> tangent := Some (1, 0, 0, 1) \<rparr>,
      (flat_vertex (0, 1, 0) (0, 1))\<lparr> tangent := Some (1, 0, 0, 1) \<rparr>] \<rparr>"

subsection \<open>Properties of the tangent generator\<close>

lemma finalize_vertex_fallback:
  assumes "normal v = Some n" and "norm3 (orthogonalize n t) < 1 / 100000000"
  shows "tangent (finalize_vertex v t b) = Some (0, 0, 0, 1)"
proof -
  obtain n0 n1 n2 where n: "n = (n0, n1, n2)" by (cases n)
  obtain t0 t1 t2 where t: "t = (t0, t1, t2)" by (cases t)
  from assms(2) show ?thesis
    by (simp add: finalize_vertex_def assms(1) n t norm3_def orthogonalize_def dot3_def Let_def)
qed

lemma finalize_vertex_tangent:
  assumes nv: "normal v = Some n" and big: "\<not> norm3 (orthogonalize n t) < 1 / 100000000"
  shows "\<exists>tx ty tz sgn. tangent (finalize_vertex v t b) = Some (tx, ty, tz, sgn) \<and>
           dot3 (tx, ty, tz) (tx, ty, tz) = 1 \<and>
           dot3 n (tx, ty, tz) = dot3 n t * (1 - dot3 n n) / norm3 (orthogonalize n t) \<and>
           sgn = (if dot3 (cross3 n (tx, ty, tz)) b < 0 then - 1 else 1)"
proof -
  obtain n0 n1 n2 where n: "n = (n0, n1, n2)" by (cases n)
  obtain t0 t1 t2 where t: "t = (t0, t1, t2)" by (cases t)
  obtain b0 b1 b2 where b: "b = (b0, b1, b2)" by (cases b)
  define d where "d = n0 * t0 + n1 * t1 + n2 * t2"
  define ox where "ox = t0 - n0 * d"
  define oy where "oy = t1 - n1 * d"
  define oz where "oz = t2 - n2 * d"
  define len where "len = sqrt (ox * ox + oy * oy + oz * oz)"
  define c where "c = (n1 * t2 - n2 * t1) * b0 + (n2 * t0 - n0 * t2) * b1 + (n0 * t1 - n1 * t0) * b2"
  have orth: "orthogonalize n t = (ox, oy, oz)"
    by (simp add: orthogonalize_def n t dot3_def ox_def oy_def oz_def d_def)
  have norm: "norm3 (orthogonalize n t) = len"
    by (simp add: orth norm3_def dot3_def len_def)
  from big have len_ge: "1 / 100000000 \<le> len" by (simp add: norm)
  then have len_pos: "0 < len" by simp
  have sq: "len * len = ox * ox + oy * oy + oz * oz"
  proof -
    have "0 \<le> ox * ox + oy * oy + oz * oz" by (simp add: add_nonneg_nonneg)
    then have "(sqrt (ox * ox + oy * oy + oz * oz))\<^sup>2 = ox * ox + oy * oy + oz * oz"
      by (rule real_sqrt_pow2)
    then show ?thesis by (simp add: len_def power2_eq_square)
  qed
  have tang: "tangent (finalize_vertex v t b) =
      Some (ox * (1 / len), oy * (1 / len), oz * (1 / len), if c < 0 then - 1 else 1)"
    using len_ge
    by (simp add: finalize_vertex_def nv n t b Let_def d_def [symmetric] ox_def [symmetric]
          oy_def [symmetric] oz_def [symmetric] len_def [symmetric] c_def not_less)
  have unit: "dot3 (ox * (1 / len), oy * (1 / len), oz * (1 / len))
                   (ox * (1 / len), oy * (1 / len), oz * (1 / len)) = 1"
  proof -
    have "dot3 (ox * (1 / len), oy * (1 / len), oz * (1 / len))
               (ox * (1 / len), oy * (1 / len), oz * (1 / len))
            = (ox * ox + oy * oy + oz * oz) / (len * len)"
      by (simp add: dot3_def add_divide_distrib)
    also have "\<dots> = 1" using len_pos by (simp add: sq [symmetric])
    finally show ?thesis .
  qed
  have dotn: "dot3 n (ox * (1 / len), oy * (1 / len), oz * (1 / len))
                = dot3 n t * (1 - dot3 n n) / len"
  proof -
    have "n0 * ox + n1 * oy + n2 * oz = d * (1 - (n0 * n0 + n1 * n1 + n2 * n2))"
      by (simp add: ox_def oy_def oz_def d_def algebra_simps)
    then have "(n0 * ox + n1 * oy + n2 * oz) / len = d * (1 - (n0 * n0 + n1 * n1 + n2 * n2)) / len"
      by simp
    then show ?thesis
      by (simp add: dot3_def n t d_def add_divide_distrib)
  qed
  have crossn: "dot3 (cross3 n (ox * (1 / len), oy * (1 / len), oz * (1 / len))) b = c / len"
  proof -
    have "(n1 * oz - n2 * oy) * b0 + (n2 * ox - n0 * oz) * b1 + (n0 * oy - n1 * ox) * b2 = c"
      by (simp add: ox_def oy_def oz_def c_def algebra_simps)
    moreover have "dot3 (cross3 n (ox * (1 / len), oy * (1 / len), oz * (1 / len))) b
        = ((n1 * oz - n2 * oy) * b0 + (n2 * ox - n0 * oz) * b1 + (n0 * oy - n1 * ox) * b2) / len"
      using len_pos by (simp add: dot3_def cross3_def n b field_simps)
    ultimately show ?thesis by simp
  qed
  have sign: "(c / len < 0) = (c < 0)"
    using len_pos by (simp add: divide_less_0_iff)
  show ?thesis
    using tang unit dotn crossn sign by (simp add: norm)
qed

lemma accumulate_triangle_degenerate:
  assumes "py_get vs i0 = Inr v0" and "py_get vs i1 = Inr v1" and "py_get vs i2 = Inr v2"
    and "uv v0 = Some (u0, w0)" and "uv v1 = Some (u1, w1)" and "uv v2 = Some (u2, w2)"
    and "\<bar>(u1 - u0) * (w2 - w0) - (u2 - u0) * (w1 - w0)\<bar> < 1 / 100000000"
  shows "accumulate_triangle vs acc (i0, i1, i2) = Inr acc"
  using assms
  by (cases acc) (simp add: accumulate_triangle_def bind_exn_def Let_def split: prod.split)

text \<open>
  Claim C7, as the code has it. When \<open>generate_tangents\<close> returns on a model whose vertex 0
  has a normal and a UV, every vertex with a normal \<open>n\<close> gets either the fallback tangent
  \<open>(0, 0, 0, 1)\<close>, exactly when the orthogonalised accumulated tangent is shorter than
  \<open>1e-8\<close>, or a tangent whose xyz part has unit length, with fourth component \<open>-1\<close> if
  \<open>dot(cross(n, tangent), accumulated bitangent) < 0\<close> and \<open>+1\<close> otherwise. Its xyz part is
  orthogonal to \<open>n\<close> when \<open>n\<close> has unit length (in general \<open>dot(n, tangent)\<close> is
  \<open>dot(n, t) * (1 - dot(n, n)) / length\<close> for the accumulated tangent \<open>t\<close>); vertices without a
  normal are left as they are. A triangle whose UV determinant is below \<open>1e-8\<close> in absolute
  value leaves both accumulators unchanged.
\<close>

theorem generate_tangents_per_vertex:
  assumes run: "generate_tangents model = Inr model'"
    and nonempty: "vertices model \<noteq> []"
    and v0: "normal (vertices model ! 0) \<noteq> None" "uv (vertices model ! 0) \<noteq> None"
    and i: "i < length (vertices model)"
  shows "\<exists>tan1 tan2.
           accumulate_all (vertices model)
             (replicate (length (vertices model)) (0, 0, 0),
              replicate (length (vertices model)) (0, 0, 0)) (all_triangles model) = Inr (tan1, tan2) \<and>
           length (vertices model') = length (vertices model) \<and>
           (case normal (vertices model ! i) of
              None \<Rightarrow> vertices model' ! i = vertices model ! i
            | Some n \<Rightarrow>
                if norm3 (orthogonalize n (tan1 ! i)) < 1 / 100000000
                then tangent (vertices model' ! i) = Some (0, 0, 0, 1)
                else (\<exists>tx ty tz sgn.
                        tangent (vertices model' ! i) = Some (tx, ty, tz, sgn) \<and>
                        dot3 (tx, ty, tz) (tx, ty, tz) = 1 \<and>
                        dot3 n (tx, ty, tz)
                          = dot3 n (tan1 ! i) * (1 - dot3 n n) / norm3 (orthogonalize n (tan1 ! i)) \<and>
                        (dot3 n n = 1 \<longrightarrow> dot3 n (tx, ty, tz) = 0) \<and>
                        sgn = (if dot3 (cross3 n (tx, ty, tz)) (tan2 ! i) < 0 then - 1 else 1))) \<and>
           (\<forall>vs acc i0 i1 i2 a0 a1 a2 u0 w0 u1 w1 u2 w2.
              py_get vs i0 = Inr a0 \<and> py_get vs i1 = Inr a1 \<and> py_get vs i2 = Inr a2 \<and>
              uv a0 = Some (u0, w0) \<and> uv a1 = Some (u1, w1) \<and> uv a2 = Some (u2, w2) \<and>
              \<bar>(u1 - u0) * (w2 - w0) - (u2 - u0) * (w1 - w0)\<bar> < 1 / 100000000
              \<longrightarrow> accumulate_triangle vs acc (i0, i1, i2) = Inr acc)"
proof -
  let ?n = "length (vertices model)"
  let ?acc = "accumulate_all (vertices model)
             (replicate ?n (0, 0, 0), replicate ?n (0, 0, 0)) (all_triangles model)"
  from nonempty have n0: "?n \<noteq> 0" by simp
  from run n0 v0 obtain tan1 tan2 where acc: "?acc = Inr (tan1, tan2)"
    and out: "model' = model\<lparr> vertices :=
               map (\<lambda>i. finalize_vertex (vertices model ! i) (tan1 ! i) (tan2 ! i)) [0..<?n] \<rparr>"
    by (cases ?acc) (auto simp: generate_tangents_def Let_def bind_exn_def)
  have len: "length (vertices model') = ?n" by (simp add: out)
  have vi: "vertices model' ! i = finalize_vertex (vertices model ! i) (tan1 ! i) (tan2 ! i)"
    using i by (simp add: out)
  have per_vertex: "(case normal (vertices model ! i) of
              None \<Rightarrow> vertices model' ! i = vertices model ! i
            | Some n \<Rightarrow>
                if norm3 (orthogonalize n (tan1 ! i)) < 1 / 100000000
                then tangent (vertices model' ! i) = Some (0, 0, 0, 1)
                else (\<exists>tx ty tz sgn.
                        tangent (vertices model' ! i) = Some (tx, ty, tz, sgn) \<and>
                        dot3 (tx, ty, tz) (tx, ty, tz) = 1 \<and>
                        dot3 n (tx, ty, tz)
                          = dot3 n (tan1 ! i) * (1 - dot3 n n) / norm3 (orthogonalize n (tan1 ! i)) \<and>
                        (dot3 n n = 1 \<longrightarrow> dot3 n (tx, ty, tz) = 0) \<and>
                        sgn = (if dot3 (cross3 n (tx, ty, tz)) (tan2 ! i) < 0 then - 1 else 1)))"
  proof (cases "normal (vertices model ! i)")
    case None
    then show ?thesis by (simp add: vi finalize_vertex_def)
  next
    case (Some n)
    show ?thesis
    proof (cases "norm3 (orthogonalize n (tan1 ! i)) < 1 / 100000000")
      case True
      with finalize_vertex_fallback [OF Some True, of "tan2 ! i"] Some show ?thesis
        by (simp add: vi)
    next
      case False
      from finalize_vertex_tangent [OF Some False, of "tan2 ! i"]
      obtain tx ty tz sgn where
        "tangent (vertices model' ! i) = Some (tx, ty, tz, sgn)"
        "dot3 (tx, ty, tz) (tx, ty, tz) = 1"
        "dot3 n (tx, ty, tz) = dot3 n (tan1 ! i) * (1 - dot3 n n) / norm3 (orthogonalize n (tan1 ! i))"
        "sgn = (if dot3 (cross3 n (tx, ty, tz)) (tan2 ! i) < 0 then - 1 else 1)"
        unfolding vi by blast
      with Some False show ?thesis by auto
    qed
  qed
  from acc len per_vertex accumulate_triangle_degenerate show ?thesis
    by blast
qed

lemma sqrt_25: "sqrt 25 = 5"
  using real_sqrt_abs [of 5] by simp

lemma generate_tangents_flat_model: "generate_tangents flat_model = Inr flat_model_out"
  by (simp add: generate_tangents_def flat_model_def flat_model_out_def tangent_model_def
        flat_vertex_def all_triangles_def accumulate_triangle_def bind_exn_def py_get_def
        add_at_def add3_def finalize_vertex_def Let_def upt_rec)

theorem generate_tangents_per_vertex_witness:
  "generate_tangents flat_model = Inr flat_model_out \<and>
   normal (vertices flat_model ! 0) = Some (0, 0, 1) \<and>
   tangent (vertices flat_model_out ! 0) = Some (1, 0, 0, 1) \<and>
   dot3 (0, 0, 1) (1, 0, 0) = 0"
proof -
  have run: "generate_tangents flat_model = Inr flat_model_out"
    by (rule generate_tangents_flat_model)
  have ne: "vertices flat_model \<noteq> []"
    and n0: "normal (vertices flat_model ! 0) \<noteq> None"
    and u0: "uv (vertices flat_model ! 0) \<noteq> None"
    and i: "0 < length (vertices flat_model)"
    by (simp_all add: flat_model_def flat_vertex_def)
  have n: "normal (vertices flat_model ! 0) = Some (0, 0, 1)"
    by (simp add: flat_model_def flat_vertex_def)
  have tg: "tangent (vertices flat_model_out ! 0) = Some (1, 0, 0, 1)"
    by (simp add: flat_model_out_def)
  have unit: "dot3 (0, 0, 1) (0, 0, 1) = 1" by (simp add: dot3_def)
  from generate_tangents_per_vertex [OF run ne n0 u0 i]
  obtain tan1 tan2 where
    "if norm3 (orthogonalize (0, 0, 1) (tan1 ! 0)) < 1 / 100000000
     then tangent (vertices flat_model_out ! 0) = Some (0, 0, 0, 1)
     else (\<exists>tx ty tz sgn.
             tangent (vertices flat_model_out ! 0) = Some (tx, ty, tz, sgn) \<and>
             dot3 (tx, ty, tz) (tx, ty, tz) = 1 \<and>
             dot3 (0, 0, 1) (tx, ty, tz)
               = dot3 (0, 0, 1) (tan1 ! 0) * (1 - dot3 (0, 0, 1) (0, 0, 1))
                   / norm3 (orthogonalize (0, 0, 1) (tan1 ! 0)) \<and>
             (dot3 (0, 0, 1) (0, 0, 1) = 1 \<longrightarrow> dot3 (0, 0, 1) (tx, ty, tz) = 0) \<and>
             sgn = (if dot3 (cross3 (0, 0, 1) (tx, ty, tz)) (tan2 ! 0) < 0 then - 1 else 1))"
    unfolding n by auto
  with tg unit have "dot3 (0, 0, 1) (1, 0, 0) = 0"
    by (auto split: if_splits)
  with run n tg show ?thesis by simp
qed

text \<open>
  The claim as the spec states it fails on the first sample: all three vertices carry the
  normal \<open>(0, 0, 2)\<close>, the stored tangent \<open>(4/5, 0, -3/5, 1)\<close> is not the fallback, and its xyz
  part is not orthogonal to the normal.
\<close>

theorem tangent_not_orthogonal_counterexample:
  "generate_tangents tangent_model = Inr tangent_model_out \<and>
   normal (vertices tangent_model ! 0) = Some (0, 0, 2) \<and>
   uv (vertices tangent_model ! 0) = Some (0, 0) \<and>
   tangent (vertices tangent_model_out ! 0) = Some (4 / 5, 0, - (3 / 5), 1) \<and>
   dot3 (0, 0, 2) (4 / 5, 0, - (3 / 5)) = - (6 / 5)"
  by (simp add: generate_tangents_def tangent_model_out_def tangent_model_def
        tangent_vertex_def all_triangles_def accumulate_triangle_def bind_exn_def py_get_def
        add_at_def add3_def finalize_vertex_def Let_def upt_rec sqrt_25 dot3_def)

section \<open>Bone remapping in the model writer (formats/model\_writer.py)\<close>

text \<open>
  \<^verbatim>\<open>_build_bone_maps\<close>. It reads the bone count, the geometries and the vertices of the model,
  writes the bone indices of vertices in place and logs warnings. The model takes the model
  and the logger; it returns the logger as the function leaves it, with either the
  dictionary and the model with its rewritten vertices, or the \<^verbatim>\<open>IndexError\<close> of a vertex
  index out of range (the warnings logged before the exception stay in the logger; the
  vertices rewritten before it are not returned).
  \<^item> \<open>vertex_used_bones\<close> is what one visit of a vertex adds to the set \<^verbatim>\<open>used_bones\<close>: nothing
    if \<^verbatim>\<open>bone_indices\<close> is \<^verbatim>\<open>None\<close> or empty, the indices whose weight exceeds \<open>0.0001\<close> if
    \<^verbatim>\<open>bone_weights\<close> is not empty, and all indices otherwise.
  \<^item> \<open>geometry_indices\<close> lists the vertex indices in the order of the three nested loops over
    LOD levels, triangles and corners; \<open>collect_used\<close> is the first such loop nest.
  \<^item> \<^verbatim>\<open>sorted(used_bones)\<close> of a set is \<open>sort (remdups used)\<close>.
  \<^item> \<open>remap_of\<close> is the dictionary \<^verbatim>\<open>remap\<close>, \<open>remap_vertices\<close> the second loop nest, which
    assigns \<^verbatim>\<open>v.bone_indices\<close> at every visit of a vertex.
\<close>

definition MAX_SKIN_MATRICES :: nat where
  "MAX_SKIN_MATRICES = 64"

definition truthy :: "'a list option \<Rightarrow> bool" where
  "truthy t = (case t of None \<Rightarrow> False | Some xs \<Rightarrow> xs \<noteq> [])"

definition vertex_used_bones :: "IntermediateVertex \<Rightarrow> int list" where
  "vertex_used_bones v =
     (if truthy (bone_indices v)
      then (if truthy (bone_weights v)
            then map fst (filter (\<lambda>(bi, bw). bw > 0.0001)
                   (zip (case bone_indices v of Some bis \<Rightarrow> bis | None \<Rightarrow> [])
                        (case bone_weights v of Some bws \<Rightarrow> bws | None \<Rightarrow> [])))
            else (case bone_indices v of Some bis \<Rightarrow> bis | None \<Rightarrow> []))
      else [])"

definition geometry_indices :: "IntermediateGeometry \<Rightarrow> int list" where
  "geometry_indices geom =
     concat (map (\<lambda>lod. concat (map (\<lambda>(a, b, c). [a, b, c]) (triangles lod))) (lod_levels geom))"

fun collect_used :: "IntermediateVertex list \<Rightarrow> int list \<Rightarrow> int list \<Rightarrow> exn + int list" where
  "collect_used vs used [] = Inr used"
| "collect_used vs used (vi # rest) =
     bind_exn (py_get vs vi) (\<lambda>v. collect_used vs (used @ vertex_used_bones v) rest)"

definition remap_of :: "int list \<Rightarrow> (int \<rightharpoonup> int)" where
  "remap_of bone_list =
     foldl (\<lambda>m (local_idx, global_idx). m(global_idx \<mapsto> int local_idx)) Map.empty
       (zip [0..<length bone_list] bone_list)"

definition remap_get :: "int list \<Rightarrow> int \<Rightarrow> int" where
  "remap_get bone_list bi = (case remap_of bone_list bi of Some l \<Rightarrow> l | None \<Rightarrow> 0)"

fun remap_vertices ::
  "int list \<Rightarrow> IntermediateVertex list \<Rightarrow> int list \<Rightarrow> exn + IntermediateVertex list" where
  "remap_vertices bone_list vs [] = Inr vs"
| "remap_vertices bone_list vs (vi # rest) =
     bind_exn (py_get vs vi) (\<lambda>v.
       remap_vertices bone_list
         (if truthy (bone_indices v)
          then vs[py_position (length vs) vi :=
                    v\<lparr> bone_indices := map_option (map (remap_get bone_list)) (bone_indices v) \<rparr>]
          else vs)
         rest)"

type_synonym bone_maps = "nat \<rightharpoonup> int list"

fun bone_maps_loop ::
  "string \<Rightarrow> nat \<Rightarrow> IntermediateGeometry list
     \<Rightarrow> IntermediateVertex list \<times> ExportLogger \<times> bone_maps
     \<Rightarrow> ExportLogger \<times> (exn + IntermediateVertex list \<times> bone_maps)" where
  "bone_maps_loop mname gi [] (vs, logger, result) = (logger, Inr (vs, result))"
| "bone_maps_loop mname gi (geom # rest) (vs, logger, result) =
     (case collect_used vs [] (geometry_indices geom) of
        Inl e \<Rightarrow> (logger, Inl e)
      | Inr used_bones \<Rightarrow>
          (let sorted_bones = sort (remdups used_bones);
               over = (length sorted_bones > MAX_SKIN_MATRICES);
               logger1 = (if over
                       then log_warning (''Geometry '' @ show_nat gi @ '' of '' @ quoted mname
                              @ '' uses '' @ show_nat (length sorted_bones)
                              @ '' bones, truncating to '' @ show_nat MAX_SKIN_MATRICES) logger
                       else logger);
               bone_list = (if over then take MAX_SKIN_MATRICES sorted_bones else sorted_bones)
           in case remap_vertices bone_list vs (geometry_indices geom) of
                Inl e \<Rightarrow> (logger1, Inl e)
              | Inr vs1 \<Rightarrow>
                  bone_maps_loop mname (Suc gi) rest (vs1, logger1, result(gi \<mapsto> bone_list))))"

definition build_bone_maps ::
  "IntermediateModel \<Rightarrow> ExportLogger \<Rightarrow> ExportLogger \<times> (exn + bone_maps \<times> IntermediateModel)" where
  "build_bone_maps model logger =
     (if length (bones model) \<le> MAX_SKIN_MATRICES
      then (logger,
            Inr ((\<lambda>gi. if gi < length (geometries model)
                       then Some (map int [0..<length (bones model)]) else None),
                 model))
      else
        (let logger0 = log_warning (''Model '' @ quoted (model_name model)
                      @ '' has '' @ show_nat (length (bones model))
                      @ '' bones, exceeding limit of '' @ show_nat MAX_SKIN_MATRICES
                      @ ''. Remapping per geometry.'') logger
         in case bone_maps_loop (model_name model) 0 (geometries model)
                   (vertices model, logger0, Map.empty) of
              (logger1, outcome) \<Rightarrow>
                (logger1, bind_exn outcome (\<lambda>(vs, result).
                            Inr (result, model\<lparr> vertices := vs \<rparr>)))))"

text \<open>
  What the documentation of \<^verbatim>\<open>_build_bone_maps\<close> promises for a geometry: the global bone
  indices used by that geometry, that is by its vertices as the model has them when the
  function is called, in ascending order.
\<close>

definition geometry_used_bones :: "IntermediateModel \<Rightarrow> IntermediateGeometry \<Rightarrow> exn + int list" where
  "geometry_used_bones model geom =
     bind_exn (collect_used (vertices model) [] (geometry_indices geom)) (\<lambda>used.
       Inr (sort (remdups used)))"

text \<open>
  A sample: 65 bones, four skinned vertices bound to bones 64, 10, 20 and 30, and two
  geometries (two materials) whose triangles share the edge between vertices 1 and 2.
\<close>

definition skinned_vertex :: "int \<Rightarrow> IntermediateVertex" where
  "skinned_vertex b = \<lparr> position = (0, 0, 0), normal = None, uv = None, uv2 = None,
     tangent = None, color = None, bone_weights = Some [1, 0, 0, 0],
     bone_indices = Some [b, 0, 0, 0], blender_index = None \<rparr>"

definition plain_bone :: IntermediateBone where
  "plain_bone = \<lparr> bone_name = ''bone'', index = 0, parent_index = 0, bind_position = (0, 0, 0),
     bind_rotation = (1, 0, 0, 0), bind_scale = (1, 1, 1), inverse_bind_matrix = None,
     collision_mask = 0, bounding_sphere_radius = 0, bounding_box_min = None,
     bounding_box_max = None \<rparr>"

definition single_lod :: "int \<Rightarrow> triangle list \<Rightarrow> IntermediateGeometry" where
  "single_lod m ts = \<lparr> material_name = '''', material_index = m,
     lod_levels = [\<lparr> distance = 0, triangles = ts \<rparr>] \<rparr>"

definition skinned_model :: IntermediateModel where
  "skinned_model = \<lparr> model_name = ''body'',
     vertices = [skinned_vertex 64, skinned_vertex 10, skinned_vertex 20, skinned_vertex 30],
     geometries = [single_lod 0 [(0, 1, 2)], single_lod 1 [(2, 1, 3)]],
     morphs = [], bones = replicate 65 plain_bone, animations = [],
     bbox_min = (0, 0, 0), bbox_max = (0, 0, 0) \<rparr>"

definition empty_log :: ExportLogger where
  "empty_log = \<lparr> max_messages = 500, messages = [] \<rparr>"

subsection \<open>The table of a geometry that shares vertices with an earlier one\<close>

text \<open>
  Claim C5 at the sample. The model has 65 bones, so each geometry gets a table of the
  bones found on its vertices. The first geometry gets \<open>[10, 20, 64]\<close>, and its remapping
  rewrites the bone indices of vertices 0, 1 and 2 in place to 2, 0 and 1. The second
  geometry uses vertices 2, 1 and 3, which are bound to the bones 20, 10 and 30; the table it
  gets is \<open>[0, 1, 30]\<close>, built from the indices the first geometry left behind, and not
  \<open>[10, 20, 30]\<close>.
\<close>

theorem build_bone_maps_shared_vertex:
  "map_sum id (\<lambda>(result, model). (result 0, result 1, map bone_indices (vertices model)))
     (snd (build_bone_maps skinned_model empty_log))
     = Inr (Some [10, 20, 64], Some [0, 1, 30],
            [Some [2, 0, 0, 0], Some [0, 0, 0, 0], Some [1, 0, 0, 0], Some [2, 0, 0, 0]]) \<and>
   geometry_used_bones skinned_model (geometries skinned_model ! 0) = Inr [10, 20, 64] \<and>
   geometry_used_bones skinned_model (geometries skinned_model ! 1) = Inr [10, 20, 30]"
  by (simp add: build_bone_maps_def geometry_used_bones_def skinned_model_def skinned_vertex_def
        single_lod_def geometry_indices_def vertex_used_bones_def truthy_def py_get_def
        py_position_def bind_exn_def remap_get_def remap_of_def MAX_SKIN_MATRICES_def
        Let_def upt_rec)

section \<open>Binary writers (formats/binary\_writer.py, animation\_writer.py, model\_writer.py)\<close>

subsection \<open>\<open>BinaryWriter\<close> and the context manager \<open>binary_file\<close>\<close>

text \<open>
  The buffer of a \<^verbatim>\<open>BinaryWriter\<close> is a list of bytes, each a number below 256. A \<open>writer_step\<close> is
  a step on the writer that either returns the writer with bytes appended or raises.
  \<^item> \<open>pack_unsigned k v\<close> is \<^verbatim>\<open>struct.pack\<close> for the unsigned little-endian formats \<^verbatim>\<open><B\<close>, \<^verbatim>\<open><H\<close>
    and \<^verbatim>\<open><I\<close> (\<open>k\<close> = 1, 2, 4 bytes): it raises \<^verbatim>\<open>struct.error\<close> when \<open>v\<close> is negative or does not
    fit, with the message \<open>range_error\<close> (the wording of CPython 3.11 on a 64-bit host).
  \<^item> The encoding of a float as four bytes (\<^verbatim>\<open>struct.pack('<f', v)\<close>, which raises
    \<^verbatim>\<open>OverflowError\<close> when \<open>v\<close> is too large) is the parameter \<open>enc\<close> of every function that
    writes a float.
  \<^item> \<open>write_ascii\<close> encodes with \<^verbatim>\<open>errors='replace'\<close>: a character outside ASCII becomes \<open>?\<close>.
  \<^item> The file system is a map from path to content. \<open>disk path data\<close> stands for the host on
    \<^verbatim>\<open>open(filepath, 'wb')\<close> and \<^verbatim>\<open>tofile\<close>: \<open>None\<close> when the file is written whole, or the
    exception raised together with the content the file is left with (\<open>None\<close> if it was not
    created).
  \<open>binary_file\<close> is the context manager: it runs the body of the \<^verbatim>\<open>with\<close> block on a fresh
  writer and calls \<open>save\<close> after it; an exception of the body leaves the generator at its
  \<^verbatim>\<open>yield\<close>, so \<open>save\<close> is not reached.
\<close>

type_synonym byte = nat

record BinaryWriter =
  buffer :: "byte list"

type_synonym writer_step = "BinaryWriter \<Rightarrow> exn + BinaryWriter"

type_synonym float_encoder = "real \<Rightarrow> exn + byte list"

type_synonym file_system = "string \<rightharpoonup> byte list"

type_synonym disk = "string \<Rightarrow> byte list \<Rightarrow> (exn \<times> byte list option) option"

definition append_bytes :: "byte list \<Rightarrow> writer_step" where
  "append_bytes bs w = Inr (w\<lparr> buffer := buffer w @ bs \<rparr>)"

definition raise_exn :: "exn \<Rightarrow> writer_step" where
  "raise_exn e w = Inl e"

fun steps :: "writer_step list \<Rightarrow> writer_step" where
  "steps [] w = Inr w"
| "steps (f # fs) w = bind_exn (f w) (steps fs)"

definition for_each :: "('a \<Rightarrow> writer_step) \<Rightarrow> 'a list \<Rightarrow> writer_step" where
  "for_each f xs = steps (map f xs)"

definition write_if :: "bool \<Rightarrow> writer_step \<Rightarrow> writer_step" where
  "write_if c f = (if c then f else append_bytes [])"

definition little_endian :: "nat \<Rightarrow> nat \<Rightarrow> byte list" where
  "little_endian k v = map (\<lambda>i. (v div 256 ^ i) mod 256) [0..<k]"

definition range_error :: "nat \<Rightarrow> int \<Rightarrow> exn" where
  "range_error k v =
     StructError
       (if k = 1 then ''ubyte format requires 0 <= number <= 255''
        else if k = 2 then ''ushort format requires 0 <= number <= 65535''
        else if v < 0 \<or> 2 ^ 64 \<le> v then ''argument out of range''
        else quoted ''I'' @ '' format requires 0 <= number <= 4294967295'')"

definition pack_unsigned :: "nat \<Rightarrow> int \<Rightarrow> exn + byte list" where
  "pack_unsigned k v =
     (if 0 \<le> v \<and> v < 256 ^ k then Inr (little_endian k (nat v))
      else Inl (range_error k v))"

definition write_packed :: "exn + byte list \<Rightarrow> writer_step" where
  "write_packed p w = bind_exn p (\<lambda>bs. append_bytes bs w)"

definition write_ascii :: "string \<Rightarrow> writer_step" where
  "write_ascii s = append_bytes (map (\<lambda>c. if (of_char c :: nat) < 128 then of_char c else 63) s)"

definition write_uint :: "int \<Rightarrow> writer_step" where
  "write_uint v = write_packed (pack_unsigned 4 v)"

definition write_ushort :: "int \<Rightarrow> writer_step" where
  "write_ushort v = write_packed (pack_unsigned 2 v)"

definition write_ubyte :: "int \<Rightarrow> writer_step" where
  "write_ubyte v = write_packed (pack_unsigned 1 v)"

definition write_cstring :: "string \<Rightarrow> writer_step" where
  "write_cstring s = steps [write_ascii s, write_ubyte 0]"

definition pack_floats :: "float_encoder \<Rightarrow> real list \<Rightarrow> exn + byte list" where
  "pack_floats enc vs =
     foldr (\<lambda>v rest. bind_exn (enc v) (\<lambda>bs. bind_exn rest (\<lambda>more. Inr (bs @ more)))) vs (Inr [])"

definition write_float :: "float_encoder \<Rightarrow> real \<Rightarrow> writer_step" where
  "write_float enc v = write_packed (pack_floats enc [v])"

definition write_vector3 :: "float_encoder \<Rightarrow> (real \<times> real \<times> real) option \<Rightarrow> writer_step" where
  "write_vector3 enc v =
     (case v of
        None \<Rightarrow> raise_exn none_not_subscriptable
      | Some (x, y, z) \<Rightarrow> write_packed (pack_floats enc [x, y, z]))"

definition write_vector2 :: "float_encoder \<Rightarrow> real \<times> real \<Rightarrow> writer_step" where
  "write_vector2 enc v = (case v of (x, y) \<Rightarrow> write_packed (pack_floats enc [x, y]))"

definition write_quaternion :: "float_encoder \<Rightarrow> real \<times> real \<times> real \<times> real \<Rightarrow> writer_step" where
  "write_quaternion enc q = (case q of (qw, x, y, z) \<Rightarrow> write_packed (pack_floats enc [qw, x, y, z]))"

definition write_color_ubyte4 :: "int \<times> int \<times> int \<times> int \<Rightarrow> writer_step" where
  "write_color_ubyte4 c =
     (case c of (r, g, b, a) \<Rightarrow>
        write_packed
          (bind_exn (pack_unsigned 1 r) (\<lambda>br. bind_exn (pack_unsigned 1 g) (\<lambda>bg.
           bind_exn (pack_unsigned 1 b) (\<lambda>bb. bind_exn (pack_unsigned 1 a) (\<lambda>ba.
           Inr (br @ bg @ bb @ ba)))))))"

definition write_matrix3x4 :: "float_encoder \<Rightarrow> real list list \<Rightarrow> writer_step" where
  "write_matrix3x4 enc matrix_rows =
     for_each (\<lambda>row. for_each (write_float enc) (take 4 row)) (take 3 matrix_rows)"

definition save :: "disk \<Rightarrow> string \<Rightarrow> BinaryWriter \<Rightarrow> file_system \<Rightarrow> file_system \<times> exn option" where
  "save dsk filepath w fs =
     (case dsk filepath (buffer w) of
        None \<Rightarrow> (fs(filepath \<mapsto> buffer w), None)
      | Some (e, left) \<Rightarrow>
          ((case left of None \<Rightarrow> fs | Some part \<Rightarrow> fs(filepath \<mapsto> part)), Some e))"

definition binary_file :: "disk \<Rightarrow> string \<Rightarrow> writer_step \<Rightarrow> file_system \<Rightarrow> file_system \<times> exn option" where
  "binary_file dsk filepath body fs =
     (case body \<lparr> buffer = [] \<rparr> of
        Inl e \<Rightarrow> (fs, Some e)
      | Inr w \<Rightarrow> save dsk filepath w fs)"

subsection \<open>\<open>write_animation\<close>\<close>

text \<open>
  \<open>animation_body\<close> is the body of the \<^verbatim>\<open>with\<close> block of \<^verbatim>\<open>write_animation\<close>, \<open>track_mask\<close> the
  element mask taken from the first keyframe of a track. A test \<^verbatim>\<open>mask & FLAG\<close> of a mask that
  is a sum of distinct flags is the presence of the flag.
\<close>

definition TRACK_POSITION :: int where "TRACK_POSITION = 1"
definition TRACK_ROTATION :: int where "TRACK_ROTATION = 2"
definition TRACK_SCALE :: int where "TRACK_SCALE = 4"

definition ANIMATION_MAGIC :: string where "ANIMATION_MAGIC = ''UANI''"

definition track_mask :: "IntermediateTrack \<Rightarrow> bool \<times> bool \<times> bool" where
  "track_mask track =
     (case keyframes track of
        [] \<Rightarrow> (False, False, False)
      | kf0 # _ \<Rightarrow> (kf_position kf0 \<noteq> None, kf_rotation kf0 \<noteq> None, kf_scale kf0 \<noteq> None))"

definition mask_value :: "bool \<times> bool \<times> bool \<Rightarrow> int" where
  "mask_value m = (case m of (p, r, s) \<Rightarrow>
     (if p then TRACK_POSITION else 0) + (if r then TRACK_ROTATION else 0)
       + (if s then TRACK_SCALE else 0))"

definition write_keyframe :: "float_encoder \<Rightarrow> bool \<times> bool \<times> bool \<Rightarrow> IntermediateTrackKeyframe \<Rightarrow> writer_step" where
  "write_keyframe enc m kf = (case m of (p, r, s) \<Rightarrow>
     steps [write_float enc (time kf),
            write_if p (write_vector3 enc
                      (Some (case kf_position kf of Some v \<Rightarrow> v | None \<Rightarrow> (0, 0, 0)))),
            write_if r (write_quaternion enc
                      (case kf_rotation kf of Some q \<Rightarrow> q | None \<Rightarrow> (1, 0, 0, 0))),
            write_if s (write_vector3 enc
                      (Some (case kf_scale kf of Some v \<Rightarrow> v | None \<Rightarrow> (1, 1, 1))))])"

definition write_track :: "float_encoder \<Rightarrow> IntermediateTrack \<Rightarrow> writer_step" where
  "write_track enc track =
     steps [write_cstring (track_name track),
            write_ubyte (mask_value (track_mask track)),
            write_uint (int (length (keyframes track))),
            for_each (write_keyframe enc (track_mask track)) (keyframes track)]"

definition animation_body :: "float_encoder \<Rightarrow> IntermediateAnimation \<Rightarrow> writer_step" where
  "animation_body enc anim =
     steps [write_ascii ANIMATION_MAGIC,
            write_cstring (anim_name anim),
            write_float enc (duration anim),
            write_uint (int (length (tracks anim))),
            for_each (write_track enc) (tracks anim)]"

definition write_animation ::
  "float_encoder \<Rightarrow> disk \<Rightarrow> IntermediateAnimation \<Rightarrow> string \<Rightarrow> file_system \<times> ExportLogger
     \<Rightarrow> (file_system \<times> ExportLogger) \<times> bool" where
  "write_animation enc dsk anim filepath st =
     (case st of (fs, logger) \<Rightarrow>
        if tracks anim = []
        then ((fs, log_warning (''Animation '' @ quoted (anim_name anim) @ '' has no tracks'') logger),
              False)
        else
          (case binary_file dsk filepath (animation_body enc anim) fs of
             (fs1, Some e) \<Rightarrow>
               ((fs1, log_error (''Failed to write animation '' @ quoted filepath @ '': ''
                                  @ exn_message e) logger), False)
           | (fs1, None) \<Rightarrow>
               ((fs1, log_info (''Written animation: '' @ filepath) logger), True)))"

subsection \<open>\<open>write_model\<close>\<close>

text \<open>
  The constants of data/urho\_model.py, and \<^verbatim>\<open>compute_element_mask\<close> as the sum of the flags
  that are set (the flags are distinct bits).
\<close>

definition ELEMENT_POSITION :: int where "ELEMENT_POSITION = 0x0001"
definition ELEMENT_NORMAL :: int where "ELEMENT_NORMAL = 0x0002"
definition ELEMENT_COLOR :: int where "ELEMENT_COLOR = 0x0004"
definition ELEMENT_UV1 :: int where "ELEMENT_UV1 = 0x0008"
definition ELEMENT_UV2 :: int where "ELEMENT_UV2 = 0x0010"
definition ELEMENT_TANGENT :: int where "ELEMENT_TANGENT = 0x0080"
definition ELEMENT_BWEIGHTS :: int where "ELEMENT_BWEIGHTS = 0x0100"
definition ELEMENT_BINDICES :: int where "ELEMENT_BINDICES = 0x0200"
definition ELEMENT_BLEND :: int where "ELEMENT_BLEND = ELEMENT_BWEIGHTS + ELEMENT_BINDICES"
definition PRIMITIVE_TRIANGLE_LIST :: int where "PRIMITIVE_TRIANGLE_LIST = 0"
definition MODEL_MAGIC :: string where "MODEL_MAGIC = ''UMDL''"

record vertex_layout =
  has_normal :: bool
  has_uv1 :: bool
  has_uv2 :: bool
  has_color :: bool
  has_tangent :: bool
  has_weights :: bool

definition layout_of :: "IntermediateVertex \<Rightarrow> vertex_layout" where
  "layout_of v0 = \<lparr> has_normal = (normal v0 \<noteq> None), has_uv1 = (uv v0 \<noteq> None),
     has_uv2 = (uv2 v0 \<noteq> None), has_color = (color v0 \<noteq> None),
     has_tangent = (tangent v0 \<noteq> None), has_weights = (bone_weights v0 \<noteq> None) \<rparr>"

definition compute_element_mask :: "vertex_layout \<Rightarrow> int" where
  "compute_element_mask l =
     ELEMENT_POSITION
     + (if has_normal l then ELEMENT_NORMAL else 0)
     + (if has_color l then ELEMENT_COLOR else 0)
     + (if has_uv1 l then ELEMENT_UV1 else 0)
     + (if has_uv2 l then ELEMENT_UV2 else 0)
     + (if has_tangent l then ELEMENT_TANGENT else 0)
     + (if has_weights l then ELEMENT_BLEND else 0)"

text \<open>
  \<^verbatim>\<open>_compute_bone_bounds\<close>. \<open>matrix_entry\<close> reads \<^verbatim>\<open>ibm[r][c]\<close>; \<open>bone_points\<close> is the loop over the
  vertices, which yields for every influence kept the position of the bone in the bone list
  and the vertex position in the space of that bone; \<open>bounded_bone\<close> is the body of the loop
  over the bones.
\<close>

definition matrix_entry :: "real list list \<Rightarrow> int \<Rightarrow> int \<Rightarrow> exn + real" where
  "matrix_entry ibm r c = bind_exn (py_get ibm r) (\<lambda>row. py_get row c)"

definition matrix_row_apply :: "real list list \<Rightarrow> int \<Rightarrow> vec3 \<Rightarrow> exn + real" where
  "matrix_row_apply ibm r p = (case p of (px, py, pz) \<Rightarrow>
     bind_exn (matrix_entry ibm r 0) (\<lambda>m0. bind_exn (matrix_entry ibm r 1) (\<lambda>m1.
     bind_exn (matrix_entry ibm r 2) (\<lambda>m2. bind_exn (matrix_entry ibm r 3) (\<lambda>m3.
     Inr (m0 * px + m1 * py + m2 * pz + m3))))))"

fun influence_points ::
  "IntermediateBone list \<Rightarrow> vec3 \<Rightarrow> (int \<times> real) list \<Rightarrow> exn + (nat \<times> vec3) list" where
  "influence_points bs p [] = Inr []"
| "influence_points bs p ((bi_idx, bw) # rest) =
     (if bw < 0.001 \<or> bi_idx \<ge> int (length bs) then influence_points bs p rest
      else
        bind_exn (py_get bs bi_idx) (\<lambda>bone.
        if \<not> truthy (inverse_bind_matrix bone) then influence_points bs p rest
        else
          (let ibm = (case inverse_bind_matrix bone of Some m \<Rightarrow> m | None \<Rightarrow> []) in
           bind_exn (matrix_row_apply ibm 0 p) (\<lambda>lx.
           bind_exn (matrix_row_apply ibm 1 p) (\<lambda>ly.
           bind_exn (matrix_row_apply ibm 2 p) (\<lambda>lz.
           bind_exn (influence_points bs p rest) (\<lambda>more.
           Inr ((py_position (length bs) bi_idx, (lx, ly, lz)) # more))))))))"

fun bone_points :: "IntermediateBone list \<Rightarrow> IntermediateVertex list \<Rightarrow> exn + (nat \<times> vec3) list" where
  "bone_points bs [] = Inr []"
| "bone_points bs (v # rest) =
     (if \<not> truthy (bone_weights v) \<or> \<not> truthy (bone_indices v) then bone_points bs rest
      else
        bind_exn (influence_points bs (position v)
                    (zip (case bone_indices v of Some bis \<Rightarrow> bis | None \<Rightarrow> [])
                         (case bone_weights v of Some bws \<Rightarrow> bws | None \<Rightarrow> []))) (\<lambda>here.
        bind_exn (bone_points bs rest) (\<lambda>more. Inr (here @ more))))"

fun least :: "real list \<Rightarrow> real" where
  "least [] = 0"
| "least [x] = x"
| "least (x # y # ys) = min x (least (y # ys))"

fun greatest :: "real list \<Rightarrow> real" where
  "greatest [] = 0"
| "greatest [x] = x"
| "greatest (x # y # ys) = max x (greatest (y # ys))"

definition bounded_bone :: "vec3 list \<Rightarrow> IntermediateBone \<Rightarrow> IntermediateBone" where
  "bounded_bone verts bone =
     (if verts = []
      then bone\<lparr> collision_mask := 3, bounding_sphere_radius := 0.1,
                 bounding_box_min := Some (- 0.1, - 0.1, - 0.1),
                 bounding_box_max := Some (0.1, 0.1, 0.1) \<rparr>
      else
        (let xs = map fst verts; ys = map (fst \<circ> snd) verts; zs = map (snd \<circ> snd) verts;
             radius = foldl (\<lambda>r (lx, ly, lz).
                               let d = sqrt (lx * lx + ly * ly + lz * lz) in if d > r then d else r)
                        0 verts
         in bone\<lparr> collision_mask := 3, bounding_sphere_radius := radius,
                  bounding_box_min := Some (least xs, least ys, least zs),
                  bounding_box_max := Some (greatest xs, greatest ys, greatest zs) \<rparr>))"

definition compute_bone_bounds ::
  "IntermediateModel \<Rightarrow> ExportLogger \<Rightarrow> exn + IntermediateModel \<times> ExportLogger" where
  "compute_bone_bounds model logger =
     (if bones model = [] then Inr (model, logger)
      else
        bind_exn (bone_points (bones model) (vertices model)) (\<lambda>points.
        Inr (model\<lparr> bones :=
               map (\<lambda>bi. bounded_bone (map snd (filter (\<lambda>(pos, pt). pos = bi) points))
                            (bones model ! bi))
                 [0..<length (bones model)] \<rparr>,
             log_info (''Computed bone bounding data for '' @ show_nat (length (bones model))
                        @ '' bones'') logger)))"

text \<open>
  \<^verbatim>\<open>_compute_geometry_center\<close>: \<open>center_loop\<close> is its loop, with the set \<^verbatim>\<open>seen\<close> as a list.
\<close>

fun center_loop ::
  "IntermediateVertex list \<Rightarrow> int list \<Rightarrow> vec3 \<times> nat \<Rightarrow> int list \<Rightarrow> exn + vec3 \<times> nat" where
  "center_loop vs seen acc [] = Inr acc"
| "center_loop vs seen acc (idx # rest) =
     (if idx \<in> set seen then center_loop vs seen acc rest
      else
        bind_exn (py_get vs idx) (\<lambda>v.
        case (acc, position v) of (((sx, sy, sz), cnt), (px, py, pz)) \<Rightarrow>
          center_loop vs (idx # seen) ((sx + px, sy + py, sz + pz), Suc cnt) rest))"

definition compute_geometry_center :: "IntermediateModel \<Rightarrow> IntermediateGeometry \<Rightarrow> exn + vec3" where
  "compute_geometry_center model geom =
     bind_exn (center_loop (vertices model) [] ((0, 0, 0), 0) (geometry_indices geom)) (\<lambda>r.
     case r of ((sx, sy, sz), cnt) \<Rightarrow>
       if cnt = 0 then Inr (0, 0, 0)
       else Inr (sx / real cnt, sy / real cnt, sz / real cnt))"

text \<open>
  What \<^verbatim>\<open>write_model\<close> computes before the \<^verbatim>\<open>with\<close> block: the flat index list, the range of
  every LOD level in it, and the range of vertices touched by morphs.
\<close>

fun lod_ranges :: "nat \<Rightarrow> IntermediateLodLevel list \<Rightarrow> (nat \<times> nat) list" where
  "lod_ranges start [] = []"
| "lod_ranges start (lod # rest) =
     (start, 3 * length (triangles lod)) # lod_ranges (start + 3 * length (triangles lod)) rest"

fun geom_lod_ranges :: "nat \<Rightarrow> IntermediateGeometry list \<Rightarrow> (nat \<times> nat) list list" where
  "geom_lod_ranges start [] = []"
| "geom_lod_ranges start (geom # rest) =
     lod_ranges start (lod_levels geom)
     # geom_lod_ranges (start + length (geometry_indices geom)) rest"

fun least_int :: "int list \<Rightarrow> int" where
  "least_int [] = 0"
| "least_int [x] = x"
| "least_int (x # y # ys) = min x (least_int (y # ys))"

fun greatest_int :: "int list \<Rightarrow> int" where
  "greatest_int [] = 0"
| "greatest_int [x] = x"
| "greatest_int (x # y # ys) = max x (greatest_int (y # ys))"

definition morph_range :: "IntermediateMorph list \<Rightarrow> int \<times> int" where
  "morph_range ms =
     (let affected = concat (map (\<lambda>morph. map vertex_index (morph_vertices morph)) ms)
      in if affected = [] then (0, 0)
         else (least_int affected, greatest_int affected - least_int affected + 1))"

text \<open>
  The body of the \<^verbatim>\<open>with\<close> block, section by section.
\<close>

definition padded4 :: "'a \<Rightarrow> 'a list \<Rightarrow> 'a list" where
  "padded4 d xs = map (\<lambda>i. if i < length xs then xs ! i else d) [0..<4]"

definition write_vertex :: "float_encoder \<Rightarrow> vertex_layout \<Rightarrow> IntermediateVertex \<Rightarrow> writer_step" where
  "write_vertex enc l v =
     steps [write_vector3 enc (Some (position v)),
            write_if (has_normal l) (write_vector3 enc (normal v)),
            write_if (has_color l)
              (write_color_ubyte4 (case color v of Some c \<Rightarrow> c | None \<Rightarrow> (255, 255, 255, 255))),
            write_if (has_uv1 l) (write_vector2 enc (case uv v of Some t \<Rightarrow> t | None \<Rightarrow> (0, 0))),
            write_if (has_uv2 l) (write_vector2 enc (case uv2 v of Some t \<Rightarrow> t | None \<Rightarrow> (0, 0))),
            write_if (has_tangent l)
              (case (case tangent v of Some t \<Rightarrow> t | None \<Rightarrow> (0, 0, 0, 1)) of
                 (t0, t1, t2, t3) \<Rightarrow> for_each (write_float enc) [t0, t1, t2, t3]),
            write_if (has_weights l)
              (steps [for_each (write_float enc)
                        (padded4 0 (if truthy (bone_weights v)
                                    then (case bone_weights v of Some bw \<Rightarrow> bw | None \<Rightarrow> [])
                                    else [0, 0, 0, 0])),
                      for_each write_ubyte
                        (padded4 0 (if truthy (bone_indices v)
                                    then (case bone_indices v of Some bi \<Rightarrow> bi | None \<Rightarrow> [])
                                    else [0, 0, 0, 0]))])]"

definition write_lod :: "float_encoder \<Rightarrow> IntermediateLodLevel \<times> nat \<times> nat \<Rightarrow> writer_step" where
  "write_lod enc x = (case x of (lod, start, cnt) \<Rightarrow>
     steps [write_float enc (distance lod), write_uint PRIMITIVE_TRIANGLE_LIST, write_uint 0,
            write_uint 0, write_uint (int start), write_uint (int cnt)])"

definition write_geometry ::
  "float_encoder \<Rightarrow> bone_maps \<Rightarrow> nat \<times> IntermediateGeometry \<times> (nat \<times> nat) list \<Rightarrow> writer_step" where
  "write_geometry enc bmaps x = (case x of (gi, geom, ranges) \<Rightarrow>
     steps [(case bmaps gi of
               Some bmap \<Rightarrow> steps [write_uint (int (length bmap)), for_each write_uint bmap]
             | None \<Rightarrow> write_uint 0),
            write_uint (int (length (lod_levels geom))),
            for_each (write_lod enc) (zip (lod_levels geom) ranges)])"

definition write_morph_vertex ::
  "float_encoder \<Rightarrow> bool \<Rightarrow> bool \<Rightarrow> IntermediateMorphVertex \<Rightarrow> writer_step" where
  "write_morph_vertex enc with_normals with_tangents mv =
     steps [write_uint (vertex_index mv),
            write_vector3 enc (Some (position_delta mv)),
            write_if with_normals
              (write_vector3 enc (Some (case normal_delta mv of Some d \<Rightarrow> d | None \<Rightarrow> (0, 0, 0)))),
            write_if with_tangents
              (write_vector3 enc (Some (case tangent_delta mv of Some d \<Rightarrow> d | None \<Rightarrow> (0, 0, 0))))]"

definition write_morph :: "float_encoder \<Rightarrow> IntermediateMorph \<Rightarrow> writer_step" where
  "write_morph enc morph =
     (let has_morph_normals = (\<exists>mv \<in> set (morph_vertices morph). normal_delta mv \<noteq> None);
          has_morph_tangents = (\<exists>mv \<in> set (morph_vertices morph). tangent_delta mv \<noteq> None);
          morph_mask = ELEMENT_POSITION + (if has_morph_normals then ELEMENT_NORMAL else 0)
                       + (if has_morph_tangents then ELEMENT_TANGENT else 0)
      in steps [write_cstring (morph_name morph), write_uint 1, write_uint 0,
                write_uint morph_mask, write_uint (int (length (morph_vertices morph))),
                for_each (write_morph_vertex enc has_morph_normals has_morph_tangents)
                  (morph_vertices morph)])"

definition write_bone :: "float_encoder \<Rightarrow> IntermediateBone \<Rightarrow> writer_step" where
  "write_bone enc bone =
     steps [write_cstring (bone_name bone),
            write_uint (parent_index bone),
            write_vector3 enc (Some (bind_position bone)),
            write_quaternion enc (bind_rotation bone),
            write_vector3 enc (Some (bind_scale bone)),
            (if truthy (inverse_bind_matrix bone)
             then write_matrix3x4 enc (case inverse_bind_matrix bone of Some m \<Rightarrow> m | None \<Rightarrow> [])
             else for_each (write_float enc) [1, 0, 0, 0, 0, 1, 0, 0, 0, 0, 1, 0]),
            write_ubyte (collision_mask bone),
            write_if (collision_mask bone mod 2 = 1) (write_float enc (bounding_sphere_radius bone)),
            write_if ((collision_mask bone div 2) mod 2 = 1)
              (steps [write_vector3 enc
                        (Some (case bounding_box_min bone of Some b \<Rightarrow> b | None \<Rightarrow> (0, 0, 0))),
                      write_vector3 enc
                        (Some (case bounding_box_max bone of Some b \<Rightarrow> b | None \<Rightarrow> (0, 0, 0)))])]"

definition write_center :: "float_encoder \<Rightarrow> IntermediateModel \<Rightarrow> IntermediateGeometry \<Rightarrow> writer_step" where
  "write_center enc model geom w =
     bind_exn (compute_geometry_center model geom) (\<lambda>center. write_vector3 enc (Some center) w)"

definition model_body :: "float_encoder \<Rightarrow> IntermediateModel \<Rightarrow> bone_maps \<Rightarrow> writer_step" where
  "model_body enc model bmaps =
     (let l = layout_of (vertices model ! 0);
          all_indices = concat (map geometry_indices (geometries model));
          vertex_count = length (vertices model);
          use_32bit = (vertex_count > 65535)
      in steps [write_ascii MODEL_MAGIC,
                write_uint 1,
                write_uint (int vertex_count),
                write_uint (compute_element_mask l),
                write_uint (fst (morph_range (morphs model))),
                write_uint (snd (morph_range (morphs model))),
                for_each (write_vertex enc l) (vertices model),
                write_uint 1,
                write_uint (int (length all_indices)),
                write_uint (if use_32bit then 4 else 2),
                for_each (if use_32bit then write_uint else write_ushort) all_indices,
                write_uint (int (length (geometries model))),
                for_each (write_geometry enc bmaps)
                  (zip [0..<length (geometries model)]
                     (zip (geometries model) (geom_lod_ranges 0 (geometries model)))),
                write_uint (int (length (morphs model))),
                for_each (write_morph enc) (morphs model),
                write_uint (int (length (bones model))),
                for_each (write_bone enc) (bones model),
                write_vector3 enc (Some (bbox_min model)),
                write_vector3 enc (Some (bbox_max model)),
                for_each (write_center enc model) (geometries model)])"

text \<open>
  \<open>prepare_model\<close> is the part of \<^verbatim>\<open>write_model\<close> between the test for an empty model and the
  \<^verbatim>\<open>try\<close>: the bone bounds and the bone maps, both only for a model with bones. They run
  outside the \<^verbatim>\<open>try\<close>, so an exception of theirs leaves \<^verbatim>\<open>write_model\<close>. It returns the logger
  as it is left, with the bone maps and the model or the exception: \<^verbatim>\<open>_compute_bone_bounds\<close>
  logs only in its last statement, so when it raises the logger is unchanged, and
  \<^verbatim>\<open>_build_bone_maps\<close> may have logged warnings before it raises. The layout is taken from
  vertex 0 before them; neither changes the fields it reads. \<open>write_model\<close> returns the file
  system and the logger with its result; what it changes of the model in place (bone
  bounds, remapped bone indices) is not returned.
\<close>

definition prepare_model ::
  "IntermediateModel \<Rightarrow> ExportLogger \<Rightarrow> ExportLogger \<times> (exn + bone_maps \<times> IntermediateModel)" where
  "prepare_model model logger =
     (if bones model = [] then (logger, Inr (Map.empty, model))
      else
        (case compute_bone_bounds model logger of
           Inl e \<Rightarrow> (logger, Inl e)
         | Inr (model1, logger1) \<Rightarrow> build_bone_maps model1 logger1))"

definition write_model ::
  "float_encoder \<Rightarrow> disk \<Rightarrow> IntermediateModel \<Rightarrow> string \<Rightarrow> file_system \<times> ExportLogger
     \<Rightarrow> (file_system \<times> ExportLogger) \<times> (exn + bool)" where
  "write_model enc dsk model filepath st =
     (case st of (fs, logger) \<Rightarrow>
        if vertices model = [] \<or> geometries model = []
        then ((fs, log_error (''Model '' @ quoted (model_name model) @ '' has no data to write'')
                     logger), Inr False)
        else
          (case prepare_model model logger of
             (logger1, Inl e) \<Rightarrow> ((fs, logger1), Inl e)
           | (logger1, Inr (bmaps, model1)) \<Rightarrow>
               (case binary_file dsk filepath (model_body enc model1 bmaps) fs of
                  (fs1, Some e) \<Rightarrow>
                    ((fs1, log_error (''Failed to write model '' @ quoted filepath @ '': ''
                                       @ exn_message e) logger1), Inr False)
                | (fs1, None) \<Rightarrow>
                    ((fs1, log_info (''Written model: '' @ filepath @ '' (''
                                      @ show_nat (length (vertices model1)) @ '' verts, ''
                                      @ show_nat (length (bones model1)) @ '' bones, ''
                                      @ show_nat (length (morphs model1)) @ '' morphs)'')
                             logger1), Inr True))))"

text \<open>
  A sample: a model without bones whose vertex 0 has a normal and whose vertex 1 has none, a
  float encoder that never fails and a disk that never fails.
\<close>

definition ragged_model :: IntermediateModel where
  "ragged_model = \<lparr> model_name = ''ragged'',
     vertices = [\<lparr> position = (0, 0, 0), normal = Some (0, 0, 1), uv = None, uv2 = None,
                    tangent = None, color = None, bone_weights = None, bone_indices = None,
                    blender_index = None \<rparr>,
                 \<lparr> position = (1, 0, 0), normal = None, uv = None, uv2 = None,
                    tangent = None, color = None, bone_weights = None, bone_indices = None,
                    blender_index = None \<rparr>],
     geometries = [single_lod 0 [(0, 1, 0)]],
     morphs = [], bones = [], animations = [],
     bbox_min = (0, 0, 0), bbox_max = (1, 0, 0) \<rparr>"

definition zero_encoder :: float_encoder where
  "zero_encoder v = Inr [0, 0, 0, 0]"

definition good_disk :: disk where
  "good_disk filepath data = None"

subsection \<open>A failed serialization writes no file\<close>

lemma binary_file_body_raises:
  assumes "body \<lparr> buffer = [] \<rparr> = Inl e"
  shows "binary_file dsk filepath body fs = (fs, Some e)"
  using assms by (simp add: binary_file_def)

lemma binary_file_body_returns:
  assumes "body \<lparr> buffer = [] \<rparr> = Inr w"
  shows "binary_file dsk filepath body fs = save dsk filepath w fs"
  using assms by (simp add: binary_file_def)

lemma save_outcome:
  "snd (save dsk filepath w fs) = None \<longleftrightarrow> dsk filepath (buffer w) = None"
  by (simp add: save_def split: option.split prod.split)

lemma save_written:
  assumes "dsk filepath (buffer w) = None"
  shows "save dsk filepath w fs = (fs(filepath \<mapsto> buffer w), None)"
  using assms by (simp add: save_def)

text \<open>
  Claim C9. Both writers build the whole file in the buffer of a fresh writer and call
  \<open>save\<close> once, after the body of the \<^verbatim>\<open>with\<close> block has returned: the file system they leave
  is the one \<open>save\<close> leaves for the complete buffer, and when the disk accepts the write the
  file holds exactly that buffer. If the body raises, the file system is unchanged (no file
  is created), the exception is logged as an error and not propagated, and the writer
  returns \<open>False\<close>.
\<close>

theorem writers_all_or_nothing:
  "(tracks anim \<noteq> [] \<and> animation_body enc anim \<lparr> buffer = [] \<rparr> = Inl e \<longrightarrow>
      write_animation enc dsk anim filepath (fs, logger)
        = ((fs, log_error (''Failed to write animation '' @ quoted filepath @ '': '' @ exn_message e)
                  logger), False)) \<and>
   (tracks anim \<noteq> [] \<and> animation_body enc anim \<lparr> buffer = [] \<rparr> = Inr w \<longrightarrow>
      fst (fst (write_animation enc dsk anim filepath (fs, logger))) = fst (save dsk filepath w fs) \<and>
      (snd (write_animation enc dsk anim filepath (fs, logger)) \<longleftrightarrow> dsk filepath (buffer w) = None) \<and>
      (dsk filepath (buffer w) = None \<longrightarrow>
         fst (fst (write_animation enc dsk anim filepath (fs, logger))) = fs(filepath \<mapsto> buffer w))) \<and>
   (vertices model \<noteq> [] \<and> geometries model \<noteq> [] \<and>
    prepare_model model logger = (logger1, Inr (bmaps, model1)) \<and>
    model_body enc model1 bmaps \<lparr> buffer = [] \<rparr> = Inl e \<longrightarrow>
      write_model enc dsk model filepath (fs, logger)
        = ((fs, log_error (''Failed to write model '' @ quoted filepath @ '': '' @ exn_message e)
                  logger1), Inr False)) \<and>
   (vertices model \<noteq> [] \<and> geometries model \<noteq> [] \<and>
    prepare_model model logger = (logger1, Inr (bmaps, model1)) \<and>
    model_body enc model1 bmaps \<lparr> buffer = [] \<rparr> = Inr w \<longrightarrow>
      fst (fst (write_model enc dsk model filepath (fs, logger))) = fst (save dsk filepath w fs) \<and>
      snd (write_model enc dsk model filepath (fs, logger)) = Inr (dsk filepath (buffer w) = None) \<and>
      (dsk filepath (buffer w) = None \<longrightarrow>
         fst (fst (write_model enc dsk model filepath (fs, logger))) = fs(filepath \<mapsto> buffer w)))"
proof (intro conjI impI)
  assume a: "tracks anim \<noteq> [] \<and> animation_body enc anim \<lparr> buffer = [] \<rparr> = Inl e"
  then show "write_animation enc dsk anim filepath (fs, logger)
        = ((fs, log_error (''Failed to write animation '' @ quoted filepath @ '': '' @ exn_message e)
                  logger), False)"
    by (simp add: write_animation_def binary_file_body_raises)
next
  assume a: "tracks anim \<noteq> [] \<and> animation_body enc anim \<lparr> buffer = [] \<rparr> = Inr w"
  then have run: "binary_file dsk filepath (animation_body enc anim) fs = save dsk filepath w fs"
    by (simp add: binary_file_body_returns)
  obtain fs1 r where s: "save dsk filepath w fs = (fs1, r)" by (cases "save dsk filepath w fs")
  from save_outcome [of dsk filepath w fs] s have r: "r = None \<longleftrightarrow> dsk filepath (buffer w) = None"
    by simp
  from a run s show "fst (fst (write_animation enc dsk anim filepath (fs, logger)))
      = fst (save dsk filepath w fs)"
    by (cases r) (simp_all add: write_animation_def)
  from a run s r show "snd (write_animation enc dsk anim filepath (fs, logger))
      \<longleftrightarrow> dsk filepath (buffer w) = None"
    by (cases r) (simp_all add: write_animation_def)
  assume ok: "dsk filepath (buffer w) = None"
  from a run save_written [where dsk = dsk and filepath = filepath and w = w and fs = fs, OF ok]
  show "fst (fst (write_animation enc dsk anim filepath (fs, logger))) = fs(filepath \<mapsto> buffer w)"
    by (simp add: write_animation_def)
next
  assume a: "vertices model \<noteq> [] \<and> geometries model \<noteq> [] \<and>
    prepare_model model logger = (logger1, Inr (bmaps, model1)) \<and>
    model_body enc model1 bmaps \<lparr> buffer = [] \<rparr> = Inl e"
  then show "write_model enc dsk model filepath (fs, logger)
        = ((fs, log_error (''Failed to write model '' @ quoted filepath @ '': '' @ exn_message e)
                  logger1), Inr False)"
    by (simp add: write_model_def binary_file_body_raises)
next
  assume a: "vertices model \<noteq> [] \<and> geometries model \<noteq> [] \<and>
    prepare_model model logger = (logger1, Inr (bmaps, model1)) \<and>
    model_body enc model1 bmaps \<lparr> buffer = [] \<rparr> = Inr w"
  then have run: "binary_file dsk filepath (model_body enc model1 bmaps) fs = save dsk filepath w fs"
    by (simp add: binary_file_body_returns)
  obtain fs1 r where s: "save dsk filepath w fs = (fs1, r)" by (cases "save dsk filepath w fs")
  from save_outcome [of dsk filepath w fs] s have r: "r = None \<longleftrightarrow> dsk filepath (buffer w) = None"
    by simp
  from a run s show "fst (fst (write_model enc dsk model filepath (fs, logger)))
      = fst (save dsk filepath w fs)"
    by (cases r) (simp_all add: write_model_def)
  from a run s r show "snd (write_model enc dsk model filepath (fs, logger))
      = Inr (dsk filepath (buffer w) = None)"
    by (cases r) (simp_all add: write_model_def)
  assume ok: "dsk filepath (buffer w) = None"
  from a run save_written [where dsk = dsk and filepath = filepath and w = w and fs = fs, OF ok]
  show "fst (fst (write_model enc dsk model filepath (fs, logger))) = fs(filepath \<mapsto> buffer w)"
    by (simp add: write_model_def)
qed

lemma ragged_model_body:
  "model_body zero_encoder ragged_model Map.empty \<lparr> buffer = [] \<rparr>
     = Inl none_not_subscriptable"
  by (simp add: model_body_def ragged_model_def layout_of_def for_each_def write_vertex_def
        write_if_def write_vector3_def write_packed_def pack_floats_def zero_encoder_def
        write_uint_def write_ascii_def pack_unsigned_def append_bytes_def raise_exn_def bind_exn_def
        compute_element_mask_def morph_range_def little_endian_def MODEL_MAGIC_def
        geometry_indices_def single_lod_def
        ELEMENT_POSITION_def ELEMENT_NORMAL_def Let_def upt_rec)

theorem writers_all_or_nothing_witness:
  "vertices ragged_model \<noteq> [] \<and> geometries ragged_model \<noteq> [] \<and>
   write_model zero_encoder good_disk ragged_model ''out/ragged.mdl'' (Map.empty, empty_log)
     = ((Map.empty,
         log_error (''Failed to write model '' @ quoted ''out/ragged.mdl'' @ '': ''
                    @ quoted ''NoneType'' @ '' object is not subscriptable'') empty_log),
        Inr False)"
proof -
  have ne: "vertices ragged_model \<noteq> []" "geometries ragged_model \<noteq> []"
    by (simp_all add: ragged_model_def)
  have prep: "prepare_model ragged_model empty_log = (empty_log, Inr (Map.empty, ragged_model))"
    by (simp add: prepare_model_def ragged_model_def)
  from writers_all_or_nothing [where model = ragged_model and logger = empty_log
      and bmaps = Map.empty and ?model1.0 = ragged_model and ?logger1.0 = empty_log
      and enc = zero_encoder and e = none_not_subscriptable
      and dsk = good_disk and filepath = "''out/ragged.mdl''" and fs = Map.empty]
    ne prep ragged_model_body
  have "write_model zero_encoder good_disk ragged_model ''out/ragged.mdl'' (Map.empty, empty_log)
     = ((Map.empty,
         log_error (''Failed to write model '' @ quoted ''out/ragged.mdl'' @ '': ''
                    @ exn_message none_not_subscriptable) empty_log),
        Inr False)"
    by blast
  with ne show ?thesis by (simp add: exn_message_def none_not_subscriptable_def)
qed

section \<open>Material technique mapping (materials/technique\_map.py)\<close>

text \<open>
  \<^verbatim>\<open>TextureInfo\<close> and \<^verbatim>\<open>PBRProperties\<close> (materials/analyzer.py), \<^verbatim>\<open>UrhoMaterialResult\<close>
  (data/urho\_material.py) and the \<^verbatim>\<open>TechniqueMapper\<close>. The texture dictionary is a map from
  unit name to image name. Reading \<^verbatim>\<open>.image_name\<close> of a texture that is \<^verbatim>\<open>None\<close> raises
  \<^verbatim>\<open>AttributeError\<close>, so \<open>map_pbr\<close> and \<open>map_legacy\<close> return \<open>exn + UrhoMaterialResult\<close>.
  \<open>startswith s p\<close> is \<^verbatim>\<open>s.startswith(p)\<close>, \<open>contains s p\<close> is \<^verbatim>\<open>p in s\<close>. The power
  \<^verbatim>\<open>x ** 2.0\<close> of the legacy path is the square.
\<close>

record TextureInfo =
  image_name :: string
  filepath :: string
  uv_map_name :: string

record PBRProperties =
  base_color :: "real \<times> real \<times> real"
  base_color_alpha :: real
  metallic :: real
  roughness :: real
  specular_ior_level :: real
  emission_color :: "real \<times> real \<times> real"
  emission_strength :: real
  alpha :: real
  base_color_texture :: "TextureInfo option"
  metallic_texture :: "TextureInfo option"
  roughness_texture :: "TextureInfo option"
  normal_texture :: "TextureInfo option"
  emission_texture :: "TextureInfo option"
  ao_texture :: "TextureInfo option"
  has_transparency :: bool
  uses_alpha_clip :: bool
  is_two_sided :: bool
  is_unlit :: bool

record UrhoMaterialResult =
  technique_name :: string
  textures :: "string \<rightharpoonup> string"
  mat_diff_color :: "(real \<times> real \<times> real \<times> real) option"
  mat_spec_color :: "(real \<times> real \<times> real \<times> real) option"
  mat_emissive_color :: "(real \<times> real \<times> real) option"
  metallic :: "real option"
  roughness :: "real option"
  vs_defines :: string
  ps_defines :: string
  cull_mode :: string
  shadow_cull :: string

record TechniqueMapper =
  prefer_pbr :: bool
  pack_textures :: bool

definition UrhoMaterialResult_default :: UrhoMaterialResult where
  "UrhoMaterialResult_default =
     \<lparr> technique_name = ''Techniques/NoTexture.xml'', textures = Map.empty,
       mat_diff_color = None, mat_spec_color = None, mat_emissive_color = None,
       metallic = None, roughness = None, vs_defines = '''', ps_defines = '''',
       cull_mode = ''ccw'', shadow_cull = ''ccw'' \<rparr>"

definition texture_image_name :: "TextureInfo option \<Rightarrow> exn + string" where
  "texture_image_name t =
     (case t of
        None \<Rightarrow> Inl (none_has_no_attribute ''image_name'')
      | Some ti \<Rightarrow> Inr (image_name ti))"

definition set_texture :: "string \<Rightarrow> TextureInfo option \<Rightarrow> UrhoMaterialResult \<Rightarrow> exn + UrhoMaterialResult" where
  "set_texture unit t result =
     bind_exn (texture_image_name t) (\<lambda>n. Inr (result\<lparr>textures := (textures result)(unit \<mapsto> n)\<rparr>))"

definition startswith :: "string \<Rightarrow> string \<Rightarrow> bool" where
  "startswith s p = (take (length p) s = p)"

fun contains :: "string \<Rightarrow> string \<Rightarrow> bool" where
  "contains [] p = (p = [])"
| "contains (c # cs) p = (startswith (c # cs) p \<or> contains cs p)"

definition any_positive :: "real \<times> real \<times> real \<Rightarrow> bool" where
  "any_positive c = (case c of (r, g, b) \<Rightarrow> r > 0 \<or> g > 0 \<or> b > 0)"

definition scaled_emission :: "PBRProperties \<Rightarrow> real \<times> real \<times> real" where
  "scaled_emission props =
     (case emission_color props of (r, g, b) \<Rightarrow>
        (r * emission_strength props, g * emission_strength props, b * emission_strength props))"

definition map_pbr ::
  "PBRProperties \<Rightarrow> UrhoMaterialResult \<Rightarrow> bool \<Rightarrow> bool \<Rightarrow> bool \<Rightarrow> bool \<Rightarrow> bool \<Rightarrow> bool
     \<Rightarrow> exn + UrhoMaterialResult" where
  "map_pbr props result has_diff has_norm has_spec has_ao has_emissive has_alpha =
     bind_exn
       (if has_spec then
          bind_exn (if has_diff then set_texture ''diffuse'' (base_color_texture props) result
                    else Inr result) (\<lambda>r1.
          bind_exn (if has_norm then set_texture ''normal'' (normal_texture props) r1
                    else Inr r1) (\<lambda>r2.
          Inr (''PBR/PBRMetallicRough'' @ (if has_diff then ''Diff'' else '''')
                 @ (if has_norm then ''Normal'' else '''') @ ''Spec'',
               (case metallic_texture props of
                  Some mt \<Rightarrow> r2\<lparr>textures := (textures r2)(''specular'' \<mapsto> image_name mt)\<rparr>
                | None \<Rightarrow>
                   (case roughness_texture props of
                      Some rt \<Rightarrow> r2\<lparr>textures := (textures r2)(''specular'' \<mapsto> image_name rt)\<rparr>
                    | None \<Rightarrow> r2)))))
        else if \<not> has_diff \<and> \<not> has_norm then Inr (''PBR/PBRNoTexture'', result)
        else
          bind_exn (if has_diff then set_texture ''diffuse'' (base_color_texture props) result
                    else Inr result) (\<lambda>r1.
          bind_exn (if has_norm then set_texture ''normal'' (normal_texture props) r1
                    else Inr r1) (\<lambda>r2.
          Inr (''PBR/PBR'' @ (if has_diff then ''Diff'' else '''')
                 @ (if has_norm then ''Normal'' else ''''), r2))))
       (\<lambda>(tech0, r3).
     bind_exn (if has_ao then set_texture ''emissive'' (ao_texture props) r3 else Inr r3) (\<lambda>r4.
     let tech1 = tech0 @ (if has_ao then ''AO'' else '''');
         r5 = (if has_emissive then
                 (case emission_texture props of
                    Some et \<Rightarrow> r4\<lparr>textures := (textures r4)(''emissive'' \<mapsto> image_name et)\<rparr>
                  | None \<Rightarrow> r4)
               else r4);
         tech2 = tech1 @ (if has_emissive then ''Emissive'' else '''');
         tech3 = tech2 @ (if has_alpha then ''Alpha'' else '''');
         r6 = r5\<lparr>technique_name := tech3\<rparr>;
         r7 = (case base_color props of (bc0, bc1, bc2) \<Rightarrow>
                 r6\<lparr>mat_diff_color := Some (bc0, bc1, bc2, alpha props)\<rparr>);
         r8 = r7\<lparr>mat_spec_color := Some (1, 1, 1, 1)\<rparr>;
         r9 = (if has_spec then r8\<lparr>metallic := Some 0, roughness := Some 0\<rparr>
               else r8\<lparr>metallic := Some (PBRProperties.metallic props),
                       roughness := Some (PBRProperties.roughness props)\<rparr>)
     in Inr (if any_positive (emission_color props) \<and> emission_strength props > 0
             then r9\<lparr>mat_emissive_color := Some (scaled_emission props)\<rparr>
             else r9)))"

definition map_legacy ::
  "PBRProperties \<Rightarrow> UrhoMaterialResult \<Rightarrow> bool \<Rightarrow> bool \<Rightarrow> bool \<Rightarrow> bool \<Rightarrow> bool
     \<Rightarrow> exn + UrhoMaterialResult" where
  "map_legacy props result has_diff has_norm has_emission has_spec has_alpha =
     bind_exn
       (if \<not> has_diff then Inr (''NoTexture'', result)
        else
          bind_exn (set_texture ''diffuse'' (base_color_texture props) result) (\<lambda>r1.
          bind_exn (if has_norm then set_texture ''normal'' (normal_texture props) r1
                    else Inr r1) (\<lambda>r2.
          Inr (''Diff'' @ (if has_norm then ''Normal'' else '''')
                 @ (if has_spec then ''Spec'' else ''''),
               (if has_spec then
                  (case metallic_texture props of
                     Some mt \<Rightarrow> r2\<lparr>textures := (textures r2)(''specular'' \<mapsto> image_name mt)\<rparr>
                   | None \<Rightarrow>
                      (case roughness_texture props of
                         Some rt \<Rightarrow> r2\<lparr>textures := (textures r2)(''specular'' \<mapsto> image_name rt)\<rparr>
                       | None \<Rightarrow> r2))
                else r2)))))
       (\<lambda>(tech0, r3).
     bind_exn (if has_emission then set_texture ''emissive'' (emission_texture props) r3
               else Inr r3) (\<lambda>r4.
     let tech1 = tech0 @ (if has_emission then ''Emissive'' else '''');
         tech2 = tech1 @ (if is_unlit props then ''Unlit'' else '''');
         tech3 = tech2 @ (if has_alpha then ''Alpha'' else '''');
         r5 = r4\<lparr>technique_name := tech3\<rparr>;
         r6 = (case base_color props of (bc0, bc1, bc2) \<Rightarrow>
                 r5\<lparr>mat_diff_color := Some (bc0, bc1, bc2, alpha props)\<rparr>);
         spec = specular_ior_level props;
         power = max 1 (((1 - PBRProperties.roughness props) * 30) ^ 2);
         r7 = r6\<lparr>mat_spec_color := Some (spec, spec, spec, power)\<rparr>
     in Inr (if any_positive (emission_color props)
             then r7\<lparr>mat_emissive_color := Some (scaled_emission props)\<rparr>
             else r7)))"

definition append_define :: "string \<Rightarrow> string \<Rightarrow> string" where
  "append_define existing new_define =
     (if existing \<noteq> [] then existing @ '' '' @ new_define else new_define)"

definition map_material :: "TechniqueMapper \<Rightarrow> PBRProperties \<Rightarrow> exn + UrhoMaterialResult" where
  "map_material self props =
     (let result = UrhoMaterialResult_default;
          has_diffuse_tex = (base_color_texture props \<noteq> None);
          has_normal_tex = (normal_texture props \<noteq> None);
          has_metallic_tex = (metallic_texture props \<noteq> None);
          has_roughness_tex = (roughness_texture props \<noteq> None);
          has_spec_tex = ((has_metallic_tex \<or> has_roughness_tex) \<and> pack_textures self);
          has_emission_tex = (emission_texture props \<noteq> None);
          has_ao_tex = (ao_texture props \<noteq> None);
          has_alpha = has_transparency props;
          is_pbr = (prefer_pbr self \<and> \<not> is_unlit props)
      in bind_exn
           (if is_pbr
            then map_pbr props result has_diffuse_tex has_normal_tex has_spec_tex
                   has_ao_tex has_emission_tex has_alpha
            else map_legacy props result has_diffuse_tex has_normal_tex has_emission_tex
                   has_spec_tex has_alpha) (\<lambda>r1.
         let r2 = (if is_two_sided props then r1\<lparr>cull_mode := ''none'', shadow_cull := ''none''\<rparr>
                   else r1);
             r3 = (if uses_alpha_clip props
                   then r2\<lparr>ps_defines := append_define (ps_defines r2) ''ALPHAMASK''\<rparr>
                   else r2)
         in Inr (if \<not> startswith (technique_name r3) ''Techniques/''
                 then r3\<lparr>technique_name := ''Techniques/'' @ technique_name r3 @ ''.xml''\<rparr>
                 else r3)))"

text \<open>
  The Spec variant of a finished technique path: a name of the form
  \<^verbatim>\<open>Techniques/PBR/PBRMetallicRough...Spec...\<close>. \<open>props0\<close> is a sample material with a metallic
  texture only.
\<close>

definition spec_variant :: "string \<Rightarrow> bool" where
  "spec_variant name =
     (startswith name ''Techniques/PBR/PBRMetallicRough'' \<and> contains name ''Spec'')"

definition props0 :: PBRProperties where
  "props0 = \<lparr> base_color = (0.8, 0.8, 0.8), base_color_alpha = 1, metallic = 0.25,
     roughness = 0.5, specular_ior_level = 0.5, emission_color = (0, 0, 0),
     emission_strength = 1, alpha = 1,
     base_color_texture = None,
     metallic_texture = Some \<lparr> image_name = ''m.png'', filepath = '''', uv_map_name = '''' \<rparr>,
     roughness_texture = None, normal_texture = None, emission_texture = None,
     ao_texture = None, has_transparency = False, uses_alpha_clip = False,
     is_two_sided = False, is_unlit = False \<rparr>"

subsection \<open>Properties of the technique mapper\<close>

lemma contains_append_left: "contains ys p \<Longrightarrow> contains (xs @ ys) p"
  by (induction xs) auto

lemma startswith_append: "startswith (p @ ys) p"
  by (simp add: startswith_def)

lemma contains_prefix: "contains (p @ ys) p"
proof (cases "p @ ys")
  case Nil
  then show ?thesis by simp
next
  case (Cons a list)
  have "startswith (p @ ys) p" by (rule startswith_append)
  then show ?thesis unfolding Cons by simp
qed

lemma contains_middle: "contains (xs @ p @ ys) p"
  by (rule contains_append_left) (rule contains_prefix)

lemma map_pbr_result:
  assumes "has_diff \<longrightarrow> base_color_texture props \<noteq> None"
    and "has_norm \<longrightarrow> normal_texture props \<noteq> None"
    and "has_ao \<longrightarrow> ao_texture props \<noteq> None"
  shows "\<exists>r. map_pbr props result has_diff has_norm has_spec has_ao has_emissive has_alpha = Inr r \<and>
           technique_name r =
             (if has_spec
              then ''PBR/PBRMetallicRough'' @ (if has_diff then ''Diff'' else '''')
                     @ (if has_norm then ''Normal'' else '''') @ ''Spec''
              else if \<not> has_diff \<and> \<not> has_norm then ''PBR/PBRNoTexture''
              else ''PBR/PBR'' @ (if has_diff then ''Diff'' else '''')
                     @ (if has_norm then ''Normal'' else ''''))
             @ (if has_ao then ''AO'' else '''') @ (if has_emissive then ''Emissive'' else '''')
             @ (if has_alpha then ''Alpha'' else '''') \<and>
           UrhoMaterialResult.metallic r = (if has_spec then Some 0 else Some (PBRProperties.metallic props)) \<and>
           UrhoMaterialResult.roughness r = (if has_spec then Some 0 else Some (PBRProperties.roughness props))"
proof -
  obtain bt where bt: "has_diff \<longrightarrow> base_color_texture props = Some bt" using assms(1) by (cases has_diff) auto
  obtain nt where nt: "has_norm \<longrightarrow> normal_texture props = Some nt" using assms(2) by (cases has_norm) auto
  obtain aot where aot: "has_ao \<longrightarrow> ao_texture props = Some aot" using assms(3) by (cases has_ao) auto
  show ?thesis
    using bt nt aot
    by (cases has_diff; cases has_norm; cases has_spec; cases has_ao)
       (simp_all add: map_pbr_def bind_exn_def set_texture_def texture_image_name_def Let_def
          split: option.split prod.split)
qed

lemma spec_variant_spec_name:
  "spec_variant (''Techniques/'' @ (''PBR/PBRMetallicRough'' @ d @ n @ ''Spec'') @ sfx)"
proof -
  have "contains ((''Techniques/PBR/PBRMetallicRough'' @ d @ n) @ ''Spec'' @ sfx) ''Spec''"
    by (rule contains_middle)
  then show ?thesis by (simp add: spec_variant_def startswith_def)
qed

text \<open>
  Claim C6. With prefer-PBR on and a material that is not unlit, \<open>map_material\<close> returns a
  result (it does not raise); the technique is the \<open>PBRMetallicRough...Spec\<close> variant if and
  only if a metallic or a roughness texture is present and \<open>pack_textures\<close> is set; when it is
  the Spec variant the emitted metallic and roughness parameters are 0, and otherwise they
  are the input's metallic and roughness.
\<close>

theorem map_material_spec_variant:
  assumes pbr: "prefer_pbr self" and lit: "\<not> is_unlit props"
  shows "\<exists>r. map_material self props = Inr r \<and>
           (spec_variant (technique_name r) \<longleftrightarrow>
              (metallic_texture props \<noteq> None \<or> roughness_texture props \<noteq> None) \<and> pack_textures self) \<and>
           (spec_variant (technique_name r) \<longrightarrow>
              UrhoMaterialResult.metallic r = Some 0 \<and> UrhoMaterialResult.roughness r = Some 0) \<and>
           (\<not> spec_variant (technique_name r) \<longrightarrow>
              UrhoMaterialResult.metallic r = Some (PBRProperties.metallic props) \<and>
              UrhoMaterialResult.roughness r = Some (PBRProperties.roughness props))"
proof -
  define has_diff where "has_diff = (base_color_texture props \<noteq> None)"
  define has_norm where "has_norm = (normal_texture props \<noteq> None)"
  define has_spec where
    "has_spec = ((metallic_texture props \<noteq> None \<or> roughness_texture props \<noteq> None) \<and> pack_textures self)"
  define has_emissive where "has_emissive = (emission_texture props \<noteq> None)"
  define has_ao where "has_ao = (ao_texture props \<noteq> None)"
  define sfx where
    "sfx = (if has_ao then ''AO'' else '''') @ (if has_emissive then ''Emissive'' else '''')
             @ (if has_transparency props then ''Alpha'' else '''')"
  define base where
    "base = (if has_spec
              then ''PBR/PBRMetallicRough'' @ (if has_diff then ''Diff'' else '''')
                     @ (if has_norm then ''Normal'' else '''') @ ''Spec''
              else if \<not> has_diff \<and> \<not> has_norm then ''PBR/PBRNoTexture''
              else ''PBR/PBR'' @ (if has_diff then ''Diff'' else '''')
                     @ (if has_norm then ''Normal'' else ''''))"
  from map_pbr_result [of has_diff props has_norm has_ao UrhoMaterialResult_default has_spec
      has_emissive "has_transparency props"]
  obtain r0 where r0: "map_pbr props UrhoMaterialResult_default has_diff has_norm has_spec has_ao
        has_emissive (has_transparency props) = Inr r0"
    and name0: "technique_name r0 = base @ sfx"
    and met0: "UrhoMaterialResult.metallic r0 = (if has_spec then Some 0 else Some (PBRProperties.metallic props))"
    and rough0: "UrhoMaterialResult.roughness r0 = (if has_spec then Some 0 else Some (PBRProperties.roughness props))"
    unfolding has_diff_def has_norm_def has_ao_def base_def sfx_def by auto
  have nopre: "\<not> startswith (base @ sfx) ''Techniques/''"
    by (simp add: base_def startswith_def)
  define r where
    "r = (let r2 = (if is_two_sided props then r0\<lparr>cull_mode := ''none'', shadow_cull := ''none''\<rparr>
                   else r0);
              r3 = (if uses_alpha_clip props
                   then r2\<lparr>ps_defines := append_define (ps_defines r2) ''ALPHAMASK''\<rparr>
                   else r2)
          in r3\<lparr>technique_name := ''Techniques/'' @ technique_name r3 @ ''.xml''\<rparr>)"
  have res: "map_material self props = Inr r"
    using pbr lit r0 nopre name0
    unfolding map_material_def r_def has_diff_def has_norm_def has_spec_def has_emissive_def has_ao_def
    by (simp add: bind_exn_def Let_def)
  have name: "technique_name r = ''Techniques/'' @ base @ sfx @ ''.xml''"
    using name0 by (simp add: r_def Let_def)
  have met: "UrhoMaterialResult.metallic r = (if has_spec then Some 0 else Some (PBRProperties.metallic props))"
    using met0 by (simp add: r_def Let_def)
  have rough: "UrhoMaterialResult.roughness r = (if has_spec then Some 0 else Some (PBRProperties.roughness props))"
    using rough0 by (simp add: r_def Let_def)
  have variant: "spec_variant (technique_name r) \<longleftrightarrow> has_spec"
  proof (cases has_spec)
    case True
    then show ?thesis
      unfolding name base_def using spec_variant_spec_name by simp
  next
    case False
    then show ?thesis
      by (cases has_diff; cases has_norm)
         (simp_all add: name base_def spec_variant_def startswith_def)
  qed
  from res variant met rough show ?thesis
    unfolding has_spec_def by auto
qed

theorem map_material_spec_variant_witness:
  "prefer_pbr \<lparr>prefer_pbr = True, pack_textures = False\<rparr> \<and> \<not> is_unlit props0 \<and>
   (\<exists>r. map_material \<lparr>prefer_pbr = True, pack_textures = False\<rparr> props0 = Inr r \<and>
        \<not> spec_variant (technique_name r) \<and>
        UrhoMaterialResult.metallic r = Some 0.25 \<and> UrhoMaterialResult.roughness r = Some 0.5)"
proof -
  have h1: "prefer_pbr \<lparr>prefer_pbr = True, pack_textures = False\<rparr>" by simp
  have h2: "\<not> is_unlit props0" by (simp add: props0_def)
  from map_material_spec_variant [OF h1 h2]
  show ?thesis using h2 by (auto simp: props0_def)
qed

section \<open>Vertex-cache optimisation (mesh/optimize.py)\<close>

text \<open>
  \<^verbatim>\<open>optimize_triangles\<close>, Forsyth's greedy reordering. Scores are reals; \<^verbatim>\<open>x ** y\<close> with a float
  exponent is \<open>powr\<close> (the bases that occur are positive: a count of at least 1 and a value in
  \<open>(0, 1]\<close>).
  \<^item> \<open>tri_verts vc tri\<close> are the corners \<open>v\<close> of a triangle with \<^verbatim>\<open>0 <= v < vertex_count\<close>, in corner
    order; every loop of the source over the corners of a triangle skips the others.
  \<^item> \<open>vert_tris\<close> is the table built by the first loop: for each vertex the triangles that use
    it, in ascending order, once per corner.
  \<^item> The state of the \<^verbatim>\<open>while\<close> loop is a record of its variables. \<open>best_tri\<close> is an \<^typ>\<open>int\<close>:
    it is \<open>-1\<close> when no candidate was found, and \<^verbatim>\<open>emitted[-1]\<close> and \<^verbatim>\<open>triangles[-1]\<close> then
    name the last triangle, as \<open>py_position\<close> has it. No other index can leave its list: it
    is a vertex of \<open>tri_verts\<close> or of the cache, or a triangle of \<open>vert_tris\<close> or of a range.
  \<^item> \<open>find_best\<close> is the search \<^verbatim>\<open>for ti in range(tri_count)\<close> for the best triangle not yet
    emitted; \<open>next_triangle\<close> is the test at the top of the loop body, \<open>None\<close> for \<^verbatim>\<open>break\<close>.
  \<^item> \<open>emit\<close> is the rest of the loop body, \<open>rescan_step\<close> the body of its last loop, over
    \<^verbatim>\<open>dirty_tris\<close>. \<^verbatim>\<open>dirty_verts\<close> and \<^verbatim>\<open>dirty_tris\<close> are Python sets, whose
    iteration order is not specified. The order in which scores are recomputed does not
    matter; the order of \<^verbatim>\<open>dirty_tris\<close> decides ties for the next triangle. It is the parameter
    \<open>set_order\<close>: given the number of triangles emitted so far and the elements of the set, it
    lists them; \<open>arrange\<close> keeps the listing if it is a rearrangement of the elements.
\<close>

definition CACHE_SIZE :: nat where
  "CACHE_SIZE = 32"

definition vertex_score :: "int \<Rightarrow> int \<Rightarrow> real" where
  "vertex_score cache_position active_tri_count =
     (if active_tri_count = 0 then - 1
      else
        (let score =
               (if cache_position \<ge> 0
                then (if cache_position < 3 then 0.75
                      else (let t = real_of_int (cache_position - 3) / real (CACHE_SIZE - 3)
                            in (1 - t) powr 1.5))
                else 0)
         in score + 2 * (real_of_int active_tri_count powr (- 0.5))))"

definition in_range :: "nat \<Rightarrow> int \<Rightarrow> bool" where
  "in_range vc v \<longleftrightarrow> 0 \<le> v \<and> v < int vc"

definition tri_verts :: "nat \<Rightarrow> triangle \<Rightarrow> nat list" where
  "tri_verts vc tri = (case tri of (a, b, c) \<Rightarrow> map nat (filter (in_range vc) [a, b, c]))"

definition vert_tris :: "triangle list \<Rightarrow> nat \<Rightarrow> nat list list" where
  "vert_tris tris vc =
     map (\<lambda>v. concat (map (\<lambda>ti. replicate (count_list (tri_verts vc (tris ! ti)) v) ti)
                         [0..<length tris]))
       [0..<vc]"

definition tri_score :: "real list \<Rightarrow> nat \<Rightarrow> triangle \<Rightarrow> real" where
  "tri_score scores vc tri = sum_list (map (\<lambda>v. scores ! v) (tri_verts vc tri))"

record opt_state =
  active_count :: "int list"
  cache_pos :: "int list"
  scores :: "real list"
  tri_scores :: "real list"
  emitted :: "bool list"
  cache :: "nat list"
  best_tri :: int
  result :: "triangle list"
  emitted_count :: nat

definition first_max :: "real list \<Rightarrow> nat" where
  "first_max xs = foldl (\<lambda>b i. if xs ! i > xs ! b then i else b) 0 [1..<length xs]"

definition initial_opt_state :: "triangle list \<Rightarrow> nat \<Rightarrow> opt_state" where
  "initial_opt_state tris vc =
     (let active = map (\<lambda>tl. int (length tl)) (vert_tris tris vc);
          sc = map (\<lambda>v. vertex_score (- 1) (active ! v)) [0..<vc];
          ts = map (tri_score sc vc) tris
      in \<lparr> active_count = active, cache_pos = replicate vc (- 1), scores = sc, tri_scores = ts,
           emitted = replicate (length tris) False, cache = [],
           best_tri = int (first_max ts), result = [], emitted_count = 0 \<rparr>)"

definition find_best :: "real list \<Rightarrow> bool list \<Rightarrow> int" where
  "find_best ts em =
     fst (foldl (\<lambda>(bt, bs) ti. if \<not> em ! ti \<and> ts ! ti > bs then (int ti, ts ! ti) else (bt, bs))
            (- 1, - 2) [0..<length ts])"

definition next_triangle :: "opt_state \<Rightarrow> int option" where
  "next_triangle st =
     (if emitted st ! py_position (length (emitted st)) (best_tri st)
      then (let bt = find_best (tri_scores st) (emitted st) in if bt < 0 then None else Some bt)
      else Some (best_tri st))"

definition arrange :: "(nat \<Rightarrow> nat list \<Rightarrow> nat list) \<Rightarrow> nat \<Rightarrow> nat list \<Rightarrow> nat list" where
  "arrange set_order k xs =
     (if mset (set_order k (remdups xs)) = mset (remdups xs) then set_order k (remdups xs)
      else remdups xs)"

definition rescan_step ::
  "(nat \<Rightarrow> real) \<Rightarrow> real list \<times> real \<times> int \<Rightarrow> nat \<Rightarrow> real list \<times> real \<times> int" where
  "rescan_step score_of acc ti =
     (case acc of (ts, best_score, b) \<Rightarrow>
        (let s = score_of ti
         in (ts[ti := s], if s > best_score then (s, int ti) else (best_score, b))))"

definition emit ::
  "(nat \<Rightarrow> nat list \<Rightarrow> nat list) \<Rightarrow> triangle list \<Rightarrow> nat \<Rightarrow> int \<Rightarrow> opt_state \<Rightarrow> opt_state" where
  "emit set_order tris vc bt st =
     (let p = py_position (length tris) bt;
          tri = tris ! p;
          result1 = result st @ [tri];
          emitted1 = (emitted st)[p := True];
          emitted_count1 = emitted_count st + 1;
          active1 = foldl (\<lambda>ac v. ac[v := ac ! v - 1]) (active_count st) (tri_verts vc tri);
          cache1 = foldl (\<lambda>c v. if v \<in> set c then c else c @ [v]) (tri_verts vc tri) (cache st);
          cache_pos1 = foldl (\<lambda>cp v. cp[v := - 1]) (cache_pos st) (drop CACHE_SIZE cache1);
          cache2 = take CACHE_SIZE cache1;
          cache_pos2 = foldl (\<lambda>cp (pos, v). cp[v := int pos]) cache_pos1
                         (zip [0..<length cache2] cache2);
          dirty_verts = remdups (cache2 @ tri_verts vc tri);
          scores1 = foldl (\<lambda>sc v. sc[v := vertex_score (cache_pos2 ! v) (active1 ! v)])
                      (scores st) dirty_verts;
          dirty_tris = arrange set_order (emitted_count st)
                         (filter (\<lambda>ti. \<not> emitted1 ! ti)
                            (concat (map (\<lambda>v. vert_tris tris vc ! v) dirty_verts)));
          (tri_scores1, best_score, best_tri1) =
             foldl (rescan_step (\<lambda>ti. tri_score scores1 vc (tris ! ti)))
               (tri_scores st, - 2, - 1) dirty_tris
      in \<lparr> active_count = active1, cache_pos = cache_pos2, scores = scores1,
           tri_scores = tri_scores1, emitted = emitted1, cache = cache2,
           best_tri = best_tri1, result = result1, emitted_count = emitted_count1 \<rparr>)"

lemma emitted_count_emit:
  "emitted_count (emit set_order tris vc bt st) = Suc (emitted_count st)"
  by (simp add: emit_def Let_def case_prod_beta)

function optimize_loop ::
  "(nat \<Rightarrow> nat list \<Rightarrow> nat list) \<Rightarrow> triangle list \<Rightarrow> nat \<Rightarrow> opt_state \<Rightarrow> triangle list" where
  "optimize_loop set_order tris vc st =
     (if emitted_count st < length tris
      then (case next_triangle st of
              None \<Rightarrow> result st
            | Some bt \<Rightarrow> optimize_loop set_order tris vc (emit set_order tris vc bt st))
      else result st)"
  by pat_completeness auto
termination
  by (relation "measure (\<lambda>(set_order, tris, vc, st). length tris - emitted_count st)")
     (auto simp: emitted_count_emit)

declare optimize_loop.simps [simp del]

definition optimize_triangles ::
  "(nat \<Rightarrow> nat list \<Rightarrow> nat list) \<Rightarrow> triangle list \<Rightarrow> int \<Rightarrow> triangle list" where
  "optimize_triangles set_order tris vertex_count =
     (if length tris \<le> 1 \<or> vertex_count \<le> int CACHE_SIZE then tris
      else optimize_loop set_order tris (nat vertex_count)
             (initial_opt_state tris (nat vertex_count)))"

text \<open>
  The invariant of the \<^verbatim>\<open>while\<close> loop. \<open>pending tris vc em v\<close> counts the corners equal to \<open>v\<close>
  in the triangles not yet emitted. The invariant says that the lists keep their lengths,
  that the cache holds vertices in range, that \<open>best_tri\<close> is \<open>-1\<close> or the index of a triangle,
  that \<open>emitted_count\<close> and \<open>result\<close> are the number and the multiset of the triangles flagged
  as emitted, and that scores cannot hide a triangle from the search: the active count of a
  vertex is at least its pending corners, a vertex with a positive active count has a score
  that is not negative, and so has every triangle not yet emitted.
\<close>

definition pending :: "triangle list \<Rightarrow> nat \<Rightarrow> bool list \<Rightarrow> nat \<Rightarrow> nat" where
  "pending tris vc em v =
     (\<Sum>ti | ti < length tris \<and> \<not> em ! ti. count_list (tri_verts vc (tris ! ti)) v)"

definition opt_inv :: "triangle list \<Rightarrow> nat \<Rightarrow> opt_state \<Rightarrow> bool" where
  "opt_inv tris vc st \<longleftrightarrow>
     length (emitted st) = length tris \<and> length (tri_scores st) = length tris \<and>
     length (active_count st) = vc \<and> length (scores st) = vc \<and>
     (\<forall>v \<in> set (cache st). v < vc) \<and>
     - 1 \<le> best_tri st \<and> best_tri st < int (length tris) \<and>
     emitted_count st = card {ti. ti < length tris \<and> emitted st ! ti} \<and>
     mset (result st)
       = image_mset (\<lambda>ti. tris ! ti) (mset_set {ti. ti < length tris \<and> emitted st ! ti}) \<and>
     (\<forall>ti < length tris. \<not> emitted st ! ti \<longrightarrow> 0 \<le> tri_scores st ! ti) \<and>
     (\<forall>v < vc. 0 < active_count st ! v \<longrightarrow> 0 \<le> scores st ! v) \<and>
     (\<forall>v < vc. int (pending tris vc (emitted st) v) \<le> active_count st ! v)"

subsection \<open>Properties of the optimiser\<close>

lemma tri_verts_in_range: "v \<in> set (tri_verts vc tri) \<Longrightarrow> v < vc"
  by (cases tri) (auto simp: tri_verts_def in_range_def split: if_splits)

lemma vert_tris_in_range:
  assumes "v < vc" and "ti \<in> set (vert_tris tris vc ! v)"
  shows "ti < length tris"
  using assms by (auto simp: vert_tris_def)

lemma length_vert_tris: "length (vert_tris tris vc) = vc"
  by (simp add: vert_tris_def)

lemma vertex_score_nonneg:
  assumes "0 < a"
  shows "0 \<le> vertex_score cp a"
proof -
  have "0 \<le> 2 * (real_of_int a powr (- 0.5))" by simp
  moreover have "0 \<le> (if cp \<ge> 0
                then (if cp < 3 then 0.75
                      else (let t = real_of_int (cp - 3) / real (CACHE_SIZE - 3)
                            in (1 - t) powr 1.5))
                else (0::real))"
    by (simp add: Let_def)
  ultimately show ?thesis
    using assms by (simp add: vertex_score_def Let_def del: powr_minus)
qed

lemma tri_score_nonneg:
  assumes "\<And>v. v \<in> set (tri_verts vc tri) \<Longrightarrow> 0 \<le> sc ! v"
  shows "0 \<le> tri_score sc vc tri"
  unfolding tri_score_def using assms by (intro sum_list_nonneg) auto

lemma decrement_nth:
  assumes "v < length ac"
  shows "foldl (\<lambda>ac v. ac[v := ac ! v - 1]) ac vs ! v = ac ! v - int (count_list vs v)"
  using assms
proof (induction vs arbitrary: ac)
  case Nil
  show ?case by simp
next
  case (Cons w vs)
  have "length (ac[w := ac ! w - 1]) = length ac" by simp
  with Cons.prems have "v < length (ac[w := ac ! w - 1])" by simp
  from Cons.IH [OF this] Cons.prems show ?case
    by (cases "w = v") simp_all
qed

lemma decrement_length:
  "length (foldl (\<lambda>ac v. ac[v := ac ! v - 1]) ac vs) = length ac"
  by (induction vs arbitrary: ac) simp_all

lemma cache_insert_set:
  "set (foldl (\<lambda>c v. if v \<in> set c then c else c @ [v]) c0 old) = set c0 \<union> set old"
  by (induction old arbitrary: c0) auto

lemma rescore_length:
  "length (foldl (\<lambda>sc v. sc[v := h v]) sc vs) = length sc"
  by (induction vs arbitrary: sc) simp_all

lemma rescore_nth:
  assumes "i < length sc"
  shows "foldl (\<lambda>sc v. sc[v := h v]) sc vs ! i = (if i \<in> set vs then h i else sc ! i)"
  using assms
proof (induction vs arbitrary: sc rule: rev_induct)
  case Nil
  show ?case by simp
next
  case (snoc w vs)
  have len: "length (foldl (\<lambda>sc v. sc[v := h v]) sc vs) = length sc"
    by (rule rescore_length)
  from snoc show ?case
    by (cases "w = i") (simp_all add: len)
qed

lemma find_best_spec:
  "(find_best ts em = - 1 \<and> (\<forall>ti < length ts. em ! ti \<or> ts ! ti \<le> - 2)) \<or>
   (0 \<le> find_best ts em \<and> find_best ts em < int (length ts) \<and> \<not> em ! nat (find_best ts em))"
proof -
  let ?f = "\<lambda>(bt, bs) ti. if \<not> em ! ti \<and> ts ! ti > bs then (int ti, ts ! ti) else (bt, bs)"
  have "\<And>n. n \<le> length ts \<Longrightarrow>
          (case foldl ?f (- 1, - 2) [0..<n] of (bt, bs) \<Rightarrow>
             (bt = - 1 \<and> bs = - 2 \<and> (\<forall>ti < n. em ! ti \<or> ts ! ti \<le> - 2)) \<or>
             (0 \<le> bt \<and> bt < int n \<and> \<not> em ! nat bt))"
  proof -
    fix n show "n \<le> length ts \<Longrightarrow>
          (case foldl ?f (- 1, - 2) [0..<n] of (bt, bs) \<Rightarrow>
             (bt = - 1 \<and> bs = - 2 \<and> (\<forall>ti < n. em ! ti \<or> ts ! ti \<le> - 2)) \<or>
             (0 \<le> bt \<and> bt < int n \<and> \<not> em ! nat bt))"
    proof (induction n)
      case 0
      show ?case by simp
    next
      case (Suc n)
      obtain bt bs where acc: "foldl ?f (- 1, - 2) [0..<n] = (bt, bs)"
        by (cases "foldl ?f (- 1, - 2) [0..<n]")
      from Suc acc have ih: "(bt = - 1 \<and> bs = - 2 \<and> (\<forall>ti < n. em ! ti \<or> ts ! ti \<le> - 2)) \<or>
             (0 \<le> bt \<and> bt < int n \<and> \<not> em ! nat bt)"
        by simp
      show ?case
      proof (cases "\<not> em ! n \<and> ts ! n > bs")
        case True
        then show ?thesis by (simp add: acc)
      next
        case False
        with ih show ?thesis
          by (auto simp: acc less_Suc_eq not_less)
      qed
    qed
  qed
  from this [of "length ts"] show ?thesis
    by (auto simp: find_best_def split: prod.splits)
qed

lemma first_max_bound:
  assumes "xs \<noteq> []"
  shows "first_max xs < length xs"
proof -
  have "\<And>n. n \<le> length xs \<Longrightarrow> 0 < length xs \<Longrightarrow>
          foldl (\<lambda>b i. if xs ! i > xs ! b then i else b) 0 [1..<n] < length xs"
  proof -
    fix n show "n \<le> length xs \<Longrightarrow> 0 < length xs \<Longrightarrow>
          foldl (\<lambda>b i. if xs ! i > xs ! b then i else b) 0 [1..<n] < length xs"
      by (induction n) auto
  qed
  from this [of "length xs"] assms show ?thesis
    by (simp add: first_max_def)
qed

lemma nth_update_read:
  "j < length xs \<Longrightarrow> xs[i := v] ! j = (if i = j then v else xs ! j)"
  by (cases "i = j") simp_all

lemma rescan_spec:
  "case foldl (rescan_step g) (ts0, bs0, b0) xs of
     (ts1, bs1, b1) \<Rightarrow>
       length ts1 = length ts0 \<and>
       (\<forall>ti < length ts0. ts1 ! ti = (if ti \<in> set xs then g ti else ts0 ! ti)) \<and>
       (b1 = b0 \<or> (0 \<le> b1 \<and> nat b1 \<in> set xs))"
proof (induction xs rule: rev_induct)
  case Nil
  show ?case by simp
next
  case (snoc x xs)
  obtain ts1 bs1 b1 where acc: "foldl (rescan_step g) (ts0, bs0, b0) xs = (ts1, bs1, b1)"
    by (cases "foldl (rescan_step g) (ts0, bs0, b0) xs") auto
  with snoc have ih: "length ts1 = length ts0"
    "\<forall>ti < length ts0. ts1 ! ti = (if ti \<in> set xs then g ti else ts0 ! ti)"
    "b1 = b0 \<or> (0 \<le> b1 \<and> nat b1 \<in> set xs)"
    by simp_all
  have step: "foldl (rescan_step g) (ts0, bs0, b0) (xs @ [x])
      = (ts1[x := g x], if g x > bs1 then (g x, int x) else (bs1, b1))"
    by (simp add: acc rescan_step_def Let_def)
  show ?case
    unfolding step using ih by (auto simp: nth_update_read)
qed

lemma pending_finite: "finite {ti. ti < length tris \<and> P ti}"
  by simp

lemma emitted_set_update:
  assumes "p < length em"
  shows "{ti. ti < length em \<and> em[p := True] ! ti} = insert p {ti. ti < length em \<and> em ! ti}"
  using assms by (auto simp: nth_list_update)

lemma unemitted_set_update:
  assumes "p < length em"
  shows "{ti. ti < length em \<and> \<not> em[p := True] ! ti} = {ti. ti < length em \<and> \<not> em ! ti} - {p}"
  using assms by (auto simp: nth_list_update)

lemma pending_remove:
  assumes p: "p < length tris" and len: "length em = length tris" and un: "\<not> em ! p"
  shows "pending tris vc em v
           = count_list (tri_verts vc (tris ! p)) v + pending tris vc (em[p := True]) v"
proof -
  let ?A = "{ti. ti < length tris \<and> \<not> em ! ti}"
  let ?f = "\<lambda>ti. count_list (tri_verts vc (tris ! ti)) v"
  have "p \<in> ?A" using p un by simp
  then have "sum ?f ?A = ?f p + sum ?f (?A - {p})"
    by (intro sum.remove) simp_all
  moreover have "{ti. ti < length tris \<and> \<not> em[p := True] ! ti} = ?A - {p}"
    using unemitted_set_update [of p em] p len by simp
  ultimately show ?thesis
    by (simp add: pending_def)
qed

lemma pending_positive:
  assumes "ti < length tris" and "\<not> em ! ti" and "v \<in> set (tri_verts vc (tris ! ti))"
  shows "1 \<le> pending tris vc em v"
proof -
  let ?A = "{ti. ti < length tris \<and> \<not> em ! ti}"
  let ?f = "\<lambda>ti. count_list (tri_verts vc (tris ! ti)) v"
  have "ti \<in> ?A" using assms by simp
  then have "?f ti \<le> sum ?f ?A"
    by (intro member_le_sum) simp_all
  moreover have "1 \<le> ?f ti"
  proof -
    have "?f ti \<noteq> 0" using assms(3) by (simp add: count_list_0_iff)
    then show ?thesis by simp
  qed
  ultimately show ?thesis by (simp add: pending_def)
qed

lemma set_arrange: "set (arrange set_order k xs) = set xs"
proof (cases "mset (set_order k (remdups xs)) = mset (remdups xs)")
  case True
  then have "set (set_order k (remdups xs)) = set (remdups xs)" by (rule mset_eq_setD)
  with True show ?thesis by (simp add: arrange_def)
next
  case False
  then show ?thesis by (simp add: arrange_def)
qed

lemma initial_opt_state_inv:
  assumes ne: "tris \<noteq> []"
  shows "opt_inv tris vc (initial_opt_state tris vc)"
proof -
  let ?n = "length tris"
  let ?active = "map (\<lambda>tl. int (length tl)) (vert_tris tris vc)"
  let ?sc = "map (\<lambda>v. vertex_score (- 1) (?active ! v)) [0..<vc]"
  let ?ts = "map (tri_score ?sc vc) tris"
  let ?em = "replicate ?n False"
  have pend: "int (pending tris vc ?em v) \<le> ?active ! v" if v: "v < vc" for v
  proof -
    let ?c = "\<lambda>ti. count_list (tri_verts vc (tris ! ti)) v"
    have "{ti. ti < ?n \<and> \<not> ?em ! ti} = {0..<?n}" by auto
    then have "pending tris vc ?em v = sum ?c {0..<?n}" by (simp add: pending_def)
    also have "\<dots> = sum_list (map ?c [0..<?n])"
      by (simp add: interv_sum_list_conv_sum_set_nat)
    also have "\<dots> = length (vert_tris tris vc ! v)"
      using v by (simp add: vert_tris_def length_concat comp_def)
    finally show ?thesis using v by (simp add: length_vert_tris)
  qed
  have sc: "0 \<le> ?sc ! v" if v: "v < vc" and pos: "0 < ?active ! v" for v
    using v pos vertex_score_nonneg [of "?active ! v" "- 1"] by simp
  have ts: "0 \<le> ?ts ! ti" if ti: "ti < ?n" for ti
  proof -
    have "0 \<le> tri_score ?sc vc (tris ! ti)"
    proof (rule tri_score_nonneg)
      fix v assume mem: "v \<in> set (tri_verts vc (tris ! ti))"
      then have v: "v < vc" by (rule tri_verts_in_range)
      have "\<not> ?em ! ti" using ti by simp
      from pending_positive [OF ti this mem] pend [OF v] have "0 < ?active ! v" by linarith
      with v show "0 \<le> ?sc ! v" by (rule sc)
    qed
    with ti show ?thesis by simp
  qed
  have best: "first_max ?ts < ?n"
    using first_max_bound [of ?ts] ne by simp
  have none: "{ti. ti < ?n \<and> ?em ! ti} = {}" by auto
  show ?thesis
    unfolding opt_inv_def initial_opt_state_def Let_def
    using pend sc ts best by (simp add: length_vert_tris none)
qed

lemma next_triangle_found:
  assumes inv: "opt_inv tris vc st" and more: "emitted_count st < length tris"
  shows "\<exists>bt. next_triangle st = Some bt \<and> - 1 \<le> bt \<and> bt < int (length tris) \<and>
               py_position (length tris) bt < length tris \<and>
               \<not> emitted st ! py_position (length tris) bt"
proof -
  let ?n = "length tris"
  from inv have len: "length (emitted st) = ?n" "length (tri_scores st) = ?n"
    and best: "- 1 \<le> best_tri st" "best_tri st < int ?n"
    and cnt: "emitted_count st = card {ti. ti < ?n \<and> emitted st ! ti}"
    and ts: "\<And>ti. ti < ?n \<Longrightarrow> \<not> emitted st ! ti \<Longrightarrow> 0 \<le> tri_scores st ! ti"
    by (simp_all add: opt_inv_def)
  from more have npos: "0 < ?n" by (cases tris) simp_all
  have pos_bound: "py_position ?n bt < ?n" if "- 1 \<le> bt" "bt < int ?n" for bt
    using that npos by (cases tris) (auto simp: py_position_def)
  show ?thesis
  proof (cases "emitted st ! py_position ?n (best_tri st)")
    case False
    then have "next_triangle st = Some (best_tri st)"
      by (simp add: next_triangle_def len)
    with False best pos_bound [OF best] show ?thesis by simp
  next
    case True
    have "\<exists>ti < ?n. \<not> emitted st ! ti"
    proof (rule ccontr)
      assume "\<not> (\<exists>ti < ?n. \<not> emitted st ! ti)"
      then have "{ti. ti < ?n \<and> emitted st ! ti} = {0..<?n}" by auto
      with cnt more show False by simp
    qed
    then obtain ti where ti: "ti < ?n" "\<not> emitted st ! ti" by blast
    with ts have "0 \<le> tri_scores st ! ti" by simp
    with ti have not_all: "\<not> (\<forall>ti < length (tri_scores st). emitted st ! ti \<or> tri_scores st ! ti \<le> - 2)"
      using len by (intro notI) (auto dest!: spec [of _ ti])
    let ?bt = "find_best (tri_scores st) (emitted st)"
    from find_best_spec [of "tri_scores st" "emitted st"] not_all
    have found: "0 \<le> ?bt" "?bt < int ?n" "\<not> emitted st ! nat ?bt"
      using len by auto
    then have "py_position ?n ?bt = nat ?bt" by (simp add: py_position_def)
    moreover from True found have "next_triangle st = Some ?bt"
      by (simp add: next_triangle_def len Let_def)
    ultimately show ?thesis using found by simp
  qed
qed

lemma emit_fields:
  fixes set_order tris vc bt st
  defines "st' \<equiv> emit set_order tris vc bt st"
  defines "p \<equiv> py_position (length tris) bt"
  defines "tv \<equiv> tri_verts vc (tris ! p)"
  defines "dv \<equiv> remdups (cache st' @ tv)"
  defines "dt \<equiv> arrange set_order (emitted_count st)
                  (filter (\<lambda>ti. \<not> emitted st' ! ti) (concat (map (\<lambda>v. vert_tris tris vc ! v) dv)))"
  defines "scan \<equiv> foldl (rescan_step (\<lambda>ti. tri_score (scores st') vc (tris ! ti)))
                    (tri_scores st, - 2, - 1) dt"
  shows "emitted st' = (emitted st)[p := True]"
    and "result st' = result st @ [tris ! p]"
    and "emitted_count st' = emitted_count st + 1"
    and "active_count st' = foldl (\<lambda>ac v. ac[v := ac ! v - 1]) (active_count st) tv"
    and "cache st' = take CACHE_SIZE (foldl (\<lambda>c v. if v \<in> set c then c else c @ [v]) tv (cache st))"
    and "scores st' = foldl (\<lambda>sc v. sc[v := vertex_score (cache_pos st' ! v) (active_count st' ! v)])
                        (scores st) dv"
    and "tri_scores st' = fst scan"
    and "best_tri st' = snd (snd scan)"
  unfolding scan_def dt_def dv_def tv_def p_def st'_def
  by (simp_all add: emit_def Let_def case_prod_beta)

lemma emit_inv:
  assumes inv: "opt_inv tris vc st"
    and p: "py_position (length tris) bt < length tris"
    and un: "\<not> emitted st ! py_position (length tris) bt"
  shows "opt_inv tris vc (emit set_order tris vc bt st)"
proof -
  define st' where "st' = emit set_order tris vc bt st"
  define p where "p = py_position (length tris) bt"
  define tv where "tv = tri_verts vc (tris ! p)"
  define dv where "dv = remdups (cache st' @ tv)"
  define dt where "dt = arrange set_order (emitted_count st)
                  (filter (\<lambda>ti. \<not> emitted st' ! ti) (concat (map (\<lambda>v. vert_tris tris vc ! v) dv)))"
  define g where "g = (\<lambda>ti. tri_score (scores st') vc (tris ! ti))"
  define scan where "scan = foldl (rescan_step g) (tri_scores st, - 2, - 1) dt"
  note fields = emit_fields [of set_order tris vc bt st,
      folded st'_def p_def, folded tv_def, folded dv_def, folded dt_def, folded g_def, folded scan_def]
  have em: "emitted st' = (emitted st)[p := True]" by (rule fields(1))
  have res: "result st' = result st @ [tris ! p]" by (rule fields(2))
  have cnt: "emitted_count st' = emitted_count st + 1" by (rule fields(3))
  have ac: "active_count st' = foldl (\<lambda>ac v. ac[v := ac ! v - 1]) (active_count st) tv"
    by (rule fields(4))
  have ca: "cache st' = take CACHE_SIZE (foldl (\<lambda>c v. if v \<in> set c then c else c @ [v]) tv (cache st))"
    by (rule fields(5))
  have sc: "scores st' = foldl (\<lambda>sc v. sc[v := vertex_score (cache_pos st' ! v) (active_count st' ! v)])
                        (scores st) dv"
    by (rule fields(6))
  have ts: "tri_scores st' = fst scan" by (rule fields(7))
  have bt: "best_tri st' = snd (snd scan)" by (rule fields(8))
  let ?n = "length tris"
  from inv have len_em: "length (emitted st) = ?n" and len_ts: "length (tri_scores st) = ?n"
    and len_ac: "length (active_count st) = vc" and len_sc: "length (scores st) = vc"
    and cache_ok: "\<And>v. v \<in> set (cache st) \<Longrightarrow> v < vc"
    and cnt_ok: "emitted_count st = card {ti. ti < ?n \<and> emitted st ! ti}"
    and res_ok: "mset (result st)
                   = image_mset (\<lambda>ti. tris ! ti) (mset_set {ti. ti < ?n \<and> emitted st ! ti})"
    and ts_ok: "\<And>ti. ti < ?n \<Longrightarrow> \<not> emitted st ! ti \<Longrightarrow> 0 \<le> tri_scores st ! ti"
    and sc_ok: "\<And>v. v < vc \<Longrightarrow> 0 < active_count st ! v \<Longrightarrow> 0 \<le> scores st ! v"
    and pend_ok: "\<And>v. v < vc \<Longrightarrow> int (pending tris vc (emitted st) v) \<le> active_count st ! v"
    by (simp_all add: opt_inv_def)
  have p_lt: "p < ?n" using p by (simp add: p_def)
  have p_un: "\<not> emitted st ! p" using un by (simp add: p_def)
  have tv_range: "\<And>v. v \<in> set tv \<Longrightarrow> v < vc"
    unfolding tv_def by (rule tri_verts_in_range)

  have c1: "length (emitted st') = ?n" by (simp add: em len_em)
  have c3: "length (active_count st') = vc" by (simp add: ac decrement_length len_ac)
  have c4: "length (scores st') = vc" by (simp add: sc rescore_length len_sc)
  have cache_range: "v < vc" if "v \<in> set (cache st')" for v
  proof -
    from that have "v \<in> set (foldl (\<lambda>c v. if v \<in> set c then c else c @ [v]) tv (cache st))"
      unfolding ca by (rule in_set_takeD)
    then have "v \<in> set tv \<union> set (cache st)" by (simp only: cache_insert_set)
    then show ?thesis using tv_range cache_ok by blast
  qed
  then have c5: "\<forall>v \<in> set (cache st'). v < vc" by blast
  have dv_range: "v < vc" if "v \<in> set dv" for v
    using that cache_range tv_range by (auto simp: dv_def)
  have dt_set: "ti < ?n \<and> \<not> emitted st' ! ti" if "ti \<in> set dt" for ti
  proof -
    from that have "ti \<in> set (filter (\<lambda>ti. \<not> emitted st' ! ti) (concat (map (\<lambda>v. vert_tris tris vc ! v) dv)))"
      by (simp only: dt_def set_arrange)
    then obtain v where "v \<in> set dv" "ti \<in> set (vert_tris tris vc ! v)" "\<not> emitted st' ! ti"
      by auto
    then show ?thesis using dv_range vert_tris_in_range by blast
  qed

  have scan_spec: "length (fst scan) = ?n \<and>
       (\<forall>ti < ?n. fst scan ! ti = (if ti \<in> set dt then g ti else tri_scores st ! ti)) \<and>
       (snd (snd scan) = - 1 \<or> (0 \<le> snd (snd scan) \<and> nat (snd (snd scan)) \<in> set dt))"
    using rescan_spec [where g = g and ?ts0.0 = "tri_scores st" and ?bs0.0 = "- 2" and ?b0.0 = "- 1" and xs = dt]
    by (simp add: scan_def case_prod_beta len_ts)
  have c2: "length (tri_scores st') = ?n" using scan_spec by (simp add: ts)
  have c6: "- 1 \<le> best_tri st' \<and> best_tri st' < int ?n"
  proof -
    from scan_spec have "best_tri st' = - 1 \<or> (0 \<le> best_tri st' \<and> nat (best_tri st') \<in> set dt)"
      by (simp add: bt)
    then show ?thesis
    proof
      assume "best_tri st' = - 1"
      then show ?thesis using p_lt by simp
    next
      assume a: "0 \<le> best_tri st' \<and> nat (best_tri st') \<in> set dt"
      then have "nat (best_tri st') < ?n" using dt_set by blast
      with a show ?thesis by linarith
    qed
  qed

  have set_eq: "{ti. ti < ?n \<and> emitted st' ! ti} = insert p {ti. ti < ?n \<and> emitted st ! ti}"
    using emitted_set_update [of p "emitted st"] p_lt by (simp add: em len_em)
  have p_new: "p \<notin> {ti. ti < ?n \<and> emitted st ! ti}" using p_un by simp
  have fin: "finite {ti. ti < ?n \<and> emitted st ! ti}" by simp
  have c7: "emitted_count st' = card {ti. ti < ?n \<and> emitted st' ! ti}"
    unfolding set_eq cnt cnt_ok using card_insert_disjoint [OF fin p_new] by linarith
  have c8: "mset (result st')
              = image_mset (\<lambda>ti. tris ! ti) (mset_set {ti. ti < ?n \<and> emitted st' ! ti})"
  proof -
    have "mset_set (insert p {ti. ti < ?n \<and> emitted st ! ti})
            = add_mset p (mset_set {ti. ti < ?n \<and> emitted st ! ti})"
      using fin p_new by (rule mset_set.insert)
    then show ?thesis unfolding set_eq by (simp add: res res_ok)
  qed

  have ac_nth: "active_count st' ! v = active_count st ! v - int (count_list tv v)" if "v < vc" for v
    unfolding ac using that len_ac by (simp add: decrement_nth)
  have c11: "int (pending tris vc (emitted st') v) \<le> active_count st' ! v" if v: "v < vc" for v
  proof -
    have "pending tris vc (emitted st) v = count_list tv v + pending tris vc (emitted st') v"
      unfolding tv_def em using p_lt len_em p_un by (rule pending_remove)
    with pend_ok [OF v] ac_nth [OF v] show ?thesis by linarith
  qed
  have c10: "0 \<le> scores st' ! v" if v: "v < vc" and pos: "0 < active_count st' ! v" for v
  proof -
    have nth: "scores st' ! v
                = (if v \<in> set dv then vertex_score (cache_pos st' ! v) (active_count st' ! v)
                   else scores st ! v)"
      unfolding sc using v len_sc
      by (simp add: rescore_nth [where h = "\<lambda>v. vertex_score (cache_pos st' ! v) (active_count st' ! v)"])
    show ?thesis
    proof (cases "v \<in> set dv")
      case True
      with nth pos show ?thesis by (simp add: vertex_score_nonneg)
    next
      case False
      then have "v \<notin> set tv" by (simp add: dv_def)
      then have "count_list tv v = 0" by (simp add: count_list_0_iff)
      with ac_nth [OF v] pos have "0 < active_count st ! v" by simp
      with sc_ok [OF v] nth False show ?thesis by simp
    qed
  qed
  have c9: "0 \<le> tri_scores st' ! ti" if ti: "ti < ?n" and un': "\<not> emitted st' ! ti" for ti
  proof -
    have nth: "tri_scores st' ! ti = (if ti \<in> set dt then g ti else tri_scores st ! ti)"
      using scan_spec ti by (simp add: ts)
    show ?thesis
    proof (cases "ti \<in> set dt")
      case True
      have "0 \<le> tri_score (scores st') vc (tris ! ti)"
      proof (rule tri_score_nonneg)
        fix v assume mem: "v \<in> set (tri_verts vc (tris ! ti))"
        then have v: "v < vc" by (rule tri_verts_in_range)
        from pending_positive [OF ti un' mem] c11 [OF v] have "0 < active_count st' ! v"
          by linarith
        with v show "0 \<le> scores st' ! v" by (rule c10)
      qed
      with nth True show ?thesis by (simp add: g_def)
    next
      case False
      from un' ti have "\<not> emitted st ! ti"
        using len_em by (cases "ti = p") (simp_all add: em)
      with ts_ok [OF ti] nth False show ?thesis by simp
    qed
  qed
  show ?thesis
    unfolding st'_def [symmetric] opt_inv_def
    using c1 c2 c3 c4 c5 c6 c7 c8 c9 c10 c11 by blast
qed

lemma optimize_loop_permutes:
  assumes "opt_inv tris vc st"
  shows "mset (optimize_loop set_order tris vc st) = mset tris"
  using assms
proof (induction set_order tris vc st rule: optimize_loop.induct)
  case (1 set_order tris vc st)
  show ?case
  proof (cases "emitted_count st < length tris")
    case True
    from next_triangle_found [OF "1.prems" True] obtain bt where
      bt: "next_triangle st = Some bt" and
      pos: "py_position (length tris) bt < length tris" and
      un: "\<not> emitted st ! py_position (length tris) bt"
      by blast
    have "opt_inv tris vc (emit set_order tris vc bt st)"
      using "1.prems" pos un by (rule emit_inv)
    with "1.IH" [OF True bt] have "mset (optimize_loop set_order tris vc (emit set_order tris vc bt st)) = mset tris" .
    then show ?thesis using True bt by (simp add: optimize_loop.simps [of set_order tris vc st])
  next
    case False
    let ?A = "{ti. ti < length tris \<and> emitted st ! ti}"
    from "1.prems" have cnt: "emitted_count st = card ?A"
      and res: "mset (result st) = image_mset (\<lambda>ti. tris ! ti) (mset_set ?A)"
      by (simp_all add: opt_inv_def)
    have sub: "?A \<subseteq> {0..<length tris}" by auto
    have "card ?A \<le> length tris" using card_mono [OF _ sub] by simp
    with False cnt have "card ?A = card {0..<length tris}" by simp
    with sub have "?A = {0..<length tris}" by (intro card_subset_eq) simp_all
    then have "mset (result st) = image_mset (\<lambda>ti. tris ! ti) (mset_set {0..<length tris})"
      using res by simp
    also have "\<dots> = mset (map (\<lambda>ti. tris ! ti) [0..<length tris])"
      by (simp add: mset_upt [symmetric] del: mset_upt)
    also have "\<dots> = mset tris" by (simp add: map_nth)
    finally show ?thesis using False by (simp add: optimize_loop.simps [of set_order tris vc st])
  qed
qed

subsection \<open>The optimiser permutes the triangles\<close>

text \<open>
  Claim C1. For every list of triangles, every \<^verbatim>\<open>vertex_count\<close> and every iteration order of
  the sets, \<^verbatim>\<open>optimize_triangles\<close> returns a permutation of its input: the multiset of the
  triangles returned is the multiset of the triangles given. When \<^verbatim>\<open>vertex_count\<close> is at most
  32, or there is at most one triangle, the list returned is the list given, in the same
  order. \<open>optimize_loop\<close> is a total function, so the \<^verbatim>\<open>while\<close> loop ends on every input.
\<close>

theorem optimize_triangles_permutation:
  "mset (optimize_triangles set_order tris vertex_count) = mset tris \<and>
   (vertex_count \<le> 32 \<or> length tris \<le> 1
      \<longrightarrow> optimize_triangles set_order tris vertex_count = tris)"
proof (cases "length tris \<le> 1 \<or> vertex_count \<le> int CACHE_SIZE")
  case True
  then have "optimize_triangles set_order tris vertex_count = tris"
    by (simp add: optimize_triangles_def)
  then show ?thesis by simp
next
  case False
  then have ne: "tris \<noteq> []" by auto
  have run: "optimize_triangles set_order tris vertex_count
               = optimize_loop set_order tris (nat vertex_count)
                   (initial_opt_state tris (nat vertex_count))"
    using False by (simp add: optimize_triangles_def)
  have "opt_inv tris (nat vertex_count) (initial_opt_state tris (nat vertex_count))"
    using ne by (rule initial_opt_state_inv)
  then have "mset (optimize_triangles set_order tris vertex_count) = mset tris"
    unfolding run by (rule optimize_loop_permutes)
  moreover have "\<not> (vertex_count \<le> 32 \<or> length tris \<le> 1)"
    using False by (simp add: CACHE_SIZE_def)
  ultimately show ?thesis by simp
qed

theorem optimize_triangles_permutation_witness:
  "optimize_triangles (\<lambda>k xs. xs) [(0, 1, 2), (2, 1, 3)] 4 = [(0, 1, 2), (2, 1, 3)] \<and>
   optimize_triangles (\<lambda>k xs. rev xs) [(5, 6, 7)] 40 = [(5, 6, 7)] \<and>
   mset (optimize_triangles (\<lambda>k xs. rev xs) [(0, 1, 2), (2, 1, 3), (30, 31, 39)] 40)
     = {#(0, 1, 2), (2, 1, 3), (30, 31, 39)#}"
  using optimize_triangles_permutation [of "\<lambda>k xs. xs" "[(0, 1, 2), (2, 1, 3)]" 4]
    optimize_triangles_permutation [of "\<lambda>k xs. rev xs" "[(5, 6, 7)]" 40]
    optimize_triangles_permutation [of "\<lambda>k xs. rev xs" "[(0, 1, 2), (2, 1, 3), (30, 31, 39)]" 40]
  by simp

end
